(* ===== verification/Prelude.thy ===== *)
theory Prelude
  imports Main "HOL-Library.Word"
begin

text \<open>
  What every theory of the development shares: the machine integer of the program (Go's
  \<open>int\<close> on a 64-bit platform), the outcome of a Go call that may panic, buffered channels with the
  non-blocking send of a \<open>select\<close> that has a \<open>default\<close> branch, the named collections of rewrite
  rules, and generic lemmas on lists and sums.
\<close>

named_theorems go_defs \<open>definitions of the model that proofs unfold\<close>
named_theorems go_frame \<open>what an operation leaves unchanged\<close>
named_theorems go_inv \<open>preservation of invariants\<close>

section \<open>Machine integers\<close>

text \<open>Go's \<open>int\<close> and \<open>int64\<close>: 64 bits, two's complement, wrap-around arithmetic.\<close>

type_synonym go_int = "64 word"

abbreviation int64_min :: int where
  "int64_min \<equiv> - 9223372036854775808"

abbreviation int64_max :: int where
  "int64_max \<equiv> 9223372036854775807"

definition in_int64 :: "int \<Rightarrow> bool" where
  "in_int64 z \<longleftrightarrow> int64_min \<le> z \<and> z \<le> int64_max"

lemma sint_of_int64 [simp]:
  "in_int64 z \<Longrightarrow> sint (word_of_int z :: go_int) = z"
  by (simp add: in_int64_def sint_word_ariths signed_take_bit_int_eq_self sint_uint
      signed_take_bit_take_bit uint_word_of_int_eq)

lemma in_int64_sint [simp]: "in_int64 (sint (w :: go_int))"
  using sint_range_size [of w] by (simp add: in_int64_def word_size)

lemma sless_zero_iff: "(w :: go_int) <s 0 \<longleftrightarrow> sint w < 0"
  by (simp add: word_sless_alt)

lemma zero_sless_iff: "0 <s (w :: go_int) \<longleftrightarrow> 0 < sint w"
  by (simp add: word_sless_alt)

lemma sint_eq_iff: "(v :: go_int) = w \<longleftrightarrow> sint v = sint w"
  by (auto intro: signed_word_eqI)

lemma sint_minus_int64:
  "sint (w :: go_int) \<noteq> int64_min \<Longrightarrow> sint (- w) = - sint w"
proof -
  assume h: "sint w \<noteq> int64_min"
  have r: "in_int64 (sint w)" by simp
  with h have "in_int64 (- sint w)" by (auto simp: in_int64_def)
  then have "sint (word_of_int (- sint w) :: go_int) = - sint w" by (rule sint_of_int64)
  moreover have "(word_of_int (- sint w) :: go_int) = - w"
    by (simp flip: wi_hom_neg)
  ultimately show ?thesis by (simp only:)
qed

lemma minus_int64_min:
  assumes "sint (w :: go_int) = int64_min"
  shows "- w = w"
proof -
  have "sint (word_of_int int64_min :: go_int) = int64_min"
    by (rule sint_of_int64) (simp add: in_int64_def)
  then have "w = word_of_int int64_min"
    using assms sint_eq_iff by metis
  then show ?thesis by simp
qed

section \<open>Panics\<close>

text \<open>
  A Go call either returns or panics; the panics the source can reach are the constructors
  of \<open>go_panic\<close>. An \<open>error\<close> result is a value and lives inside \<open>Returns\<close>.
\<close>

datatype go_panic = NilDereference | SliceBounds | SendOnClosedChannel | NonPositiveTicker

datatype 'a outcome = Returns 'a | Panics go_panic

fun bind_outcome :: "'a outcome \<Rightarrow> ('a \<Rightarrow> 'b outcome) \<Rightarrow> 'b outcome" where
  "bind_outcome (Returns x) f = f x"
| "bind_outcome (Panics p) f = Panics p"

fun returns :: "'a outcome \<Rightarrow> bool" where
  "returns (Returns _) = True"
| "returns (Panics _) = False"

lemma bind_outcome_Returns_iff:
  "bind_outcome x f = Returns y \<longleftrightarrow> (\<exists>v. x = Returns v \<and> f v = Returns y)"
  by (cases x) auto

section \<open>Buffered channels\<close>

record 'a chan =
  chan_buf :: "'a list"
  chan_cap :: nat
  chan_closed :: bool

text \<open>\<open>make(chan T, n)\<close>.\<close>

definition make_chan :: "nat \<Rightarrow> 'a chan" where
  "make_chan n = \<lparr>chan_buf = [], chan_cap = n, chan_closed = False\<rparr>"

text \<open>
  \<open>select { case ch <- x: default: }\<close> on a buffered channel: a send on a closed channel panics
  even under \<open>select\<close>, a full buffer takes the \<open>default\<close> branch. So does a channel without a buffer here,
  where Go would hand over to a receiver that waits; the two channels of the program have buffers (32 and 1).
\<close>

definition try_send :: "'a \<Rightarrow> 'a chan \<Rightarrow> 'a chan outcome" where
  "try_send x ch =
     (if chan_closed ch then Panics SendOnClosedChannel
      else if length (chan_buf ch) < chan_cap ch
      then Returns (ch\<lparr>chan_buf := chan_buf ch @ [x]\<rparr>)
      else Returns ch)"

lemma try_send_open: "\<not> chan_closed ch \<Longrightarrow> returns (try_send x ch)"
  by (simp add: try_send_def)

lemma try_send_bounded:
  "try_send x ch = Returns ch' \<Longrightarrow> length (chan_buf ch) \<le> chan_cap ch \<Longrightarrow>
   length (chan_buf ch') \<le> chan_cap ch'"
  by (auto simp: try_send_def split: if_splits)

lemma try_send_frame [go_frame]:
  "try_send x ch = Returns ch' \<Longrightarrow> chan_cap ch' = chan_cap ch \<and> chan_closed ch' = chan_closed ch"
  by (auto simp: try_send_def split: if_splits)

section \<open>Lists and sums\<close>

lemma last_dropWhile: "dropWhile P xs \<noteq> [] \<Longrightarrow> last (dropWhile P xs) = last xs"
  by (induction xs) auto

lemma Inl_not_Inr_cases:
  obtains (Inl) e where "r = Inl e" | (Inr) x where "r = Inr x"
  by (cases r) auto

end
