(* ===== verification/GoStd.thy ===== *)
theory GoStd
  imports Prelude
begin

text \<open>
  The functions of the Go standard library that the source calls on strings and numbers:
  \<open>strings.ReplaceAll\<close> with an empty replacement, \<open>strings.Split\<close>, \<open>strconv.Atoi\<close> with its two
  error kinds, \<open>strconv.Itoa\<close>. A Go string is its bytes; \<open>char\<close> is a byte here, so \<open>length\<close>
  is Go's \<open>len\<close>.
\<close>

section \<open>Digits\<close>

definition is_digit :: "char \<Rightarrow> bool" where
  "is_digit c \<longleftrightarrow> 48 \<le> (of_char c :: nat) \<and> (of_char c :: nat) \<le> 57"

definition digit_val :: "char \<Rightarrow> nat" where
  "digit_val c = of_char c - 48"

definition digit_char :: "nat \<Rightarrow> char" where
  "digit_char n = char_of (48 + n)"

lemma of_digit_char: "n < 10 \<Longrightarrow> (of_char (digit_char n) :: nat) = 48 + n"
  by (simp add: digit_char_def of_char_of)

lemma is_digit_digit_char [simp]: "n < 10 \<Longrightarrow> is_digit (digit_char n)"
  by (simp add: is_digit_def of_digit_char)

lemma digit_val_digit_char [simp]: "n < 10 \<Longrightarrow> digit_val (digit_char n) = n"
  by (simp add: digit_val_def of_digit_char)

lemma digit_val_le [simp]: "is_digit c \<Longrightarrow> digit_val c \<le> 9"
  unfolding is_digit_def digit_val_def by linarith

lemma digit_val_inj:
  "is_digit c \<Longrightarrow> is_digit d \<Longrightarrow> digit_val c = digit_val d \<Longrightarrow> c = d"
proof -
  assume "is_digit c" "is_digit d" "digit_val c = digit_val d"
  then have "(of_char c :: nat) = of_char d"
    unfolding is_digit_def digit_val_def by linarith
  then show "c = d" by simp
qed

lemma digit_char_digit_val: "is_digit c \<Longrightarrow> digit_char (digit_val c) = c"
  by (rule digit_val_inj) (auto intro: is_digit_digit_char digit_val_digit_char
      simp: less_Suc_eq_le [symmetric] dest: digit_val_le)

lemma not_digit_special [simp]:
  "\<not> is_digit (CHR ''-'')" "\<not> is_digit (CHR ''+'')" "\<not> is_digit (CHR ''.'')" "\<not> is_digit (CHR '' '')"
  by (simp_all add: is_digit_def)

lemma digit_char_neq [simp]:
  "n < 10 \<Longrightarrow> digit_char n \<noteq> CHR ''-''" "n < 10 \<Longrightarrow> digit_char n \<noteq> CHR ''+''"
  "n < 10 \<Longrightarrow> digit_char n \<noteq> CHR ''.''"
  by (metis is_digit_digit_char not_digit_special(1))
    (metis is_digit_digit_char not_digit_special(2), metis is_digit_digit_char not_digit_special(3))

section \<open>strings\<close>

text \<open>\<open>strings.ReplaceAll(s, string(c), "")\<close>.\<close>

definition remove_all :: "char \<Rightarrow> string \<Rightarrow> string" where
  "remove_all c s = filter (\<lambda>x. x \<noteq> c) s"

text \<open>\<open>strings.Split(s, string(sep))\<close>: always at least one part.\<close>

fun split_char :: "char \<Rightarrow> string \<Rightarrow> string list" where
  "split_char sep [] = [[]]"
| "split_char sep (c # cs) =
     (if c = sep then [] # split_char sep cs
      else (case split_char sep cs of [] \<Rightarrow> [[c]] | p # ps \<Rightarrow> (c # p) # ps))"

lemma split_char_nonempty [simp]: "split_char sep s \<noteq> []"
  by (induction s) (auto split: list.splits)

lemma split_char_none: "sep \<notin> set s \<Longrightarrow> split_char sep s = [s]"
  by (induction s) auto

lemma split_char_once:
  "sep \<notin> set a \<Longrightarrow> split_char sep (a @ sep # b) = a # split_char sep b"
  by (induction a) auto

lemma length_split_char: "length (split_char sep s) = Suc (count_list s sep)"
proof (induction s)
  case (Cons c cs)
  then show ?case by (cases "split_char sep cs") auto
qed simp

section \<open>strconv.Atoi and strconv.Itoa\<close>

datatype num_error = ErrSyntax | ErrRange

text \<open>
  \<open>ParseUint\<close>, base 10: bytes are read from the left, so an overflow is reported before a bad
  byte further right.
\<close>

fun parse_uint :: "nat \<Rightarrow> string \<Rightarrow> num_error + nat" where
  "parse_uint n [] = Inr n"
| "parse_uint n (c # cs) =
     (if \<not> is_digit c then Inl ErrSyntax
      else let n1 = n * 10 + digit_val c
           in if n1 > 18446744073709551615 then Inl ErrRange else parse_uint n1 cs)"

definition atoi_signed :: "bool \<Rightarrow> string \<Rightarrow> num_error + go_int" where
  "atoi_signed neg s =
     (if s = [] then Inl ErrSyntax
      else case parse_uint 0 s of
        Inl e \<Rightarrow> Inl e
      | Inr un \<Rightarrow>
          if \<not> neg \<and> un \<ge> 9223372036854775808 then Inl ErrRange
          else if neg \<and> un > 9223372036854775808 then Inl ErrRange
          else Inr (if neg then - of_nat un else of_nat un))"

fun atoi :: "string \<Rightarrow> num_error + go_int" where
  "atoi [] = Inl ErrSyntax"
| "atoi (c # cs) =
     (if c = CHR ''+'' then atoi_signed False cs
      else if c = CHR ''-'' then atoi_signed True cs
      else atoi_signed False (c # cs))"

fun nat_digits :: "nat \<Rightarrow> string" where
  "nat_digits n = (if n < 10 then [digit_char n]
     else nat_digits (n div 10) @ [digit_char (n mod 10)])"

declare nat_digits.simps [simp del]

definition itoa :: "go_int \<Rightarrow> string" where
  "itoa w = (if sint w < 0 then CHR ''-'' # nat_digits (nat (- sint w))
     else nat_digits (nat (sint w)))"

section \<open>Decimal numerals\<close>

text \<open>The number a digit string denotes, continued from \<open>n\<close>.\<close>

definition dec_val :: "nat \<Rightarrow> string \<Rightarrow> nat" where
  "dec_val n s = foldl (\<lambda>m c. m * 10 + digit_val c) n s"

lemma dec_val_simps [simp]:
  "dec_val n [] = n"
  "dec_val n (c # s) = dec_val (n * 10 + digit_val c) s"
  "dec_val n (s @ t) = dec_val (dec_val n s) t"
  by (simp_all add: dec_val_def)

lemma dec_val_ge: "n \<le> dec_val n s"
proof (induction s arbitrary: n)
  case (Cons c s)
  have "n \<le> n * 10 + digit_val c" by simp
  also have "\<dots> \<le> dec_val (n * 10 + digit_val c) s" by (rule Cons.IH)
  finally show ?case by simp
qed simp

lemma dec_val_shift: "dec_val n s = n * 10 ^ length s + dec_val 0 s"
proof (induction s arbitrary: n)
  case (Cons c s)
  show ?case
    using Cons [of "n * 10 + digit_val c"] Cons [of "digit_val c"]
    by (simp add: algebra_simps)
qed simp

lemma dec_val_less:
  "list_all is_digit s \<Longrightarrow> dec_val 0 s < 10 ^ length s"
proof (induction s rule: rev_induct)
  case (snoc c s)
  then have "dec_val 0 s + 1 \<le> 10 ^ length s" "digit_val c \<le> 9" by auto
  then have "dec_val 0 s * 10 + digit_val c < 10 ^ length s * 10" by linarith
  then show ?case by simp
qed simp

lemma parse_uint_digits:
  "list_all is_digit s \<Longrightarrow> dec_val n s \<le> 18446744073709551615 \<Longrightarrow>
   parse_uint n s = Inr (dec_val n s)"
proof (induction n s rule: parse_uint.induct)
  case (2 n c cs)
  have "n * 10 + digit_val c \<le> dec_val n (c # cs)"
    using dec_val_ge [of "n * 10 + digit_val c" cs] by simp
  with 2 show ?case by (auto simp: Let_def)
qed simp

lemma parse_uint_InrD:
  "parse_uint n s = Inr m \<Longrightarrow> list_all is_digit s \<and> m = dec_val n s"
  by (induction n s rule: parse_uint.induct) (auto simp: Let_def split: if_splits)

lemma nat_digits_digits [simp]: "list_all is_digit (nat_digits n)"
proof (induction n rule: nat_digits.induct)
  case (1 n)
  then show ?case by (subst nat_digits.simps) auto
qed

lemma dec_val_nat_digits [simp]: "dec_val 0 (nat_digits n) = n"
proof (induction n rule: nat_digits.induct)
  case (1 n)
  then show ?case by (subst nat_digits.simps) auto
qed

lemma nat_digits_nonempty [simp]: "nat_digits n \<noteq> []"
  by (subst nat_digits.simps) simp

lemma nat_digits_hd_digit: "nat_digits n = c # s \<Longrightarrow> is_digit c"
  using nat_digits_digits [of n] by simp

lemma atoi_signed_nat_digits:
  "n < 9223372036854775808 \<or> neg \<and> n = 9223372036854775808 \<Longrightarrow>
   atoi_signed neg (nat_digits n) = Inr (if neg then - of_nat n else of_nat n)"
  by (auto simp: atoi_signed_def parse_uint_digits)

lemma atoi_digits:
  "list_all is_digit s \<Longrightarrow> s \<noteq> [] \<Longrightarrow> dec_val 0 s < 9223372036854775808 \<Longrightarrow>
   atoi s = Inr (of_nat (dec_val 0 s))"
proof -
  assume h: "list_all is_digit s" "s \<noteq> []" "dec_val 0 s < 9223372036854775808"
  then have "atoi_signed False s = Inr (of_nat (dec_val 0 s))"
    by (simp add: atoi_signed_def parse_uint_digits)
  moreover have "atoi s = atoi_signed False s"
    using h(1,2) by (cases s) auto
  ultimately show ?thesis by simp
qed

text \<open>\<open>Itoa\<close> and \<open>Atoi\<close> are inverse on every 64-bit value.\<close>

lemma atoi_itoa: "atoi (itoa w) = Inr w"
proof (cases "sint w < 0")
  case True
  let ?n = "nat (- sint w)"
  have "in_int64 (sint w)" by simp
  with True have "?n \<le> 9223372036854775808" by (auto simp: in_int64_def)
  then have "atoi_signed True (nat_digits ?n) = Inr (- of_nat ?n)"
    by (subst atoi_signed_nat_digits) auto
  moreover have "(of_nat ?n :: go_int) = - w"
    using True by (simp flip: wi_hom_neg add: of_nat_nat)
  ultimately show ?thesis using True by (simp add: itoa_def)
next
  case False
  let ?n = "nat (sint w)"
  have "in_int64 (sint w)" by simp
  with False have "?n < 9223372036854775808" by (auto simp: in_int64_def)
  then have "atoi (nat_digits ?n) = Inr (of_nat ?n)"
    by (subst atoi_digits) auto
  moreover have "(of_nat ?n :: go_int) = w"
    using False by (simp add: of_nat_nat)
  ultimately show ?thesis using False by (simp add: itoa_def)
qed

end
