(* ===== verification/Json.thy ===== *)
theory Json
  imports GoStd
begin

text \<open>
  JSON values as Go's \<open>encoding/json\<close> sees them after scanning (a number keeps its literal, an
  object its members in order), the check of a number literal that \<open>json.Number\<close> makes, and the
  member lookup of \<open>Unmarshal\<close>: an exact key or one that differs in letter case only, the last
  match winning.
\<close>

datatype json = JNull | JBool bool | JNum string | JStr string | JArr "json list"
  | JObj "(string \<times> json) list"

section \<open>Number literals\<close>

definition num_sign :: "string \<Rightarrow> string" where
  "num_sign s = (case s of [] \<Rightarrow> [] | c # t \<Rightarrow> if c = CHR ''-'' then t else s)"

definition num_int :: "string \<Rightarrow> string option" where
  "num_int s = (case s of [] \<Rightarrow> None
     | c # t \<Rightarrow> if c = CHR ''0'' then Some t
               else if is_digit c then Some (dropWhile is_digit t) else None)"

definition num_frac :: "string \<Rightarrow> string" where
  "num_frac s = (case s of c # d # t \<Rightarrow>
       if c = CHR ''.'' \<and> is_digit d then dropWhile is_digit t else s
     | _ \<Rightarrow> s)"

definition num_exp :: "string \<Rightarrow> string option" where
  "num_exp s = (case s of c # d # t \<Rightarrow>
       if c = CHR ''e'' \<or> c = CHR ''E''
       then if d = CHR ''+'' \<or> d = CHR ''-''
            then if t = [] then None else Some (dropWhile is_digit t)
            else Some (dropWhile is_digit (d # t))
       else Some s
     | _ \<Rightarrow> Some s)"

text \<open>\<open>isValidNumber\<close> of \<open>encoding/json\<close>, which is also the grammar of a number in a document.\<close>

definition is_json_number :: "string \<Rightarrow> bool" where
  "is_json_number s =
     (case num_int (num_sign s) of None \<Rightarrow> False
      | Some r \<Rightarrow> (case num_exp (num_frac r) of None \<Rightarrow> False | Some r' \<Rightarrow> r' = []))"

lemma is_digit_zero [simp]: "is_digit (CHR ''0'')"
  by (simp add: is_digit_def)

lemma last_digit_dropWhile:
  "dropWhile is_digit t = [] \<Longrightarrow> is_digit d \<Longrightarrow> is_digit (last (d # t))"
  by (simp add: dropWhile_eq_Nil_conv)

lemma num_exp_Nil: "num_exp s = Some [] \<Longrightarrow> s \<noteq> [] \<Longrightarrow> is_digit (last s)"
  by (auto simp: num_exp_def dropWhile_eq_Nil_conv split: list.splits if_splits)

lemma num_frac_suffix: "num_frac s \<noteq> [] \<Longrightarrow> last (num_frac s) = last s"
  by (auto simp: num_frac_def intro!: last_dropWhile split: list.splits if_splits)

lemma num_frac_Nil: "num_frac s = [] \<Longrightarrow> s \<noteq> [] \<Longrightarrow> is_digit (last s)"
  by (auto simp: num_frac_def dropWhile_eq_Nil_conv split: list.splits if_splits)

lemma num_int_last:
  "num_int s = Some r \<Longrightarrow> (if r = [] then is_digit (last s) else last s = last r)"
  by (auto simp: num_int_def dropWhile_eq_Nil_conv intro!: last_dropWhile last_dropWhile [symmetric]
      split: list.splits if_splits)

lemma num_sign_last: "num_sign s \<noteq> [] \<Longrightarrow> last (num_sign s) = last s"
  by (auto simp: num_sign_def split: list.splits if_splits)

text \<open>A number literal ends in a digit; in particular never in a decimal point.\<close>

lemma json_number_last: "is_json_number s \<Longrightarrow> s \<noteq> [] \<and> is_digit (last s)"
proof -
  assume n: "is_json_number s"
  then obtain r where r: "num_int (num_sign s) = Some r" "num_exp (num_frac r) = Some []"
    by (auto simp: is_json_number_def split: option.splits)
  then have ne: "num_sign s \<noteq> []" by (auto simp: num_int_def)
  have "is_digit (last (num_sign s))"
  proof (cases "r = []")
    case True
    with num_int_last [OF r(1)] show ?thesis by simp
  next
    case False
    moreover have "is_digit (last r)"
    proof (cases "num_frac r = []")
      case True
      with False show ?thesis by (simp add: num_frac_Nil)
    next
      case False
      with num_exp_Nil [OF r(2)] show ?thesis by (simp add: num_frac_suffix)
    qed
    ultimately show ?thesis using num_int_last [OF r(1)] by simp
  qed
  moreover have "s \<noteq> []" using ne by (auto simp: num_sign_def)
  ultimately show ?thesis using num_sign_last [OF ne] by simp
qed

section \<open>Object members\<close>

definition to_lower :: "char \<Rightarrow> char" where
  "to_lower c = (let n = (of_char c :: nat) in if 65 \<le> n \<and> n \<le> 90 then char_of (n + 32) else c)"

text \<open>
  The members \<open>Unmarshal\<close> stores in the field tagged \<open>key\<close>, one after the other. Keys are folded by
  ASCII case; Go also lets the long s (U+017F) stand for an s and the Kelvin sign for a k, which is
  left out.
\<close>

definition member_of :: "string \<Rightarrow> (string \<times> json) list \<Rightarrow> json list" where
  "member_of key ms = map snd (filter (\<lambda>(k, v). map to_lower k = map to_lower key) ms)"

section \<open>Struct fields\<close>

text \<open>
  What the members with its key make of a field that held \<open>cur\<close>: null leaves it, a value of
  another kind is an error of the whole document (\<open>None\<close>).
\<close>

fun decode_string :: "string \<Rightarrow> json list \<Rightarrow> string option" where
  "decode_string cur [] = Some cur"
| "decode_string cur (JStr s # vs) = decode_string s vs"
| "decode_string cur (JNull # vs) = decode_string cur vs"
| "decode_string cur (_ # vs) = None"

text \<open>A \<open>json.Number\<close> also takes a string that spells a number.\<close>

fun decode_number :: "string \<Rightarrow> json list \<Rightarrow> string option" where
  "decode_number cur [] = Some cur"
| "decode_number cur (JNum n # vs) = (if is_json_number n then decode_number n vs else None)"
| "decode_number cur (JStr s # vs) = (if is_json_number s then decode_number s vs else None)"
| "decode_number cur (JNull # vs) = decode_number cur vs"
| "decode_number cur (_ # vs) = None"

lemma decode_number_valid:
  "decode_number cur vs = Some n \<Longrightarrow> cur = [] \<or> is_json_number cur \<Longrightarrow> n = [] \<or> is_json_number n"
  by (induction cur vs rule: decode_number.induct) (auto split: if_splits)

text \<open>The members of a document that fills a struct: an object, or null, which has none.\<close>

fun struct_members :: "json \<Rightarrow> (string \<times> json) list option" where
  "struct_members (JObj ms) = Some ms"
| "struct_members JNull = Some []"
| "struct_members _ = None"

end
