(* ===== verification/Money.thy ===== *)
theory Money
  imports Json
begin

text \<open>
  Amounts of money: the type \<open>Accrual\<close> of \<open>internal/models\<close>, a 64-bit count of kopecks, its
  rendering as roubles with two decimals (\<open>Accrual.MarshalJSON\<close>) and the parser that turns the accrual
  service's decimal text back into kopecks (\<open>Order.converStringAccrualToInt\<close>).
\<close>

section \<open>The code\<close>

type_synonym Accrual = go_int

definition MarshalJSON :: "Accrual \<Rightarrow> string" where
  "MarshalJSON a =
     (if a = 0 then ''0''
      else
        let val = a;
            sign = (if val <s 0 then ''-'' else '''');
            val = (if val <s 0 then - val else val);
            s = itoa val;
            s = (if length s < 3 then replicate (3 - length s) (CHR ''0'') @ s else s);
            intPart = take (length s - 2) s;
            fracPart = drop (length s - 2) s
        in sign @ intPart @ ''.'' @ fracPart)"

text \<open>The errors of \<open>converStringAccrualToInt\<close>: the two wrapped ones keep the cause.\<close>

datatype accrual_error = InvalidNumberFormat string | BadIntegerPart num_error
  | BadFractionalPart num_error

text \<open>
  The fractional part padded or cut to two bytes. \<open>fracStr[:2]\<close> on the empty string panics.
\<close>

definition pad_fraction :: "string \<Rightarrow> string outcome" where
  "pad_fraction fracStr =
     (if length fracStr = 1 then Returns (fracStr @ ''0'')
      else if length fracStr = 2 then Returns fracStr
      else if length fracStr < 2 then Panics SliceBounds
      else Returns (take 2 fracStr))"

definition converStringAccrualToInt :: "string \<Rightarrow> (accrual_error + go_int) outcome" where
  "converStringAccrualToInt accrualStr =
     (let parts = split_char (CHR ''.'') accrualStr
      in if length parts > 2 then Returns (Inl (InvalidNumberFormat accrualStr))
      else case atoi (parts ! 0) of
        Inl err \<Rightarrow> Returns (Inl (BadIntegerPart err))
      | Inr intPart \<Rightarrow>
          let result = intPart * 100
          in if length parts = 2
             then bind_outcome (pad_fraction (parts ! 1)) (\<lambda>fracStr.
                case atoi fracStr of
                  Inl err \<Rightarrow> Returns (Inl (BadFractionalPart err))
                | Inr fracPart \<Rightarrow>
                    Returns (Inr (if intPart <s 0 then result - fracPart else result + fracPart)))
             else Returns (Inr result))"

section \<open>Decimal texts\<close>

lemma digits_no_dot: "list_all is_digit s \<Longrightarrow> CHR ''.'' \<notin> set s"
  by (induction s) (auto simp: is_digit_def)

lemma split_decimal:
  "CHR ''.'' \<notin> set i \<Longrightarrow> CHR ''.'' \<notin> set f \<Longrightarrow> split_char (CHR ''.'') (i @ ''.'' @ f) = [i, f]"
  by (simp add: split_char_once split_char_none)

lemma conver_split:
  assumes "CHR ''.'' \<notin> set i" "CHR ''.'' \<notin> set f" "atoi i = Inr v"
  shows "converStringAccrualToInt (i @ ''.'' @ f) =
    bind_outcome (pad_fraction f) (\<lambda>fracStr.
      case atoi fracStr of
        Inl err \<Rightarrow> Returns (Inl (BadFractionalPart err))
      | Inr w \<Rightarrow> Returns (Inr (if v <s 0 then v * 100 - w else v * 100 + w)))"
  using assms(3) by (simp add: converStringAccrualToInt_def split_decimal [OF assms(1,2), simplified] Let_def)

lemma conver_integer:
  "CHR ''.'' \<notin> set i \<Longrightarrow> converStringAccrualToInt i =
   (case atoi i of Inl err \<Rightarrow> Returns (Inl (BadIntegerPart err)) | Inr v \<Rightarrow> Returns (Inr (v * 100)))"
  by (simp add: converStringAccrualToInt_def split_char_none split: sum.splits)

lemma sint_of_nat_small:
  "n < 9223372036854775808 \<Longrightarrow> sint (of_nat n :: go_int) = int n"
  using sint_of_int64 [of "int n"] by (simp add: in_int64_def)

lemma two_digit_value:
  "list_all is_digit f \<Longrightarrow> length f = 2 \<Longrightarrow> dec_val 0 f < 100"
  using dec_val_less [of f] by simp

section \<open>Rendering\<close>

definition two_digits :: "nat \<Rightarrow> string" where
  "two_digits n = [digit_char (n div 10 mod 10), digit_char (n mod 10)]"

lemma two_digits_simps [simp]:
  "length (two_digits n) = 2" "list_all is_digit (two_digits n)" "dec_val 0 (two_digits n) = n mod 100"
proof -
  show "dec_val 0 (two_digits n) = n mod 100"
    using mod_mult2_eq [of n 10 10] by (simp add: two_digits_def)
qed (simp_all add: two_digits_def)

lemma nat_digits_small: "n < 10 \<Longrightarrow> nat_digits n = [digit_char n]"
  by (subst nat_digits.simps) simp

lemma nat_digits_large: "10 \<le> n \<Longrightarrow> nat_digits n = nat_digits (n div 10) @ [digit_char (n mod 10)]"
  by (subst nat_digits.simps) simp

lemma digit_char_0: "digit_char 0 = CHR ''0''"
  by code_simp

lemma replicate_2: "replicate 2 x = [x, x]"
  by (simp add: numeral_2_eq_2)

lemma nat_digits_100:
  assumes "100 \<le> n"
  shows "nat_digits n = nat_digits (n div 100) @ two_digits n"
proof -
  have "10 \<le> n div 10" using assms by auto
  moreover have "n div 10 div 10 = n div 100" by (simp flip: div_mult2_eq)
  ultimately show ?thesis
    using assms by (simp add: nat_digits_large [of n] nat_digits_large [of "n div 10"] two_digits_def)
qed

text \<open>Zero-padding to three digits puts the last two after the point and the rest before it.\<close>

lemma padded_digits:
  assumes "s = nat_digits n"
    and "t = (if length s < 3 then replicate (3 - length s) (CHR ''0'') @ s else s)"
  shows "t = nat_digits (n div 100) @ two_digits n"
proof -
  consider (one) "n < 10" | (two) "10 \<le> n" "n < 100" | (more) "100 \<le> n" by linarith
  then show ?thesis
  proof cases
    case one
    then show ?thesis
      using assms by (simp add: nat_digits_small two_digits_def digit_char_0 replicate_2)
  next
    case two
    then have "n div 10 < 10" "n div 100 = 0" by auto
    with two assms show ?thesis
      by (simp add: nat_digits_large nat_digits_small two_digits_def digit_char_0)
  next
    case more
    then have s: "s = nat_digits (n div 100) @ two_digits n"
      using assms(1) by (simp add: nat_digits_100)
    have "nat_digits (n div 100) \<noteq> []" by simp
    then have "\<not> length s < 3" by (cases "nat_digits (n div 100)") (auto simp: s)
    with s assms(2) show ?thesis by simp
  qed
qed

lemma MarshalJSON_eq:
  assumes "a \<noteq> 0" "sint a \<noteq> int64_min" "n = nat \<bar>sint a\<bar>"
  shows "MarshalJSON a = (if sint a < 0 then ''-'' else '''') @ nat_digits (n div 100) @ ''.'' @ two_digits n"
proof -
  let ?val = "if a <s 0 then - a else a"
  have v: "sint ?val = \<bar>sint a\<bar>"
    using assms(2) by (simp add: sless_zero_iff sint_minus_int64)
  then have s: "itoa ?val = nat_digits n"
    using assms(3) by (simp add: itoa_def)
  show ?thesis
    using assms(1) padded_digits [OF refl refl, of n]
    unfolding MarshalJSON_def Let_def s by (simp add: sless_zero_iff)
qed

lemma nat_digits_hd: "0 < n \<Longrightarrow> hd (nat_digits n) \<noteq> CHR ''0''"
proof (induction n rule: nat_digits.induct)
  case (1 n)
  show ?case
  proof (cases "n < 10")
    case True
    then have "digit_char n \<noteq> digit_char 0"
      using 1(2) by (metis digit_val_digit_char less_numeral_extra(3) zero_less_numeral)
    with True show ?thesis by (simp add: nat_digits_small digit_char_0)
  next
    case False
    with 1 show ?thesis by (simp add: nat_digits_large)
  qed
qed

lemma num_int_nat_digits:
  "num_int (nat_digits n @ CHR ''.'' # s) = Some (CHR ''.'' # s)"
proof (cases "n = 0")
  case True
  then show ?thesis by (simp add: nat_digits_small digit_char_0 num_int_def)
next
  case False
  obtain c t where ct: "nat_digits n = c # t" by (cases "nat_digits n") auto
  with False nat_digits_hd [of n] have "c \<noteq> CHR ''0''" by simp
  moreover have "list_all is_digit (c # t)" using nat_digits_digits [of n] ct by simp
  ultimately show ?thesis
    by (simp add: ct num_int_def dropWhile_append2 list.pred_set)
qed

lemma num_sign_nat_digits: "num_sign (nat_digits n @ s) = nat_digits n @ s"
  by (cases "nat_digits n") (auto simp: num_sign_def dest: nat_digits_hd_digit)

lemma num_frac_two_digits: "num_frac (CHR ''.'' # two_digits n) = []"
  by (simp add: num_frac_def two_digits_def)

lemma is_json_number_MarshalJSON_pos:
  "is_json_number (nat_digits q @ CHR ''.'' # two_digits n)"
  "is_json_number (CHR ''-'' # nat_digits q @ CHR ''.'' # two_digits n)"
proof -
  have m: "num_sign (CHR ''-'' # s) = s" for s by (simp add: num_sign_def)
  have e: "num_exp [] = Some []" by (simp add: num_exp_def)
  show "is_json_number (nat_digits q @ CHR ''.'' # two_digits n)"
    "is_json_number (CHR ''-'' # nat_digits q @ CHR ''.'' # two_digits n)"
    by (simp_all add: is_json_number_def num_sign_nat_digits num_int_nat_digits
        num_frac_two_digits m e)
qed

section \<open>Truncation\<close>

lemma dec_val_take2:
  assumes "list_all is_digit f" "f \<noteq> []"
  shows "dec_val 0 (take 2 (f @ ''0'')) = 100 * dec_val 0 f div 10 ^ length f"
proof (cases "length f = 1")
  case True
  then obtain c where "f = [c]" by (cases f) auto
  then show ?thesis by (simp add: digit_val_def)
next
  case False
  let ?g = "take 2 f" and ?h = "drop 2 f"
  from False assms(2) have len: "2 \<le> length f" by (cases f) (auto simp: Suc_le_eq)
  have "list_all is_digit ?h"
    using assms(1) by (auto simp: list_all_iff dest: in_set_dropD)
  then have h: "dec_val 0 ?h < 10 ^ length ?h" by (rule dec_val_less)
  have "dec_val 0 f = dec_val 0 ?g * 10 ^ length ?h + dec_val 0 ?h"
    using dec_val_shift [of "dec_val 0 ?g" ?h] by (metis append_take_drop_id dec_val_simps(3))
  moreover have "(10::nat) ^ length f = 100 * 10 ^ length ?h"
  proof -
    have "length f = 2 + length ?h" using len by simp
    then have "(10::nat) ^ length f = 10 ^ 2 * 10 ^ length ?h" by (simp only: power_add)
    then show ?thesis by simp
  qed
  ultimately have "100 * dec_val 0 f div 10 ^ length f
      = (dec_val 0 ?g * 10 ^ length ?h + dec_val 0 ?h) div 10 ^ length ?h"
    by (simp only: div_mult_mult1)
  also have "\<dots> = dec_val 0 ?g" using h by simp
  finally have "100 * dec_val 0 f div 10 ^ length f = dec_val 0 ?g" .
  moreover have "take 2 (f @ ''0'') = ?g" using len by simp
  ultimately show ?thesis by (simp only:)
qed

lemma pad_fraction_returns:
  "f \<noteq> [] \<Longrightarrow> pad_fraction f = Returns (take 2 (f @ ''0''))"
  by (cases f; cases "tl f"; cases "tl (tl f)") (auto simp: pad_fraction_def)

lemma take2_props:
  assumes "list_all is_digit f" "f \<noteq> []"
  shows "list_all is_digit (take 2 (f @ ''0''))" "take 2 (f @ ''0'') \<noteq> []"
    "dec_val 0 (take 2 (f @ ''0'')) < 100"
proof -
  show d: "list_all is_digit (take 2 (f @ ''0''))"
    using assms(1) by (auto simp: list_all_iff dest!: in_set_takeD)
  show "take 2 (f @ ''0'') \<noteq> []" by simp
  have "length (take 2 (f @ ''0'')) = 2" using assms(2) by (cases f) auto
  with d show "dec_val 0 (take 2 (f @ ''0'')) < 100" by (rule two_digit_value)
qed

section \<open>Reading back what was rendered\<close>

lemma conver_rendered:
  assumes "q \<le> 92233720368547758"
  shows "converStringAccrualToInt (nat_digits q @ ''.'' @ two_digits n)
      = Returns (Inr (of_nat q * 100 + of_nat (n mod 100)))"
    and "converStringAccrualToInt ((CHR ''-'' # nat_digits q) @ ''.'' @ two_digits n)
      = Returns (Inr (if 0 < q then - of_nat q * 100 - of_nat (n mod 100) else of_nat (n mod 100)))"
proof -
  have "two_digits n \<noteq> []" by (simp add: two_digits_def)
  moreover have "n mod 100 < 9223372036854775808" by (rule less_trans [of _ 100]) simp_all
  ultimately have frac: "atoi (two_digits n) = Inr (of_nat (n mod 100))"
    by (subst atoi_digits) simp_all
  have pad: "pad_fraction (two_digits n) = Returns (two_digits n)" by (simp add: pad_fraction_def)
  have nodot: "CHR ''.'' \<notin> set (nat_digits q)" "CHR ''.'' \<notin> set (CHR ''-'' # nat_digits q)"
    "CHR ''.'' \<notin> set (two_digits n)"
    using digits_no_dot [OF nat_digits_digits] digits_no_dot [OF two_digits_simps(2)] by simp_all
  have "atoi (nat_digits q) = Inr (of_nat q)"
    using assms by (subst atoi_digits) auto
  moreover have "sint (of_nat q :: go_int) = int q"
    using assms by (intro sint_of_nat_small) simp
  ultimately show "converStringAccrualToInt (nat_digits q @ ''.'' @ two_digits n)
      = Returns (Inr (of_nat q * 100 + of_nat (n mod 100)))"
    by (simp only: conver_split [OF nodot(1,3)] pad frac bind_outcome.simps sum.case sless_zero_iff)
      simp
  have "atoi (CHR ''-'' # nat_digits q) = Inr (- of_nat q)"
    using assms by (simp add: atoi_signed_nat_digits)
  moreover have "sint (- of_nat q :: go_int) = - int q"
    using sint_of_int64 [of "- int q"] assms by (simp add: in_int64_def)
  ultimately show "converStringAccrualToInt ((CHR ''-'' # nat_digits q) @ ''.'' @ two_digits n)
      = Returns (Inr (if 0 < q then - of_nat q * 100 - of_nat (n mod 100) else of_nat (n mod 100)))"
    by (simp only: conver_split [OF nodot(2,3)] pad frac bind_outcome.simps sum.case sless_zero_iff)
      simp
qed

lemma abs_value:
  assumes "sint (a :: Accrual) \<noteq> int64_min" "n = nat \<bar>sint a\<bar>"
  shows "n div 100 \<le> 92233720368547758" "a = (if sint a < 0 then - of_nat n else of_nat n)"
    "(of_nat (n div 100) :: Accrual) * 100 + of_nat (n mod 100) = of_nat n"
proof -
  have "in_int64 (sint a)" by simp
  with assms show "n div 100 \<le> 92233720368547758" by (auto simp: in_int64_def)
  show "a = (if sint a < 0 then - of_nat n else of_nat n)"
    using assms(2) by (simp add: of_nat_nat)
  have "of_nat (n div 100 * 100 + n mod 100) = (of_nat n :: Accrual)"
    by (simp only: div_mult_mod_eq)
  then show "(of_nat (n div 100) :: Accrual) * 100 + of_nat (n mod 100) = of_nat n"
    by (simp only: of_nat_add of_nat_mult of_nat_numeral)
qed

section \<open>Properties\<close>

lemma conver_MarshalJSON:
  assumes "sint a \<noteq> int64_min"
  shows "converStringAccrualToInt (MarshalJSON a)
    = Returns (Inr (if -100 < sint a \<and> sint a < 0 then - a else a))"
proof (cases "a = 0")
  case True
  have "MarshalJSON 0 = ''0''" by (simp add: MarshalJSON_def)
  moreover have "converStringAccrualToInt ''0'' = Returns (Inr 0)"
    by (simp add: converStringAccrualToInt_def atoi_signed_def digit_val_def)
  ultimately show ?thesis unfolding True by (simp only:) simp
next
  case False
  define n where "n = nat \<bar>sint a\<bar>"
  note v = abs_value [OF assms n_def]
  note r = MarshalJSON_eq [OF False assms n_def]
  show ?thesis
  proof (cases "sint a < 0")
    case True
    have "- of_nat (n div 100) * 100 - of_nat (n mod 100) = a"
      using v(2,3) True by (simp add: algebra_simps)
    moreover have "0 < n div 100 \<longleftrightarrow> \<not> (-100 < sint a \<and> sint a < 0)"
      using True by (auto simp: n_def div_greater_zero_iff)
    moreover have "n div 100 = 0 \<Longrightarrow> (of_nat (n mod 100) :: go_int) = - a"
      using v(2,3) True by simp
    ultimately show ?thesis
      using r True conver_rendered(2) [OF v(1), of n] by auto
  next
    case False
    then show ?thesis using r v(2,3) conver_rendered(1) [OF v(1), of n] by simp
  qed
qed

text \<open>C27. An amount rendered by \<open>MarshalJSON\<close> and read back by the accrual parser is the same amount,
for every 64-bit amount but the least one, except that an amount between -0.99 and -0.01
comes back with its sign lost.\<close>
theorem accrual_text_roundtrip:
  assumes "sint a \<noteq> int64_min"
  shows "converStringAccrualToInt (MarshalJSON a)
    = Returns (Inr (if -100 < sint a \<and> sint a < 0 then - a else a))"
  by (rule conver_MarshalJSON [OF assms])

theorem accrual_text_roundtrip_witness:
  "sint (17348 :: Accrual) \<noteq> int64_min \<and>
   converStringAccrualToInt (MarshalJSON 17348) = Returns (Inr 17348)"
proof -
  have h: "sint (17348 :: Accrual) \<noteq> int64_min" by simp
  show ?thesis using h accrual_text_roundtrip [OF h] by simp
qed

lemma MarshalJSON_number:
  assumes "sint a \<noteq> int64_min"
  shows "is_json_number (MarshalJSON a)"
proof (cases "a = 0")
  case True
  then show ?thesis
    by (simp add: MarshalJSON_def is_json_number_def num_sign_def num_int_def num_frac_def num_exp_def)
next
  case False
  then show ?thesis
    using MarshalJSON_eq [OF False assms refl] is_json_number_MarshalJSON_pos by simp
qed

text \<open>\<open>MarshalJSON\<close> produces a JSON number for every amount but the least 64-bit one, whose
magnitude does not fit and which is rendered with two minus signs.\<close>
lemma MarshalJSON_is_number:
  "is_json_number (MarshalJSON a) \<longleftrightarrow> sint a \<noteq> int64_min"
proof (cases "sint a = int64_min")
  case True
  have "a = word_of_int (sint a)" by simp
  with True have a: "a = word_of_int int64_min" by (simp only:)
  let ?n = "9223372036854775808 :: nat"
  have "itoa (- a) = CHR ''-'' # nat_digits ?n"
    using True by (simp add: a itoa_def)
  moreover have "nat_digits ?n = nat_digits (?n div 100) @ two_digits ?n"
    by (rule nat_digits_100) simp
  ultimately have "\<exists>t. MarshalJSON a = CHR ''-'' # CHR ''-'' # t"
    using True by (cases "nat_digits (?n div 100)")
      (auto simp: MarshalJSON_def Let_def sless_zero_iff)
  then have "\<not> is_json_number (MarshalJSON a)"
    by (auto simp: is_json_number_def num_sign_def num_int_def)
  with True show ?thesis by simp
next
  case False
  then show ?thesis using MarshalJSON_number by simp
qed

text \<open>On a plain decimal text with a fraction the parser returns the amount in kopecks, cut (not
rounded) to a whole number: the floor of a hundred times the number, as long as the rouble part
fits.\<close>
lemma conver_truncates:
  assumes "list_all is_digit i" "i \<noteq> []" "dec_val 0 i < 92233720368547758"
    and "list_all is_digit f" "f \<noteq> []"
  shows "\<exists>v. converStringAccrualToInt (i @ ''.'' @ f) = Returns (Inr v) \<and>
    sint v = int (100 * dec_val 0 (i @ f) div 10 ^ length f)"
proof -
  let ?i = "dec_val 0 i" and ?c = "dec_val 0 (take 2 (f @ ''0''))"
  have c: "?c < 100" using take2_props(3) [OF assms(4,5)] .
  have "atoi i = Inr (of_nat ?i)"
    using assms(1-3) by (intro atoi_digits) auto
  moreover have "sint (of_nat ?i :: go_int) = int ?i"
    using assms(3) by (intro sint_of_nat_small) simp
  moreover have "atoi (take 2 (f @ ''0'')) = Inr (of_nat ?c)"
    using take2_props [OF assms(4,5)] by (intro atoi_digits) auto
  ultimately have "converStringAccrualToInt (i @ ''.'' @ f) = Returns (Inr (of_nat ?i * 100 + of_nat ?c))"
    by (simp only: conver_split [OF digits_no_dot [OF assms(1)] digits_no_dot [OF assms(4)]]
        pad_fraction_returns [OF assms(5)] bind_outcome.simps sum.case sless_zero_iff) simp
  moreover have "sint (of_nat ?i * 100 + of_nat ?c :: go_int) = int (?i * 100 + ?c)"
    using sint_of_nat_small [of "?i * 100 + ?c"] c assms(3) by simp
  moreover have "?i * 100 + ?c = 100 * dec_val 0 (i @ f) div 10 ^ length f"
  proof -
    have "100 * dec_val 0 (i @ f) = ?i * 100 * 10 ^ length f + 100 * dec_val 0 f"
      using dec_val_shift [of ?i f] by (simp add: algebra_simps)
    then have "100 * dec_val 0 (i @ f) div 10 ^ length f = ?i * 100 + 100 * dec_val 0 f div 10 ^ length f"
      by (simp only:) (simp del: mult.assoc)
    then show ?thesis using dec_val_take2 [OF assms(4,5)] by (simp only:)
  qed
  ultimately show ?thesis by (intro exI conjI) (auto simp only:)
qed

theorem conver_truncates_witness:
  "\<exists>v. converStringAccrualToInt (''100'' @ ''.'' @ ''555'') = Returns (Inr v) \<and> sint v = 10055"
proof -
  have d: "list_all is_digit ''100''" "list_all is_digit ''555''" by (simp_all add: is_digit_def)
  have v: "dec_val 0 ''100'' < 92233720368547758" by (simp add: digit_val_def)
  show ?thesis
    using conver_truncates [OF d(1) _ v d(2)] by (simp add: digit_val_def)
qed

text \<open>The parser looks at nothing behind the second digit of the fraction, an exponent included:
"1.50e2", which is 150 roubles, is read as 1.50.\<close>
lemma conver_ignores_tail:
  assumes "CHR ''.'' \<notin> set (i @ [c, d] @ t)"
  shows "converStringAccrualToInt (i @ ''.'' @ [c, d] @ t) = converStringAccrualToInt (i @ ''.'' @ [c, d])"
proof -
  have "split_char (CHR ''.'') (i @ ''.'' @ [c, d]) = [i, [c, d]]"
    "split_char (CHR ''.'') (i @ ''.'' @ [c, d] @ t) = [i, [c, d] @ t]"
    using assms split_decimal [of i "[c, d]"] split_decimal [of i "[c, d] @ t"] by simp_all
  then show ?thesis
    by (cases t)
      (simp_all add: converStringAccrualToInt_def pad_fraction_def Let_def split: sum.splits)
qed

lemma conver_ignores_tail_witness:
  "is_json_number ''1.50e2'' \<and> converStringAccrualToInt ''1.50e2'' = Returns (Inr 150)"
proof -
  have t: "CHR ''.'' \<notin> set (''1'' @ [CHR ''5'', CHR ''0''] @ ''e2'')" by simp
  have "converStringAccrualToInt ''1.50'' = Returns (Inr 150)"
    by (simp add: converStringAccrualToInt_def atoi_signed_def pad_fraction_def digit_val_def
        is_digit_def sless_zero_iff)
  moreover have "is_json_number ''1.50e2''"
    by (simp add: is_json_number_def num_sign_def num_int_def num_frac_def num_exp_def is_digit_def)
  ultimately show ?thesis
    using conver_ignores_tail [OF t] by simp
qed

lemma length_split_char_2:
  "length (split_char sep s) = 2 \<Longrightarrow> \<exists>i f. s = i @ sep # f \<and> sep \<notin> set i \<and> sep \<notin> set f"
proof -
  assume "length (split_char sep s) = 2"
  then have one: "count_list s sep = 1" by (simp add: length_split_char)
  then have "sep \<in> set s" by (metis count_notin zero_neq_one)
  then obtain i f where s: "s = i @ sep # f" "sep \<notin> set i" by (meson split_list_first)
  with one have "sep \<notin> set f" by (simp add: count_list_0_iff)
  with s show ?thesis by blast
qed

lemma pad_fraction_panics: "pad_fraction f = Panics p \<longleftrightarrow> f = [] \<and> p = SliceBounds"
  by (cases f; cases "tl f"; cases "tl (tl f)") (auto simp: pad_fraction_def)

lemma conver_panicsD:
  assumes "converStringAccrualToInt s = Panics p"
  shows "p = SliceBounds \<and> (\<exists>i v. s = i @ ''.'' \<and> CHR ''.'' \<notin> set i \<and> atoi i = Inr v)"
proof -
  have "length (split_char (CHR ''.'') s) = 2"
    using assms by (auto simp: converStringAccrualToInt_def Let_def split: if_splits sum.splits)
  then obtain i f where s: "s = i @ CHR ''.'' # f" and dots: "CHR ''.'' \<notin> set i" "CHR ''.'' \<notin> set f"
    using length_split_char_2 by blast
  have "split_char (CHR ''.'') s = [i, f]" using split_decimal [OF dots] s by simp
  with assms obtain v where v: "atoi i = Inr v"
    by (auto simp: converStringAccrualToInt_def Let_def split: sum.splits)
  have "pad_fraction f = Panics p"
    using assms conver_split [OF dots v] s by (cases "pad_fraction f") (auto split: sum.splits)
  with s v dots(1) show ?thesis by (auto simp: pad_fraction_panics)
qed

text \<open>C33. The parser panics on exactly the texts that end in the only decimal point they have,
behind an integer \<open>Atoi\<close> accepts: slicing two bytes off the empty fraction is out of range.\<close>
theorem conver_panics_iff:
  "converStringAccrualToInt s = Panics p \<longleftrightarrow>
   p = SliceBounds \<and> (\<exists>i v. s = i @ ''.'' \<and> CHR ''.'' \<notin> set i \<and> atoi i = Inr v)"
proof
  assume "converStringAccrualToInt s = Panics p"
  then show "p = SliceBounds \<and> (\<exists>i v. s = i @ ''.'' \<and> CHR ''.'' \<notin> set i \<and> atoi i = Inr v)"
    by (rule conver_panicsD)
next
  assume "p = SliceBounds \<and> (\<exists>i v. s = i @ ''.'' \<and> CHR ''.'' \<notin> set i \<and> atoi i = Inr v)"
  then obtain i v where "p = SliceBounds" "s = i @ ''.'' @ []" "CHR ''.'' \<notin> set i" "atoi i = Inr v"
    by auto
  then show "converStringAccrualToInt s = Panics p"
    using conver_split [of i "[]" v] by (simp add: pad_fraction_def)
qed

lemma conver_dot_panics_example: "converStringAccrualToInt ''172.'' = Panics SliceBounds"
proof -
  have "atoi ''172'' = Inr 172"
    by (simp add: atoi_signed_def is_digit_def digit_val_def)
  then show ?thesis
    using conver_split [of "''172''" "[]" 172] by (simp add: pad_fraction_def)
qed

text \<open>\<open>intPart * 100\<close> wraps around: an amount that \<open>Atoi\<close> accepts can come out negative.\<close>

lemma conver_wraps:
  "converStringAccrualToInt ''92233720368547759'' = Returns (Inr (- 9223372036854775716)) \<and> sint (- 9223372036854775716 :: Accrual) < 0"
  by (simp add: converStringAccrualToInt_def atoi_signed_def is_digit_def digit_val_def)

lemma conver_number_returns:
  assumes "is_json_number s"
  shows "returns (converStringAccrualToInt s)"
proof (cases "converStringAccrualToInt s")
  case (Panics p)
  have "is_digit (last s)" using json_number_last [OF assms] by simp
  moreover obtain i where "s = i @ ''.''" using conver_panicsD [OF Panics] by blast
  ultimately show ?thesis by simp
qed simp

text \<open>The accrual service's answer is decoded as a \<open>json.Number\<close>, and no number literal of JSON
makes the parser panic.\<close>

lemma conver_json_number_returns:
  assumes "is_json_number s"
  shows "returns (converStringAccrualToInt s)"
  by (rule conver_number_returns [OF assms])

theorem conver_json_number_returns_witness:
  "is_json_number ''729.98'' \<and> returns (converStringAccrualToInt ''729.98'')"
proof -
  have n: "is_json_number ''729.98''"
    by (simp add: is_json_number_def num_sign_def num_int_def num_frac_def num_exp_def is_digit_def)
  show ?thesis using n conver_json_number_returns [OF n] by simp
qed

end
