(* ===== verification/Errors.thy ===== *)
theory Errors
  imports Money
begin

text \<open>
  The program's errors as values: the sentinels of \<open>internal/models\<close> and \<open>internal/clients\<close>, the
  errors of the libraries it calls, wrapping with \<open>%w\<close>, and the tree walks \<open>errors.Is\<close> and
  \<open>errors.As\<close> that the code makes over them.
\<close>

section \<open>Sentinels\<close>

datatype user_error = ErrUserNotFound | ErrWrongPassword | ErrUserExists
  | ErrUserWrongLoginLength | ErrUserWrongPasswordLength | ErrUserBalanceIsNotEnough

datatype order_error = ErrOrderNotFound | ErrOrderExists | ErrOrderBelongsToOtherUser
  | ErrOrderWrongFormat | ErrORderWrongStatus

text \<open>
  The SQLSTATE codes that \<open>pgerrors.go\<close> names by their \<open>pgerrcode\<close> constant, and any other one.
  Being cases of one Go \<open>switch\<close>, the constants are pairwise different.
\<close>

datatype pgerrcode =
    ConnectionException | ConnectionDoesNotExist | ConnectionFailure
  | TransactionRollback | SerializationFailure | DeadlockDetected
  | CannotConnectNow
  | DataException | NullValueNotAllowedDataException
  | IntegrityConstraintViolation | RestrictViolation | NotNullViolation | ForeignKeyViolation
  | UniqueViolation | CheckViolation
  | SyntaxErrorOrAccessRuleViolation | SyntaxError | UndefinedColumn | UndefinedTable
  | UndefinedFunction
  | OtherCode string

text \<open>\<open>context.Canceled\<close> and \<open>context.DeadlineExceeded\<close>.\<close>

datatype ctx_error = Canceled | DeadlineExceeded

text \<open>
  What a call of the database driver can fail with: an error of the server, a connection that
  broke, or the end of the request's context.
\<close>

datatype driver_error = PgError pgerrcode | ConnError string | CtxError ctx_error

text \<open>Errors of the operating system; \<open>os.IsNotExist\<close> recognises the first.\<close>

datatype os_error = NotExist | OtherOsError string

datatype go_error =
    UserErr user_error
  | OrderErr order_error
  | ErrWithdrawnNotFound
  | ErrorString string
  | AccrualErr accrual_error
  | DriverErr driver_error
  | ErrNoRows
  | ErrScan
  | ErrBcrypt
  | ErrToken
  | ErrJson
  | ErrBody
  | ErrServiceIsBusy
  | ErrAccrualOrderNotFound
  | OsErr os_error
  | ServiceIsBusyError go_int go_error
  | Wrapf string go_error

section \<open>errors.Is, errors.As\<close>

text \<open>
  \<open>errors.Is(err, target)\<close> for a sentinel \<open>target\<close>: equality along the chain of wrapped errors, and
  the method \<open>ServiceIsBusyError.Is\<close> on the way.
\<close>

fun ServiceIsBusyError_Is :: "go_error \<Rightarrow> bool" where
  "ServiceIsBusyError_Is target = (target = ErrServiceIsBusy)"

fun errors_Is :: "go_error \<Rightarrow> go_error \<Rightarrow> bool" where
  "errors_Is (Wrapf m e) target = (Wrapf m e = target \<or> errors_Is e target)"
| "errors_Is (ServiceIsBusyError d c) target =
     (ServiceIsBusyError d c = target \<or> ServiceIsBusyError_Is target \<or> errors_Is c target)"
| "errors_Is e target = (e = target)"

text \<open>\<open>errors.As(err, &pgErr)\<close> for a \<open>*pgconn.PgError\<close>.\<close>

fun errors_As_PgError :: "go_error \<Rightarrow> pgerrcode option" where
  "errors_As_PgError (DriverErr (PgError code)) = Some code"
| "errors_As_PgError (Wrapf m e) = errors_As_PgError e"
| "errors_As_PgError (ServiceIsBusyError d c) = errors_As_PgError c"
| "errors_As_PgError e = None"

text \<open>An error the code checks with a sentinel is that sentinel or wraps it.\<close>

lemma errors_Is_refl [simp]: "errors_Is e e"
  by (cases e) auto

lemma errors_As_DriverErr [simp]: "errors_As_PgError (DriverErr d) = Some c \<longleftrightarrow> d = PgError c"
  by (cases d) auto

lemma errors_Is_DriverErr [simp]: "errors_Is (DriverErr d) t \<longleftrightarrow> t = DriverErr d"
  by auto

end
