(* ===== verification/Models.thy ===== *)
theory Models
  imports Errors
begin

text \<open>
  The data of \<open>internal/models\<close> with its constructors, validations and setters. A pointer to a
  struct that a method changes is the struct passed in and returned.
\<close>

text \<open>An instant, in nanoseconds; 0 is Go's zero \<open>time.Time\<close>.\<close>

type_synonym time = int

section \<open>Users\<close>

definition MinPasswordLength :: nat where "MinPasswordLength = 8"
definition MinLoginLength :: nat where "MinLoginLength = 4"

record user =
  user_ID :: string
  user_Login :: string
  user_Password :: string
  user_Hash :: string
  user_Balance :: Accrual
  user_Version :: go_int
  user_CreatedAt :: time

definition zero_user :: user where
  "zero_user = \<lparr>user_ID = [], user_Login = [], user_Password = [], user_Hash = [],
     user_Balance = 0, user_Version = 0, user_CreatedAt = 0\<rparr>"

definition NewUser :: "string \<Rightarrow> string \<Rightarrow> string \<Rightarrow> go_int \<Rightarrow> user" where
  "NewUser login password hash version =
     zero_user\<lparr>user_Login := login, user_Password := password, user_Hash := hash,
       user_Version := version\<rparr>"

definition User_Validate :: "user \<Rightarrow> go_error option" where
  "User_Validate m =
     (if length (user_Login m) < MinLoginLength then Some (UserErr ErrUserWrongLoginLength)
      else if length (user_Password m) < MinPasswordLength
      then Some (UserErr ErrUserWrongPasswordLength)
      else None)"

section \<open>Orders\<close>

definition OrderNewStatus :: string where "OrderNewStatus = ''NEW''"
definition OrderRegisteredStatus :: string where "OrderRegisteredStatus = ''REGISTERED''"
definition OrderInProcessStatus :: string where "OrderInProcessStatus = ''PROCESSING''"
definition OrderInvalidStatus :: string where "OrderInvalidStatus = ''INVALID''"
definition OrderProcessedStatus :: string where "OrderProcessedStatus = ''PROCESSED''"

lemmas status_defs = OrderNewStatus_def OrderRegisteredStatus_def OrderInProcessStatus_def
  OrderInvalidStatus_def OrderProcessedStatus_def

definition validStatuses :: "string \<Rightarrow> bool" where
  "validStatuses s \<longleftrightarrow>
     s \<in> set [OrderNewStatus, OrderInProcessStatus, OrderInvalidStatus, OrderProcessedStatus]"

record order =
  ord_ID :: string
  ord_UserID :: string
  ord_Status :: string
  ord_Accrual :: Accrual
  ord_UploadedAt :: time
  ord_UpdatedAt :: time

definition zero_order :: order where
  "zero_order = \<lparr>ord_ID = [], ord_UserID = [], ord_Status = [], ord_Accrual = 0,
     ord_UploadedAt = 0, ord_UpdatedAt = 0\<rparr>"

definition NewOrder :: "string \<Rightarrow> string \<Rightarrow> string \<Rightarrow> go_error + order" where
  "NewOrder orderID userID status =
     Inr (zero_order\<lparr>ord_ID := orderID, ord_UserID := userID, ord_Status := status\<rparr>)"

definition Order_Validate :: "order \<Rightarrow> go_error option" where
  "Order_Validate m =
     (if ord_UserID m = [] then Some (ErrorString ''UserID can't be empty'')
      else if ord_ID m = [] then Some (ErrorString ''ID can't be equal to zero'')
      else if \<not> validStatuses (ord_Status m) then Some (OrderErr ErrORderWrongStatus)
      else if ord_Accrual m <s 0
      then Some (ErrorString ''accrual must be a positive or zero'')
      else None)"

definition SetStatus :: "string \<Rightarrow> order \<Rightarrow> go_error option \<times> order" where
  "SetStatus status m =
     (if \<not> validStatuses status then (Some (OrderErr ErrORderWrongStatus), m)
      else (None, m\<lparr>ord_Status := status\<rparr>))"

definition SetAccrual :: "string \<Rightarrow> order \<Rightarrow> (go_error option \<times> order) outcome" where
  "SetAccrual accrualStr m =
     bind_outcome (converStringAccrualToInt accrualStr) (\<lambda>r.
       case r of Inl err \<Rightarrow> Returns (Some (AccrualErr err), m)
       | Inr accrualInt \<Rightarrow> Returns (None, m\<lparr>ord_Accrual := accrualInt\<rparr>))"

section \<open>Withdrawals, balances, answers of the accrual service\<close>

record withdrawal =
  wd_ID :: string
  wd_UserID :: string
  wd_OrderID :: string
  wd_Sum :: Accrual
  wd_ProcessedAt :: time

definition zero_withdrawal :: withdrawal where
  "zero_withdrawal = \<lparr>wd_ID = [], wd_UserID = [], wd_OrderID = [], wd_Sum = 0, wd_ProcessedAt = 0\<rparr>"

record balance =
  bal_Balance :: Accrual
  bal_Withdrawn :: Accrual

definition NewBalanceItem :: "Accrual \<Rightarrow> Accrual \<Rightarrow> balance" where
  "NewBalanceItem bal withrawn = \<lparr>bal_Balance = bal, bal_Withdrawn = withrawn\<rparr>"

record accrual_response =
  ar_Order :: string
  ar_Status :: string
  ar_Accrual :: string

end
