(* ===== verification/PgErrors.thy ===== *)
theory PgErrors
  imports Errors
begin

text \<open>
  \<open>internal/services/db/pgerrors/pgerrors.go\<close>: which database errors are worth another attempt.
\<close>

datatype PGErrorClassification = NonRetriable | Retriable

definition ClassifyPgError :: "pgerrcode \<Rightarrow> PGErrorClassification" where
  "ClassifyPgError code =
     (if code \<in> {ConnectionException, ConnectionDoesNotExist, ConnectionFailure} then Retriable
      else if code \<in> {TransactionRollback, SerializationFailure, DeadlockDetected} then Retriable
      else if code \<in> {CannotConnectNow} then Retriable
      else if code \<in> {DataException, NullValueNotAllowedDataException} then NonRetriable
      else if code \<in> {IntegrityConstraintViolation, RestrictViolation, NotNullViolation,
                     ForeignKeyViolation, UniqueViolation, CheckViolation} then NonRetriable
      else if code \<in> {SyntaxErrorOrAccessRuleViolation, SyntaxError, UndefinedColumn,
                     UndefinedTable, UndefinedFunction} then NonRetriable
      else NonRetriable)"

text \<open>\<open>PostgresErrorClassifier.Classify\<close>; \<open>None\<close> is a nil error.\<close>

definition Classify :: "go_error option \<Rightarrow> PGErrorClassification" where
  "Classify err =
     (case err of None \<Rightarrow> NonRetriable
      | Some e \<Rightarrow> (case errors_As_PgError e of Some code \<Rightarrow> ClassifyPgError code
                   | None \<Rightarrow> NonRetriable))"

text \<open>The condition under which \<open>withRetry\<close> and \<open>withTxRetry\<close> try again.\<close>

definition retriable :: "go_error \<Rightarrow> bool" where
  "retriable err =
     (case errors_As_PgError err of None \<Rightarrow> False
      | Some code \<Rightarrow> ClassifyPgError code = Retriable)"

lemma retriable_Classify: "retriable e \<longleftrightarrow> Classify (Some e) = Retriable"
  by (auto simp: retriable_def Classify_def split: option.splits)

text \<open>Exactly seven server errors are retried: lost or refused connections and transactions the
server rolled back; in particular no violated constraint is.\<close>
lemma Classify_retriable_iff:
  "Classify err = Retriable \<longleftrightarrow>
   (\<exists>e code. err = Some e \<and> errors_As_PgError e = Some code \<and>
      code \<in> {ConnectionException, ConnectionDoesNotExist, ConnectionFailure, TransactionRollback,
              SerializationFailure, DeadlockDetected, CannotConnectNow})"
  by (auto simp: Classify_def ClassifyPgError_def split: option.splits)

lemma retriable_codes:
  "retriable (DriverErr (PgError c)) \<longleftrightarrow> ClassifyPgError c = Retriable"
  "\<not> retriable (UserErr u)" "\<not> retriable (OrderErr oe)" "\<not> retriable ErrNoRows"
  "\<not> retriable ErrWithdrawnNotFound" "\<not> retriable ErrScan"
  "\<not> retriable (DriverErr (ConnError s))" "\<not> retriable (DriverErr (CtxError x))"
  by (simp_all add: retriable_def)

lemma UniqueViolation_not_retriable [simp]: "ClassifyPgError UniqueViolation = NonRetriable"
  by (simp add: ClassifyPgError_def)

end
