(* ===== verification/Database.thy ===== *)
theory Database
  imports Models PgErrors
begin

text \<open>
  The PostgreSQL side: the tables of \<open>migrations/000001_init_project.up.sql\<close>, the SQL texts of
  \<open>internal/repositories/postgresql\<close> as functions on them, and the server as the driver sees it.
  What the server decides outside the program is part of its state: the values its UUID
  generator will give, how it reads a text as a UUID, the time, and for every round trip
  whether it succeeds (a script of faults, empty meaning that everything works). Waiting
  between attempts consumes a script of context cancellations and is logged. Of the refusals of a text that
  is too long, of a UUID and of a number out of range the model decides itself; that the server also refuses
  a text with a NUL or invalid UTF-8 (22021), and cuts an overlong text that only ends in blanks, is not part of it.
\<close>

section \<open>Tables\<close>

text \<open>The enumeration type \<open>gophermart.order_status\<close>, ordered as declared.\<close>

datatype order_status = NEW | PROCESSING | INVALID | PROCESSED

fun status_rank :: "order_status \<Rightarrow> nat" where
  "status_rank NEW = 0" | "status_rank PROCESSING = 1" | "status_rank INVALID = 2"
| "status_rank PROCESSED = 3"

lemma status_rank_inj: "status_rank a = status_rank b \<longleftrightarrow> a = b"
  by (cases a; cases b) simp_all

instantiation order_status :: linorder
begin

definition less_eq_order_status :: "order_status \<Rightarrow> order_status \<Rightarrow> bool" where
  "less_eq_order_status a b \<longleftrightarrow> status_rank a \<le> status_rank b"

definition less_order_status :: "order_status \<Rightarrow> order_status \<Rightarrow> bool" where
  "less_order_status a b \<longleftrightarrow> status_rank a < status_rank b"

instance
  by standard (auto simp: less_eq_order_status_def less_order_status_def status_rank_inj)

end

fun status_out :: "order_status \<Rightarrow> string" where
  "status_out NEW = ''NEW''" | "status_out PROCESSING = ''PROCESSING''"
| "status_out INVALID = ''INVALID''" | "status_out PROCESSED = ''PROCESSED''"

definition status_in :: "string \<Rightarrow> order_status option" where
  "status_in s = (if s = ''NEW'' then Some NEW else if s = ''PROCESSING'' then Some PROCESSING
     else if s = ''INVALID'' then Some INVALID else if s = ''PROCESSED'' then Some PROCESSED
     else None)"

lemma status_in_out [simp]: "status_in (status_out s) = Some s"
  by (cases s) (simp_all add: status_in_def)

lemma status_out_in: "status_in s = Some st \<Longrightarrow> status_out st = s"
  by (auto simp: status_in_def split: if_splits)

text \<open>The statuses the program accepts are exactly the labels of the enumeration.\<close>

lemma validStatuses_status_in: "validStatuses s \<longleftrightarrow> status_in s \<noteq> None"
  by (simp add: validStatuses_def status_in_def status_defs)

record user_row =
  ur_id :: string
  ur_login :: string
  ur_hash :: string
  ur_balance :: int
  ur_version :: int
  ur_created :: time

record order_row =
  or_id :: string
  or_user :: string
  or_status :: order_status
  or_accrual :: int
  or_uploaded :: time
  or_updated :: time

record wd_row =
  wr_id :: string
  wr_user :: string
  wr_order :: string
  wr_withdrawn :: int
  wr_processed :: time

record db =
  users :: "user_row list"
  orders :: "order_row list"
  withdrawals :: "wd_row list"

section \<open>The server\<close>

text \<open>
  A round trip works; or fails before the server did anything; or fails after the server has done
  it, the answer being lost; or, for a query with many rows, breaks after some rows.
\<close>

datatype fault = Deliver | FailBefore driver_error | FailAfter driver_error
  | CutRows nat driver_error

record server =
  tables :: db
  uuid_in :: "string \<Rightarrow> string option"
  gen_uuid :: "nat \<Rightarrow> string"
  id_ctr :: nat
  now :: time
  faults :: "fault list"
  cancels :: "ctx_error option list"
  sleeps :: "go_int list"

definition pop_fault :: "server \<Rightarrow> fault \<times> server" where
  "pop_fault s = (case faults s of [] \<Rightarrow> (Deliver, s) | f # fs \<Rightarrow> (f, s\<lparr>faults := fs\<rparr>))"

text \<open>\<open>QueryRowContext(...).Scan(...)\<close>: one statement, one row expected.\<close>

definition run_stmt :: "(server \<Rightarrow> (go_error + 'r) \<times> server) \<Rightarrow> server \<Rightarrow> (go_error + 'r) \<times> server" where
  "run_stmt stmt s =
     (case pop_fault s of (f, s1) \<Rightarrow>
       (case f of Deliver \<Rightarrow> stmt s1
        | FailBefore e \<Rightarrow> (Inl (DriverErr e), s1)
        | FailAfter e \<Rightarrow> (Inl (DriverErr e), snd (stmt s1))
        | CutRows n e \<Rightarrow> (Inl (DriverErr e), snd (stmt s1))))"

text \<open>
  \<open>QueryContext\<close> and the loop over \<open>rows.Next()\<close>: the loop of the source ends when \<open>Next\<close> returns
  false, whether the rows are finished or the stream broke.
\<close>

definition run_query :: "(server \<Rightarrow> (go_error + 'r list)) \<Rightarrow> server \<Rightarrow> (go_error + 'r list) \<times> server" where
  "run_query q s =
     (case pop_fault s of (f, s1) \<Rightarrow>
       (case f of Deliver \<Rightarrow> (q s1, s1)
        | FailBefore e \<Rightarrow> (Inl (DriverErr e), s1)
        | FailAfter e \<Rightarrow> (Inl (DriverErr e), s1)
        | CutRows n e \<Rightarrow> (map_sum id (take n) (q s1), s1)))"

definition invalid_text :: go_error where
  "invalid_text = DriverErr (PgError (OtherCode ''22P02''))"

definition too_long :: go_error where
  "too_long = DriverErr (PgError (OtherCode ''22001''))"

definition out_of_range :: go_error where
  "out_of_range = DriverErr (PgError (OtherCode ''22003''))"

definition unique_violation :: go_error where
  "unique_violation = DriverErr (PgError UniqueViolation)"

lemmas sql_error_defs = invalid_text_def too_long_def out_of_range_def unique_violation_def

text \<open>The number of characters of a UTF-8 text, as \<open>varchar(n)\<close> counts: continuation bytes aside.\<close>

definition char_count :: "string \<Rightarrow> nat" where
  "char_count s = length (filter (\<lambda>c. \<not> (128 \<le> (of_char c :: nat) \<and> (of_char c :: nat) < 192)) s)"

section \<open>Statements on users\<close>

definition new_uuid :: "server \<Rightarrow> string \<times> server" where
  "new_uuid s = (gen_uuid s (id_ctr s), s\<lparr>id_ctr := Suc (id_ctr s)\<rparr>)"

abbreviation upd_tables :: "(db \<Rightarrow> db) \<Rightarrow> server \<Rightarrow> server" where
  "upd_tables f s \<equiv> s\<lparr>tables := f (tables s)\<rparr>"

text \<open>\<open>INSERT INTO users (login, hash) VALUES ($1, $2) RETURNING id\<close>.\<close>

definition QueryInsertUser :: "string \<Rightarrow> string \<Rightarrow> server \<Rightarrow> (go_error + string) \<times> server" where
  "QueryInsertUser login hash s =
     (if char_count login > 32 \<or> char_count hash > 128 then (Inl too_long, s)
      else let (uid, s) = new_uuid s
           in if \<exists>r\<in>set (users (tables s)). ur_id r = uid \<or> ur_login r = login
              then (Inl unique_violation, s)
              else (Inr uid, upd_tables (\<lambda>t. t\<lparr>users := users t @
                 [\<lparr>ur_id = uid, ur_login = login, ur_hash = hash, ur_balance = 0,
                   ur_version = 1, ur_created = now s\<rparr>]\<rparr>) s))"

definition first_row :: "'r list \<Rightarrow> go_error + 'r" where
  "first_row rs = (case rs of [] \<Rightarrow> Inl ErrNoRows | r # _ \<Rightarrow> Inr r)"

definition QuerySelectUserByLogin :: "string \<Rightarrow> server \<Rightarrow> (go_error + user_row) \<times> server" where
  "QuerySelectUserByLogin login s =
     (first_row (filter (\<lambda>r. ur_login r = login) (users (tables s))), s)"

definition QuerySelectUserByID :: "string \<Rightarrow> server \<Rightarrow> (go_error + user_row) \<times> server" where
  "QuerySelectUserByID userID s =
     (case uuid_in s userID of None \<Rightarrow> (Inl invalid_text, s)
      | Some uid \<Rightarrow> (first_row (filter (\<lambda>r. ur_id r = uid) (users (tables s))), s))"

text \<open>
  \<open>UPDATE users SET balance = balance + $2 WHERE id = $1 AND (balance + $2) > 0 RETURNING id\<close>;
  the sum is a \<open>bigint\<close>, out of range it is an error. The row is the first with that id: the
  primary key leaves at most one.
\<close>

definition QueryUpdateUserBalance :: "string \<Rightarrow> int \<Rightarrow> server \<Rightarrow> (go_error + string) \<times> server" where
  "QueryUpdateUserBalance userID diff s =
     (case uuid_in s userID of None \<Rightarrow> (Inl invalid_text, s)
      | Some uid \<Rightarrow>
        (case filter (\<lambda>r. ur_id r = uid) (users (tables s)) of
           [] \<Rightarrow> (Inl ErrNoRows, s)
         | r # _ \<Rightarrow>
             let b = ur_balance r + diff
             in if \<not> in_int64 b then (Inl out_of_range, s)
                else if b > 0
                then (Inr uid, upd_tables (\<lambda>t. t\<lparr>users := map (\<lambda>r. if ur_id r = uid
                        then r\<lparr>ur_balance := b\<rparr> else r) (users t)\<rparr>) s)
                else (Inl ErrNoRows, s)))"

section \<open>Statements on orders\<close>

text \<open>\<open>INSERT INTO orders (id, user_id, status) VALUES ($1, $2, $3) RETURNING id\<close>.\<close>

definition QueryInsertOrder ::
  "string \<Rightarrow> string \<Rightarrow> string \<Rightarrow> server \<Rightarrow> (go_error + string) \<times> server" where
  "QueryInsertOrder orderID userID status s =
     (case (uuid_in s userID, status_in status) of
        (Some uid, Some st) \<Rightarrow>
          if char_count orderID > 256 then (Inl too_long, s)
          else if \<exists>r\<in>set (orders (tables s)). or_id r = orderID then (Inl unique_violation, s)
          else (Inr orderID, upd_tables (\<lambda>t. t\<lparr>orders := orders t @
                 [\<lparr>or_id = orderID, or_user = uid, or_status = st, or_accrual = 0,
                   or_uploaded = now s, or_updated = now s\<rparr>]\<rparr>) s)
      | _ \<Rightarrow> (Inl invalid_text, s))"

text \<open>The insertion with \<open>ON CONFLICT (id) DO UPDATE SET accrual, status\<close>.\<close>

definition QueryUpdateOrder ::
  "string \<Rightarrow> string \<Rightarrow> string \<Rightarrow> int \<Rightarrow> server \<Rightarrow> (go_error + string) \<times> server" where
  "QueryUpdateOrder orderID userID status accrual s =
     (case (uuid_in s userID, status_in status) of
        (Some uid, Some st) \<Rightarrow>
          if char_count orderID > 256 then (Inl too_long, s)
          else if \<exists>r\<in>set (orders (tables s)). or_id r = orderID
          then (Inr orderID, upd_tables (\<lambda>t. t\<lparr>orders := map (\<lambda>r. if or_id r = orderID
                 then r\<lparr>or_accrual := accrual, or_status := st\<rparr> else r) (orders t)\<rparr>) s)
          else (Inr orderID, upd_tables (\<lambda>t. t\<lparr>orders := orders t @
                 [\<lparr>or_id = orderID, or_user = uid, or_status = st, or_accrual = accrual,
                   or_uploaded = now s, or_updated = now s\<rparr>]\<rparr>) s)
      | _ \<Rightarrow> (Inl invalid_text, s))"

definition QuerySelectOrder ::
  "string \<Rightarrow> string \<Rightarrow> server \<Rightarrow> (go_error + order_row) \<times> server" where
  "QuerySelectOrder orderID userID s =
     (case uuid_in s userID of None \<Rightarrow> (Inl invalid_text, s)
      | Some uid \<Rightarrow>
          (first_row (filter (\<lambda>r. or_id r = orderID \<and> or_user r = uid) (orders (tables s))), s))"

definition QuerySelectOrders :: "string \<Rightarrow> server \<Rightarrow> go_error + order_row list" where
  "QuerySelectOrders userID s =
     (case uuid_in s userID of None \<Rightarrow> Inl invalid_text
      | Some uid \<Rightarrow> Inr (filter (\<lambda>r. or_user r = uid) (orders (tables s))))"

section \<open>Statements on withdrawals\<close>

text \<open>\<open>INSERT INTO withdrawals (user_id, order_id, withdrawn) VALUES ($1, $2, $3) RETURNING id\<close>.\<close>

definition QueryInsertWithdrawn ::
  "string \<Rightarrow> string \<Rightarrow> int \<Rightarrow> server \<Rightarrow> (go_error + string) \<times> server" where
  "QueryInsertWithdrawn userID orderID amount s =
     (case uuid_in s userID of None \<Rightarrow> (Inl invalid_text, s)
      | Some uid \<Rightarrow>
          if char_count orderID > 256 then (Inl too_long, s)
          else let (wid, s) = new_uuid s
               in if \<exists>r\<in>set (withdrawals (tables s)). wr_id r = wid then (Inl unique_violation, s)
                  else (Inr wid, upd_tables (\<lambda>t. t\<lparr>withdrawals := withdrawals t @
                     [\<lparr>wr_id = wid, wr_user = uid, wr_order = orderID, wr_withdrawn = amount,
                       wr_processed = now s\<rparr>]\<rparr>) s))"

text \<open>
  \<open>SELECT user_id, SUM(withdrawn) ... GROUP BY user_id\<close>: no group without a row. The sum of
  \<open>bigint\<close>s is a \<open>numeric\<close>; scanning it into an \<open>Accrual\<close> fails when it does not fit.
\<close>

definition QuerySelectWithdrawn :: "string \<Rightarrow> server \<Rightarrow> (go_error + string \<times> int) \<times> server" where
  "QuerySelectWithdrawn userID s =
     (case uuid_in s userID of None \<Rightarrow> (Inl invalid_text, s)
      | Some uid \<Rightarrow>
          let rs = filter (\<lambda>r. wr_user r = uid) (withdrawals (tables s));
              amount = sum_list (map wr_withdrawn rs)
          in if rs = [] then (Inl ErrNoRows, s)
             else if \<not> in_int64 amount then (Inl ErrScan, s)
             else (Inr (uid, amount), s))"

definition QuerySelectWithdrawnList :: "string \<Rightarrow> server \<Rightarrow> go_error + wd_row list" where
  "QuerySelectWithdrawnList userID s =
     (case uuid_in s userID of None \<Rightarrow> Inl invalid_text
      | Some uid \<Rightarrow> Inr (filter (\<lambda>r. wr_user r = uid) (withdrawals (tables s))))"

section \<open>Transactions and waiting\<close>

definition BeginTx :: "server \<Rightarrow> go_error option \<times> server" where
  "BeginTx s =
     (case pop_fault s of (f, s1) \<Rightarrow>
       (case f of Deliver \<Rightarrow> (None, s1)
        | FailBefore e \<Rightarrow> (Some (DriverErr e), s1)
        | FailAfter e \<Rightarrow> (Some (DriverErr e), s1)
        | CutRows n e \<Rightarrow> (Some (DriverErr e), s1)))"

text \<open>
  \<open>tx.Commit()\<close> with the tables as they were at \<open>BeginTx\<close>: the commit may fail and leave them, or
  succeed with the answer lost.
\<close>

definition Commit :: "db \<Rightarrow> server \<Rightarrow> go_error option \<times> server" where
  "Commit snapshot s =
     (case pop_fault s of (f, s1) \<Rightarrow>
       (case f of Deliver \<Rightarrow> (None, s1)
        | FailBefore e \<Rightarrow> (Some (DriverErr e), s1\<lparr>tables := snapshot\<rparr>)
        | FailAfter e \<Rightarrow> (Some (DriverErr e), s1)
        | CutRows n e \<Rightarrow> (Some (DriverErr e), s1)))"

definition Rollback :: "db \<Rightarrow> server \<Rightarrow> server" where
  "Rollback snapshot s = s\<lparr>tables := snapshot\<rparr>"

text \<open>\<open>select { case <-ctx.Done(): return ctx.Err(); case <-time.After(delay): }\<close>.\<close>

definition wait_delay :: "go_int \<Rightarrow> server \<Rightarrow> go_error option \<times> server" where
  "wait_delay delay s =
     (case cancels s of
        [] \<Rightarrow> (None, s\<lparr>sleeps := sleeps s @ [delay]\<rparr>)
      | c # cs \<Rightarrow> (map_option (\<lambda>x. DriverErr (CtxError x)) c,
                   s\<lparr>cancels := cs, sleeps := sleeps s @ [delay]\<rparr>))"

end
