(* ===== verification/Storage.thy ===== *)
theory Storage
  imports Database
begin

text \<open>
  \<open>internal/repositories/postgresql\<close>: the interface the services use, the two retry loops and the
  repository methods over the statements of \<open>Database\<close>. A closure of the source that fills or
  changes a captured struct takes that struct and returns it.
\<close>

section \<open>The interface\<close>

record 's SQLStorageInterface =
  st_AddUser :: "user \<Rightarrow> 's \<Rightarrow> (go_error option \<times> user) \<times> 's"
  st_GetUser :: "string \<Rightarrow> 's \<Rightarrow> (go_error + user) \<times> 's"
  st_GetUserByID :: "string \<Rightarrow> 's \<Rightarrow> (go_error + user) \<times> 's"
  st_AddOrder :: "order \<Rightarrow> 's \<Rightarrow> (go_error option \<times> order) \<times> 's"
  st_GetOrder :: "string \<Rightarrow> string \<Rightarrow> 's \<Rightarrow> (go_error + order) \<times> 's"
  st_ListOrders :: "string \<Rightarrow> 's \<Rightarrow> (go_error + order list) \<times> 's"
  st_UpdateOrder :: "order \<Rightarrow> 's \<Rightarrow> (go_error option \<times> order) \<times> 's"
  st_AddWithdrawn :: "withdrawal \<Rightarrow> 's \<Rightarrow> (go_error option \<times> withdrawal) \<times> 's"
  st_GetWithdrawn :: "string \<Rightarrow> 's \<Rightarrow> (go_error + withdrawal) \<times> 's"
  st_ListWithdrawals :: "string \<Rightarrow> 's \<Rightarrow> (go_error + withdrawal list) \<times> 's"
  st_Ping :: "'s \<Rightarrow> go_error option \<times> 's"

section \<open>The retry loops\<close>

definition RetryingAttempts :: nat where "RetryingAttempts = 3"
definition RetryingDelay :: go_int where "RetryingDelay = 100000000"
definition RetryingDelayStep :: go_int where "RetryingDelayStep = 200000000"

type_synonym 'v action = "'v \<Rightarrow> server \<Rightarrow> go_error option \<times> 'v \<times> server"

fun withRetry_loop ::
  "'v action \<Rightarrow> nat \<Rightarrow> nat \<Rightarrow> go_error option \<Rightarrow> 'v action" where
  "withRetry_loop action attempts 0 lastErr v s = (lastErr, v, s)"
| "withRetry_loop action attempts (Suc left) lastErr v s =
     (case action v s of
        (None, v, s) \<Rightarrow> (None, v, s)
      | (Some err, v, s) \<Rightarrow>
          if retriable err
          then (case wait_delay (RetryingDelay + of_nat attempts * RetryingDelayStep) s of
                  (Some e, s) \<Rightarrow> (Some e, v, s)
                | (None, s) \<Rightarrow> withRetry_loop action (Suc attempts) left (Some err) v s)
          else (Some err, v, s))"

definition withRetry :: "'v action \<Rightarrow> 'v action" where
  "withRetry action v s = withRetry_loop action 0 RetryingAttempts None v s"

fun withTxRetry_loop ::
  "'v action \<Rightarrow> nat \<Rightarrow> nat \<Rightarrow> go_error option \<Rightarrow> 'v action" where
  "withTxRetry_loop action attempts 0 lastErr v s = (lastErr, v, s)"
| "withTxRetry_loop action attempts (Suc left) lastErr v s =
     (case BeginTx s of
        (Some err, s) \<Rightarrow> (Some err, v, s)
      | (None, s) \<Rightarrow>
          let snapshot = tables s
          in (case action v s of
                (None, v, s) \<Rightarrow> (case Commit snapshot s of (err, s) \<Rightarrow> (err, v, s))
              | (Some err, v, s) \<Rightarrow>
                  let s = Rollback snapshot s
                  in if retriable err
                     then (case wait_delay (RetryingDelay + of_nat attempts * RetryingDelayStep) s of
                             (Some e, s) \<Rightarrow> (Some e, v, s)
                           | (None, s) \<Rightarrow>
                               withTxRetry_loop action (Suc attempts) left (Some err) v s)
                     else (Some err, v, s)))"

definition withTxRetry :: "'v action \<Rightarrow> 'v action" where
  "withTxRetry action v s = withTxRetry_loop action 0 RetryingAttempts None v s"

section \<open>Users\<close>

definition scan_user :: "user_row \<Rightarrow> user \<Rightarrow> user" where
  "scan_user r u = u\<lparr>user_ID := ur_id r, user_Login := ur_login r, user_Hash := ur_hash r,
     user_Version := word_of_int (ur_version r), user_Balance := word_of_int (ur_balance r),
     user_CreatedAt := ur_created r\<rparr>"

definition select_user :: "(server \<Rightarrow> (go_error + user_row) \<times> server) \<Rightarrow> user action" where
  "select_user q u s =
     (case run_stmt q s of
        (Inl err, s) \<Rightarrow> (Some err, u, s)
      | (Inr r, s) \<Rightarrow> (None, scan_user r u, s))"

definition GetUser :: "string \<Rightarrow> server \<Rightarrow> (go_error + user) \<times> server" where
  "GetUser login s =
     (case withRetry (select_user (QuerySelectUserByLogin login)) zero_user s of
        (Some err, u, s) \<Rightarrow>
          if errors_Is err ErrNoRows then (Inl (UserErr ErrUserNotFound), s) else (Inl err, s)
      | (None, u, s) \<Rightarrow> (Inr u, s))"

definition GetUserByID :: "string \<Rightarrow> server \<Rightarrow> (go_error + user) \<times> server" where
  "GetUserByID userID s =
     (case withRetry (select_user (QuerySelectUserByID userID)) zero_user s of
        (Some err, u, s) \<Rightarrow> (Inl err, s)
      | (None, u, s) \<Rightarrow> (Inr u, s))"

definition addUserTx :: "user action" where
  "addUserTx u s =
     (case run_stmt (QueryInsertUser (user_Login u) (user_Hash u)) s of
        (Inl err, s) \<Rightarrow>
          (if errors_As_PgError err = Some UniqueViolation then Some (UserErr ErrUserExists)
           else Some err, u, s)
      | (Inr uid, s) \<Rightarrow> (None, u\<lparr>user_ID := uid\<rparr>, s))"

definition AddUser :: "user \<Rightarrow> server \<Rightarrow> (go_error option \<times> user) \<times> server" where
  "AddUser u s = (case withTxRetry addUserTx u s of (err, u, s) \<Rightarrow> ((err, u), s))"

definition updateUserBalanceTx :: "string \<Rightarrow> go_int \<Rightarrow> server \<Rightarrow> go_error option \<times> server" where
  "updateUserBalanceTx userID diffSum s =
     (case run_stmt (QueryUpdateUserBalance userID (sint diffSum)) s of
        (Inl err, s) \<Rightarrow>
          if errors_Is err ErrNoRows then (Some (UserErr ErrUserBalanceIsNotEnough), s)
          else (Some err, s)
      | (Inr updatedUserID, s) \<Rightarrow>
          if updatedUserID = [] then (Some (UserErr ErrUserBalanceIsNotEnough), s) else (None, s))"

section \<open>Orders\<close>

definition scan_order :: "order_row \<Rightarrow> order \<Rightarrow> order" where
  "scan_order r m = m\<lparr>ord_ID := or_id r, ord_UserID := or_user r,
     ord_Status := status_out (or_status r), ord_Accrual := word_of_int (or_accrual r),
     ord_UploadedAt := or_uploaded r, ord_UpdatedAt := or_updated r\<rparr>"

definition GetOrder :: "string \<Rightarrow> string \<Rightarrow> server \<Rightarrow> (go_error + order) \<times> server" where
  "GetOrder orderID userID s =
     (case withRetry (\<lambda>m s. case run_stmt (QuerySelectOrder orderID userID) s of
                 (Inl err, s) \<Rightarrow>
                   if errors_Is err ErrNoRows then (Some (OrderErr ErrOrderNotFound), m, s)
                   else (Some err, m, s)
               | (Inr r, s) \<Rightarrow> (None, scan_order r m, s)) zero_order s of
        (Some err, m, s) \<Rightarrow> (Inl err, s)
      | (None, m, s) \<Rightarrow> (Inr m, s))"

definition ListOrders :: "string \<Rightarrow> server \<Rightarrow> (go_error + order list) \<times> server" where
  "ListOrders userID s =
     (case run_query (QuerySelectOrders userID) s of
        (Inl err, s) \<Rightarrow> (Inl err, s)
      | (Inr rows, s) \<Rightarrow> (Inr (map (\<lambda>r. scan_order r zero_order) rows), s))"

definition addOrderTx :: "order action" where
  "addOrderTx m s =
     (case run_stmt (QueryInsertOrder (ord_ID m) (ord_UserID m) (ord_Status m)) s of
        (Inl err, s) \<Rightarrow>
          (if errors_As_PgError err = Some UniqueViolation then Some (OrderErr ErrOrderExists)
           else Some err, m, s)
      | (Inr oid, s) \<Rightarrow> (None, m\<lparr>ord_ID := oid\<rparr>, s))"

definition AddOrder :: "order \<Rightarrow> server \<Rightarrow> (go_error option \<times> order) \<times> server" where
  "AddOrder m s = (case withTxRetry addOrderTx m s of (err, m, s) \<Rightarrow> ((err, m), s))"

definition updateOrderTx :: "order action" where
  "updateOrderTx m s =
     (case run_stmt (QueryUpdateOrder (ord_ID m) (ord_UserID m) (ord_Status m) (sint (ord_Accrual m))) s of
        (Inl err, s) \<Rightarrow>
          (if errors_As_PgError err = Some UniqueViolation then Some (OrderErr ErrOrderExists)
           else Some err, m, s)
      | (Inr oid, s) \<Rightarrow> (None, m\<lparr>ord_ID := oid\<rparr>, s))"

definition UpdateOrder_tx :: "order action" where
  "UpdateOrder_tx m s =
     (case updateOrderTx m s of
        (Some err, m, s) \<Rightarrow> (Some err, m, s)
      | (None, m, s) \<Rightarrow>
          if ord_Status m = OrderProcessedStatus \<and> 0 <s ord_Accrual m
          then (case updateUserBalanceTx (ord_UserID m) (ord_Accrual m) s of
                  (Some err, s) \<Rightarrow> (Some err, m, s)
                | (None, s) \<Rightarrow> (None, m, s))
          else (None, m, s))"

definition UpdateOrder :: "order \<Rightarrow> server \<Rightarrow> (go_error option \<times> order) \<times> server" where
  "UpdateOrder m s = (case withTxRetry UpdateOrder_tx m s of (err, m, s) \<Rightarrow> ((err, m), s))"

section \<open>Withdrawals\<close>

definition GetWithdrawn :: "string \<Rightarrow> server \<Rightarrow> (go_error + withdrawal) \<times> server" where
  "GetWithdrawn userID s =
     (case withRetry (\<lambda>wd s. case run_stmt (QuerySelectWithdrawn userID) s of
                 (Inl err, s) \<Rightarrow>
                   if errors_Is err ErrNoRows then (Some ErrWithdrawnNotFound, wd, s)
                   else (Some err, wd, s)
               | (Inr (uid, amount), s) \<Rightarrow>
                   (None, wd\<lparr>wd_UserID := uid, wd_Sum := word_of_int amount\<rparr>, s)) zero_withdrawal s of
        (Some err, wd, s) \<Rightarrow> (Inl err, s)
      | (None, wd, s) \<Rightarrow> (Inr wd, s))"

definition scan_withdrawal :: "wd_row \<Rightarrow> withdrawal \<Rightarrow> withdrawal" where
  "scan_withdrawal r wd = wd\<lparr>wd_ID := wr_id r, wd_UserID := wr_user r, wd_OrderID := wr_order r,
     wd_Sum := word_of_int (wr_withdrawn r), wd_ProcessedAt := wr_processed r\<rparr>"

definition ListWithdrawals :: "string \<Rightarrow> server \<Rightarrow> (go_error + withdrawal list) \<times> server" where
  "ListWithdrawals userID s =
     (case run_query (QuerySelectWithdrawnList userID) s of
        (Inl err, s) \<Rightarrow> (Inl err, s)
      | (Inr rows, s) \<Rightarrow> (Inr (map (\<lambda>r. scan_withdrawal r zero_withdrawal) rows), s))"

definition addWithdrawnTx :: "withdrawal action" where
  "addWithdrawnTx wd s =
     (case run_stmt (QueryInsertWithdrawn (wd_UserID wd) (wd_OrderID wd) (sint (wd_Sum wd))) s of
        (Inl err, s) \<Rightarrow> (Some err, wd, s)
      | (Inr wid, s) \<Rightarrow> (None, wd\<lparr>wd_ID := wid\<rparr>, s))"

definition AddWithdrawn_tx :: "withdrawal action" where
  "AddWithdrawn_tx wd s =
     (case addWithdrawnTx wd s of
        (Some err, wd, s) \<Rightarrow> (Some err, wd, s)
      | (None, wd, s) \<Rightarrow>
          (case updateUserBalanceTx (wd_UserID wd) (- wd_Sum wd) s of
             (Some err, s) \<Rightarrow> (Some err, wd, s)
           | (None, s) \<Rightarrow> (None, wd, s)))"

definition AddWithdrawn :: "withdrawal \<Rightarrow> server \<Rightarrow> (go_error option \<times> withdrawal) \<times> server" where
  "AddWithdrawn wd s = (case withTxRetry AddWithdrawn_tx wd s of (err, wd, s) \<Rightarrow> ((err, wd), s))"

text \<open>\<open>Ping\<close> asks for nothing and leaves the tables alone.\<close>

definition Ping :: "server \<Rightarrow> go_error option \<times> server" where
  "Ping s = (case run_stmt (\<lambda>s. (Inr (), s)) s of (Inl err, s) \<Rightarrow> (Some err, s) | (Inr _, s) \<Rightarrow> (None, s))"

lemma Ping_tables: "Ping s = (err, t) \<Longrightarrow> tables t = tables s"
  by (auto simp: Ping_def run_stmt_def pop_fault_def split: list.splits fault.splits prod.splits sum.splits)

text \<open>\<open>NewSQLStorage\<close>: the repository behind the interface.\<close>

definition NewSQLStorage :: "server SQLStorageInterface" where
  "NewSQLStorage = \<lparr>st_AddUser = AddUser, st_GetUser = GetUser, st_GetUserByID = GetUserByID,
     st_AddOrder = AddOrder, st_GetOrder = GetOrder, st_ListOrders = ListOrders,
     st_UpdateOrder = UpdateOrder, st_AddWithdrawn = AddWithdrawn, st_GetWithdrawn = GetWithdrawn,
     st_ListWithdrawals = ListWithdrawals, st_Ping = Ping\<rparr>"

end
