(* ===== verification/Transactions.thy ===== *)
theory Transactions
  imports Storage "HOL-Library.Sublist"
begin

text \<open>
  What the two retry loops guarantee for any action. A transaction that reports success ran its
  action to the end exactly once on the tables the caller saw; one that reports an error left the
  tables as they were, unless the answer to a commit was lost. The loops wait at most three times,
  with growing delays.
\<close>

section \<open>What no statement changes\<close>

text \<open>
  \<open>later s t\<close>: \<open>t\<close> comes after \<open>s\<close>; the fixed parts of the server are the same, the scripts have
  been consumed from the front and identifiers only counted up.
\<close>

definition later :: "server \<Rightarrow> server \<Rightarrow> bool" where
  "later s t \<longleftrightarrow> uuid_in t = uuid_in s \<and> gen_uuid t = gen_uuid s \<and> now t = now s \<and>
     id_ctr s \<le> id_ctr t \<and> suffix (faults t) (faults s) \<and> suffix (cancels t) (cancels s)"

lemma later_refl [simp]: "later s s"
  by (simp add: later_def)

lemma later_trans [trans]: "later s t \<Longrightarrow> later t u \<Longrightarrow> later s u"
  by (auto simp: later_def intro: suffix_order.trans)

lemma later_faults: "later s t \<Longrightarrow> set (faults t) \<subseteq> set (faults s)"
  by (auto simp: later_def dest: set_mono_suffix)

lemma later_tables [simp]:
  "later s (t\<lparr>tables := x\<rparr>) \<longleftrightarrow> later s t" "later (s\<lparr>tables := x\<rparr>) t \<longleftrightarrow> later s t"
  by (simp_all add: later_def)

lemma pop_fault_frame [go_frame]:
  "pop_fault s = (f, t) \<Longrightarrow> later s t \<and> tables t = tables s \<and> sleeps t = sleeps s
     \<and> uuid_in t = uuid_in s \<and> (f = Deliver \<or> f \<in> set (faults s))"
  by (auto simp: pop_fault_def later_def suffix_def split: list.splits)

lemma wait_delay_frame [go_frame]:
  "wait_delay d s = (e, t) \<Longrightarrow> later s t \<and> tables t = tables s \<and> sleeps t = sleeps s @ [d]"
  by (auto simp: wait_delay_def later_def suffix_def split: list.splits)

lemma wait_delay_error:
  "wait_delay d s = (Some e, t) \<Longrightarrow> \<exists>c. e = DriverErr (CtxError c)"
  by (auto simp: wait_delay_def split: list.splits)

lemma BeginTx_frame [go_frame]:
  "BeginTx s = (e, t) \<Longrightarrow> later s t \<and> tables t = tables s \<and> sleeps t = sleeps s"
  by (auto simp: BeginTx_def split: prod.splits fault.splits dest: pop_fault_frame)

definition lossy :: "fault \<Rightarrow> bool" where
  "lossy f \<longleftrightarrow> (\<exists>e. f = FailAfter e) \<or> (\<exists>n e. f = CutRows n e)"

lemma Commit_frame [go_frame]:
  "Commit snap s = (e, t) \<Longrightarrow> later s t \<and> sleeps t = sleeps s \<and>
     (case e of None \<Rightarrow> tables t = tables s
      | Some x \<Rightarrow> tables t = snap \<or> tables t = tables s \<and> (\<exists>f\<in>set (faults s). lossy f))"
  by (auto simp: Commit_def lossy_def split: prod.splits fault.splits dest: pop_fault_frame)
    (metis fault.distinct(3) fault.distinct(5) pop_fault_frame)+

section \<open>Well-behaved actions\<close>

text \<open>
  An action only moves forward, does not wait, and keeps a property \<open>J\<close> of the captured struct.
\<close>

definition well_behaved :: "('v \<Rightarrow> bool) \<Rightarrow> 'v action \<Rightarrow> bool" where
  "well_behaved J action \<longleftrightarrow>
     (\<forall>v s e v' t. J v \<longrightarrow> action v s = (e, v', t) \<longrightarrow> later s t \<and> sleeps t = sleeps s \<and> J v')"

lemma well_behavedD:
  "well_behaved J action \<Longrightarrow> J v \<Longrightarrow> action v s = (e, v', t) \<Longrightarrow>
   later s t \<and> sleeps t = sleeps s \<and> J v'"
  by (auto simp: well_behaved_def)

text \<open>The action ran to its end on the tables of \<open>s\<close>, giving \<open>v'\<close> and the tables of \<open>t\<close>.\<close>

definition ran_once :: "('v \<Rightarrow> bool) \<Rightarrow> 'v action \<Rightarrow> server \<Rightarrow> 'v \<Rightarrow> server \<Rightarrow> bool" where
  "ran_once J action s v' t \<longleftrightarrow>
     (\<exists>v0 s1 s2. J v0 \<and> later s s1 \<and> tables s1 = tables s \<and> action v0 s1 = (None, v', s2) \<and>
        later s2 t \<and> tables t = tables s2)"

lemma ran_once_later:
  "later s s0 \<Longrightarrow> tables s0 = tables s \<Longrightarrow> ran_once J action s0 v' t \<Longrightarrow> ran_once J action s v' t"
  unfolding ran_once_def by (metis later_trans)

definition delays :: "nat \<Rightarrow> nat \<Rightarrow> go_int list" where
  "delays attempts left = map (\<lambda>i. RetryingDelay + of_nat i * RetryingDelayStep) [attempts..<attempts + left]"

lemma delays_Suc:
  "delays n (Suc k) = (RetryingDelay + of_nat n * RetryingDelayStep) # delays (Suc n) k"
  by (simp add: delays_def upt_conv_Cons del: upt_Suc)

section \<open>The loop with transactions\<close>

text \<open>One turn of the loop: what an attempt can end in.\<close>

lemma withTxRetry_turn:
  assumes "withTxRetry_loop action n (Suc k) lastErr v s = (err, v', t)"
  obtains (begin_failed) e where "err = Some e" "v' = v" "BeginTx s = (err, t)"
  | (finished) s1 s2 where "BeginTx s = (None, s1)" "action v s1 = (None, v', s2)"
      "Commit (tables s1) s2 = (err, t)"
  | (failed) s1 s2 e where "BeginTx s = (None, s1)" "action v s1 = (Some e, v', s2)"
      "\<not> retriable e" "err = Some e" "t = Rollback (tables s1) s2"
  | (canceled) s1 s2 e x where "BeginTx s = (None, s1)" "action v s1 = (Some e, v', s2)"
      "retriable e" "err = Some x"
      "wait_delay (RetryingDelay + of_nat n * RetryingDelayStep) (Rollback (tables s1) s2) = (err, t)"
  | (again) s1 s2 s3 e v1 where "BeginTx s = (None, s1)" "action v s1 = (Some e, v1, s2)"
      "retriable e"
      "wait_delay (RetryingDelay + of_nat n * RetryingDelayStep) (Rollback (tables s1) s2) = (None, s3)"
      "withTxRetry_loop action (Suc n) k (Some e) v1 s3 = (err, v', t)"
  using assms
  by (auto simp: Let_def split: prod.splits option.splits if_splits)

lemma Rollback_frame [simp]:
  "tables (Rollback d s) = d" "later u (Rollback d s) \<longleftrightarrow> later u s"
  "later (Rollback d s) u \<longleftrightarrow> later s u" "sleeps (Rollback d s) = sleeps s"
  by (simp_all add: Rollback_def)

text \<open>The action failed with \<open>e\<close> on the tables of \<open>s\<close>.\<close>

definition failed_with :: "('v \<Rightarrow> bool) \<Rightarrow> 'v action \<Rightarrow> server \<Rightarrow> go_error \<Rightarrow> bool" where
  "failed_with J action s e \<longleftrightarrow>
     (\<exists>v0 s1 v1 s2. J v0 \<and> later s s1 \<and> tables s1 = tables s \<and> action v0 s1 = (Some e, v1, s2))"

text \<open>
  What a transaction started at \<open>s\<close> may have done when the call ends at \<open>t\<close>: on success one run;
  on an error of the action nothing; on an error of the driver nothing, or one run whose commit was
  not answered.
\<close>

definition tx_result ::
  "('v \<Rightarrow> bool) \<Rightarrow> 'v action \<Rightarrow> server \<Rightarrow> go_error option \<Rightarrow> 'v \<Rightarrow> server \<Rightarrow> bool" where
  "tx_result J action s err v' t \<longleftrightarrow> J v' \<and> later s t \<and>
     (case err of None \<Rightarrow> ran_once J action s v' t
      | Some e \<Rightarrow> tables t = tables s \<and> failed_with J action s e
          \<or> (\<exists>d. e = DriverErr d) \<and> (tables t = tables s
               \<or> ran_once J action s v' t \<and> (\<exists>f\<in>set (faults s). lossy f)))"

lemma withTxRetry_loop_spec:
  assumes wb: "well_behaved J action"
  shows "withTxRetry_loop action n k lastErr v s = (err, v', t) \<Longrightarrow> J v \<Longrightarrow>
    later s0 s \<Longrightarrow> tables s = tables s0 \<Longrightarrow>
    (case lastErr of None \<Rightarrow> 0 < k | Some e \<Rightarrow> failed_with J action s0 e) \<Longrightarrow>
    tx_result J action s0 err v' t"
proof (induction k arbitrary: n lastErr v s)
  case 0
  then show ?case by (auto simp: tx_result_def split: option.splits)
next
  case (Suc k)
  note s = Suc.prems(3,4)
  from Suc.prems(1) show ?case
  proof (cases rule: withTxRetry_turn)
    case (begin_failed e)
    then have "\<exists>d. e = DriverErr d"
      by (auto simp: BeginTx_def split: prod.splits fault.splits)
    with begin_failed show ?thesis
      using BeginTx_frame [OF begin_failed(3)] Suc.prems(2) s
      by (auto simp: tx_result_def intro: later_trans)
  next
    case (finished s1 s2)
    note b = BeginTx_frame [OF finished(1)] and a = well_behavedD [OF wb Suc.prems(2) finished(2)]
      and c = Commit_frame [OF finished(3)]
    have ls2: "later s0 s2" using a b s later_trans by blast
    have ran: "ran_once J action s0 v' t" if "tables t = tables s2"
      unfolding ran_once_def using that finished(2) a b c Suc.prems(2) s later_trans by metis
    have drv: "\<exists>d. e = DriverErr d" if "err = Some e" for e
      using finished(3) that by (auto simp: Commit_def split: prod.splits fault.splits)
    show ?thesis
      using ran drv a b c s ls2 later_faults [OF ls2] later_trans [OF ls2]
      by (auto simp: tx_result_def split: option.splits)
  next
    case (failed s1 s2 e)
    note b = BeginTx_frame [OF failed(1)] and a = well_behavedD [OF wb Suc.prems(2) failed(2)]
    have "failed_with J action s0 e"
      unfolding failed_with_def using b s failed(2) Suc.prems(2) later_trans by metis
    then show ?thesis
      using a b s failed(4,5) by (auto simp: tx_result_def intro: later_trans)
  next
    case (canceled s1 s2 e x)
    note b = BeginTx_frame [OF canceled(1)] and a = well_behavedD [OF wb Suc.prems(2) canceled(2)]
      and w = wait_delay_frame [OF canceled(5)]
    have "later s0 t" using a b w s by (auto intro: later_trans)
    then show ?thesis
      using a b s w canceled(4) wait_delay_error [of _ _ x t] canceled(5)
      by (fastforce simp: tx_result_def)
  next
    case (again s1 s2 s3 e v1)
    note b = BeginTx_frame [OF again(1)] and a = well_behavedD [OF wb Suc.prems(2) again(2)]
      and w = wait_delay_frame [OF again(4)]
    have f: "failed_with J action s0 e"
      unfolding failed_with_def using b s again(2) Suc.prems(2) later_trans by metis
    show ?thesis
      by (rule Suc.IH [OF again(5)]) (use a b w s f in \<open>auto intro: later_trans\<close>)
  qed
qed

lemma withTxRetry_spec:
  assumes "well_behaved J action" "J v" "withTxRetry action v s = (err, v', t)"
  shows "tx_result J action s err v' t"
  using withTxRetry_loop_spec [OF assms(1) assms(3) [unfolded withTxRetry_def] assms(2), of s]
  by (simp add: RetryingAttempts_def)

lemma withTxRetry_loop_sleeps:
  assumes wb: "well_behaved J action"
  shows "withTxRetry_loop action n k lastErr v s = (err, v', t) \<Longrightarrow> J v \<Longrightarrow>
    \<exists>ds. sleeps t = sleeps s @ ds \<and> prefix ds (delays n k)"
proof (induction k arbitrary: n lastErr v s)
  case 0
  then show ?case by simp
next
  case (Suc k)
  from Suc.prems(1) show ?case
  proof (cases rule: withTxRetry_turn)
    case begin_failed
    then show ?thesis using BeginTx_frame by fastforce
  next
    case (finished s1 s2)
    then show ?thesis
      using BeginTx_frame [OF finished(1)] well_behavedD [OF wb Suc.prems(2) finished(2)]
        Commit_frame [OF finished(3)] by simp
  next
    case (failed s1 s2 e)
    then show ?thesis
      using BeginTx_frame [OF failed(1)] well_behavedD [OF wb Suc.prems(2) failed(2)] by simp
  next
    case (canceled s1 s2 e x)
    then show ?thesis
      using BeginTx_frame [OF canceled(1)] well_behavedD [OF wb Suc.prems(2) canceled(2)]
        wait_delay_frame [OF canceled(5)] by (simp add: delays_Suc)
  next
    case (again s1 s2 s3 e v1)
    note a = well_behavedD [OF wb Suc.prems(2) again(2)]
    have s3: "sleeps s3 = sleeps s @ [RetryingDelay + of_nat n * RetryingDelayStep]"
      using BeginTx_frame [OF again(1)] a wait_delay_frame [OF again(4)] by simp
    obtain ds where "sleeps t = sleeps s3 @ ds" "prefix ds (delays (Suc n) k)"
      using Suc.IH [OF again(5)] a by blast
    with s3 show ?thesis by (simp add: delays_Suc)
  qed
qed

section \<open>The loop without transactions\<close>

text \<open>
  An action that only reads: it moves forward, leaves the tables alone and keeps a property \<open>J\<close> of
  the captured struct.
\<close>

definition read_only :: "('v \<Rightarrow> bool) \<Rightarrow> 'v action \<Rightarrow> bool" where
  "read_only J action \<longleftrightarrow>
     (\<forall>v s e v' t. J v \<longrightarrow> action v s = (e, v', t) \<longrightarrow>
        later s t \<and> sleeps t = sleeps s \<and> tables t = tables s \<and> J v')"

lemma read_onlyD:
  "read_only J action \<Longrightarrow> J v \<Longrightarrow> action v s = (e, v', t) \<Longrightarrow>
   later s t \<and> sleeps t = sleeps s \<and> tables t = tables s \<and> J v'"
  by (auto simp: read_only_def)

text \<open>The result is the one of some attempt, or the context ended while waiting.\<close>

definition read_result :: "('v \<Rightarrow> bool) \<Rightarrow> 'v action \<Rightarrow> server \<Rightarrow> go_error option \<Rightarrow> 'v \<Rightarrow> server \<Rightarrow> bool" where
  "read_result J action s err v' t \<longleftrightarrow> later s t \<and> tables t = tables s \<and>
     ((\<exists>c. err = Some (DriverErr (CtxError c))) \<or>
      (\<exists>v0 s1 s2. J v0 \<and> later s s1 \<and> tables s1 = tables s \<and> action v0 s1 = (err, v', s2)))"

lemma withRetry_loop_spec:
  assumes ro: "read_only J action"
  shows "withRetry_loop action n k lastErr v s = (err, v', t) \<Longrightarrow>
    J v \<Longrightarrow> later s0 s \<Longrightarrow> tables s = tables s0 \<Longrightarrow>
    0 < k \<or> (\<exists>v0 s1 s2. J v0 \<and> later s0 s1 \<and> tables s1 = tables s0 \<and> action v0 s1 = (lastErr, v, s2)) \<Longrightarrow>
    read_result J action s0 err v' t"
proof (induction k arbitrary: n lastErr v s)
  case 0
  then show ?case by (auto simp: read_result_def)
next
  case (Suc k)
  obtain e v1 s1 where act: "action v s = (e, v1, s1)" by (cases "action v s") auto
  note r = read_onlyD [OF ro Suc.prems(2) act]
  have this_one: "\<exists>v0 s' s2. J v0 \<and> later s0 s' \<and> tables s' = tables s0 \<and> action v0 s' = (e, v1, s2)"
    using Suc.prems(2,3,4) act by blast
  have s1: "later s0 s1" "tables s1 = tables s0"
    using r Suc.prems(3,4) by (auto intro: later_trans)
  show ?case
  proof (cases "\<exists>x. e = Some x \<and> retriable x")
    case False
    then have "(err, v', t) = (e, v1, s1)"
      using Suc.prems(1) act by (auto split: option.splits)
    with s1 this_one show ?thesis by (auto simp: read_result_def)
  next
    case True
    then obtain x where x: "e = Some x" "retriable x" by blast
    obtain w s2 where w: "wait_delay (RetryingDelay + of_nat n * RetryingDelayStep) s1 = (w, s2)"
      by fastforce
    note ws = wait_delay_frame [OF w]
    have s2: "later s0 s2" "tables s2 = tables s0"
      using s1 ws by (auto intro: later_trans)
    show ?thesis
    proof (cases w)
      case None
      then have "withRetry_loop action (Suc n) k e v1 s2 = (err, v', t)"
        using Suc.prems(1) act w x by simp
      then show ?thesis by (rule Suc.IH) (use s2 r this_one in auto)
    next
      case (Some y)
      then show ?thesis
        using Suc.prems(1) act w x s2 wait_delay_error [of _ s1 y s2]
        by (auto simp: read_result_def)
    qed
  qed
qed

lemma withRetry_spec:
  assumes "read_only J action" "J v" "withRetry action v s = (err, v', t)"
  shows "read_result J action s err v' t"
  using withRetry_loop_spec [OF assms(1) assms(3) [unfolded withRetry_def] assms(2), of s]
  by (simp add: RetryingAttempts_def)

end
