(* ===== verification/Repository.thy ===== *)
theory Repository
  imports Transactions
begin

text \<open>
  What each repository method does to the tables, whatever the script of faults: the effect of
  a successful call, and that a failed one changed nothing unless a commit went unanswered. These
  are the facts the service theories use; the statements and loops are not unfolded again.
\<close>

section \<open>Single statements under faults\<close>

fun fault_error :: "fault \<Rightarrow> driver_error option" where
  "fault_error Deliver = None"
| "fault_error (FailBefore e) = Some e"
| "fault_error (FailAfter e) = Some e"
| "fault_error (CutRows n e) = Some e"

text \<open>The server reports a violated unique constraint only when one is violated.\<close>

definition honest :: "server \<Rightarrow> bool" where
  "honest s \<longleftrightarrow> (\<forall>f\<in>set (faults s). fault_error f \<noteq> Some (PgError UniqueViolation))"

lemma honest_later: "honest s \<Longrightarrow> later s t \<Longrightarrow> honest t"
  using later_faults by (auto simp: honest_def)

text \<open>A statement that moves the server forward, and one that leaves it as it is.\<close>

definition forward :: "(server \<Rightarrow> (go_error + 'r) \<times> server) \<Rightarrow> bool" where
  "forward stmt \<longleftrightarrow> (\<forall>s r t. stmt s = (r, t) \<longrightarrow> later s t \<and> sleeps t = sleeps s)"

definition query_only :: "(server \<Rightarrow> (go_error + 'r) \<times> server) \<Rightarrow> bool" where
  "query_only stmt \<longleftrightarrow> (\<forall>s. snd (stmt s) = s)"

lemma query_only_forward: "query_only stmt \<Longrightarrow> forward stmt"
  by (auto simp: query_only_def forward_def) (metis later_refl snd_conv)+

lemma run_stmt_cases:
  assumes "run_stmt stmt s = (r, t)" "forward stmt"
  obtains (ran) s1 where "later s s1" "tables s1 = tables s" "sleeps s1 = sleeps s"
      "stmt s1 = (r, t)" "later s t" "sleeps t = sleeps s"
  | (broke) f d where "f \<in> set (faults s)" "fault_error f = Some d" "r = Inl (DriverErr d)"
      "later s t" "sleeps t = sleeps s"
proof -
  obtain f s1 where p: "pop_fault s = (f, s1)" by fastforce
  note fr = pop_fault_frame [OF p]
  have st: "later s1 (snd (stmt s1)) \<and> sleeps (snd (stmt s1)) = sleeps s1"
    using assms(2) unfolding forward_def by (metis prod.collapse)
  show thesis
  proof (cases "f = Deliver")
    case True
    then have "stmt s1 = (r, t)" using assms(1) p by (simp add: run_stmt_def)
    then show thesis
      using ran [of s1] fr st by (auto intro: later_trans)
  next
    case False
    then obtain d where d: "fault_error f = Some d" by (cases f) auto
    then have "r = Inl (DriverErr d)" "t = s1 \<or> t = snd (stmt s1)"
      using assms(1) p False by (auto simp: run_stmt_def split: fault.splits)
    then show thesis
      using broke [of f d] d fr st False by (auto intro: later_trans)
  qed
qed

lemma run_stmt_query_only:
  assumes "query_only stmt" "run_stmt stmt s = (r, t)"
  shows "later s t \<and> sleeps t = sleeps s \<and> tables t = tables s"
  using assms pop_fault_frame [of s]
  by (auto simp: run_stmt_def query_only_def split: prod.splits fault.splits) (metis snd_conv)+

section \<open>The statements move forward\<close>

lemma new_uuid_frame: "new_uuid s = (i, t) \<Longrightarrow> later s t \<and> tables t = tables s \<and> sleeps t = sleeps s
    \<and> i = gen_uuid s (id_ctr s) \<and> now t = now s"
  by (auto simp: new_uuid_def later_def)

lemma forward_writes [simp]:
  "forward (QueryInsertUser l h)"
  "forward (QueryUpdateUserBalance u d)"
  "forward (QueryInsertOrder i u st)"
  "forward (QueryUpdateOrder i u st a)"
  "forward (QueryInsertWithdrawn u i a)"
  by (auto simp: forward_def QueryInsertUser_def QueryUpdateUserBalance_def QueryInsertOrder_def
      QueryUpdateOrder_def QueryInsertWithdrawn_def Let_def
      split: prod.splits option.splits list.splits if_splits dest: new_uuid_frame)

lemma query_only_selects [simp]:
  "query_only (QuerySelectUserByLogin l)"
  "query_only (QuerySelectUserByID u)"
  "query_only (QuerySelectOrder i u)"
  "query_only (QuerySelectWithdrawn u)"
  by (auto simp: query_only_def QuerySelectUserByLogin_def QuerySelectUserByID_def
      QuerySelectOrder_def QuerySelectWithdrawn_def Let_def split: option.splits)

section \<open>Effects\<close>

definition user_added :: "user \<Rightarrow> server \<Rightarrow> user \<Rightarrow> server \<Rightarrow> bool" where
  "user_added u s u' t \<longleftrightarrow> (\<exists>n\<ge>id_ctr s. n < id_ctr t \<and>
     char_count (user_Login u) \<le> 32 \<and> char_count (user_Hash u) \<le> 128 \<and>
     (\<forall>r\<in>set (users (tables s)). ur_id r \<noteq> gen_uuid s n \<and> ur_login r \<noteq> user_Login u) \<and>
     u' = u\<lparr>user_ID := gen_uuid s n\<rparr> \<and>
     tables t = (tables s)\<lparr>users := users (tables s) @
       [\<lparr>ur_id = gen_uuid s n, ur_login = user_Login u, ur_hash = user_Hash u, ur_balance = 0,
         ur_version = 1, ur_created = now s\<rparr>]\<rparr>)"

definition order_added :: "order \<Rightarrow> server \<Rightarrow> server \<Rightarrow> bool" where
  "order_added m s t \<longleftrightarrow> (\<exists>uid st. uuid_in s (ord_UserID m) = Some uid \<and>
     status_in (ord_Status m) = Some st \<and> (\<forall>r\<in>set (orders (tables s)). or_id r \<noteq> ord_ID m) \<and>
     tables t = (tables s)\<lparr>orders := orders (tables s) @
       [\<lparr>or_id = ord_ID m, or_user = uid, or_status = st, or_accrual = 0,
         or_uploaded = now s, or_updated = now s\<rparr>]\<rparr>)"

text \<open>The balance of \<open>uid\<close> moved by \<open>d\<close>, its guard included.\<close>

definition balance_moved :: "string \<Rightarrow> int \<Rightarrow> db \<Rightarrow> db \<Rightarrow> bool" where
  "balance_moved uid d a b \<longleftrightarrow> (\<exists>r rs. filter (\<lambda>r. ur_id r = uid) (users a) = r # rs \<and>
     0 < ur_balance r + d \<and> in_int64 (ur_balance r + d) \<and>
     b = a\<lparr>users := map (\<lambda>x. if ur_id x = uid then x\<lparr>ur_balance := ur_balance r + d\<rparr> else x)
            (users a)\<rparr>)"

definition order_upserted :: "string \<Rightarrow> string \<Rightarrow> order_status \<Rightarrow> int \<Rightarrow> time \<Rightarrow> db \<Rightarrow> db" where
  "order_upserted orderID uid st accrual t a =
     a\<lparr>orders := (if \<exists>r\<in>set (orders a). or_id r = orderID
        then map (\<lambda>r. if or_id r = orderID then r\<lparr>or_accrual := accrual, or_status := st\<rparr> else r)
               (orders a)
        else orders a @ [\<lparr>or_id = orderID, or_user = uid, or_status = st, or_accrual = accrual,
               or_uploaded = t, or_updated = t\<rparr>])\<rparr>"

definition order_updated :: "order \<Rightarrow> server \<Rightarrow> server \<Rightarrow> bool" where
  "order_updated m s t \<longleftrightarrow> (\<exists>uid st. uuid_in s (ord_UserID m) = Some uid \<and>
     status_in (ord_Status m) = Some st \<and>
     (let a = order_upserted (ord_ID m) uid st (sint (ord_Accrual m)) (now s) (tables s)
      in if st = PROCESSED \<and> 0 < sint (ord_Accrual m)
         then balance_moved uid (sint (ord_Accrual m)) a (tables t)
         else tables t = a))"

definition withdrawal_added :: "withdrawal \<Rightarrow> server \<Rightarrow> withdrawal \<Rightarrow> server \<Rightarrow> bool" where
  "withdrawal_added wd s wd' t \<longleftrightarrow> (\<exists>uid n. id_ctr s \<le> n \<and> n < id_ctr t \<and>
     uuid_in s (wd_UserID wd) = Some uid \<and>
     (\<forall>r\<in>set (withdrawals (tables s)). wr_id r \<noteq> gen_uuid s n) \<and>
     wd' = wd\<lparr>wd_ID := gen_uuid s n\<rparr> \<and>
     balance_moved uid (sint (- wd_Sum wd))
       ((tables s)\<lparr>withdrawals := withdrawals (tables s) @
          [\<lparr>wr_id = gen_uuid s n, wr_user = uid, wr_order = wd_OrderID wd,
            wr_withdrawn = sint (wd_Sum wd), wr_processed = now s\<rparr>]\<rparr>) (tables t))"

section \<open>Effects of the statements\<close>

lemma later_now: "later s t \<Longrightarrow> now t = now s \<and> uuid_in t = uuid_in s \<and> gen_uuid t = gen_uuid s \<and> id_ctr s \<le> id_ctr t"
  by (simp add: later_def)

lemma QueryInsertUser_Inr:
  "QueryInsertUser l h s = (Inr uid, t) \<Longrightarrow>
   uid = gen_uuid s (id_ctr s) \<and> id_ctr t = Suc (id_ctr s) \<and> char_count l \<le> 32 \<and> char_count h \<le> 128 \<and>
   (\<forall>r\<in>set (users (tables s)). ur_id r \<noteq> uid \<and> ur_login r \<noteq> l) \<and>
   tables t = (tables s)\<lparr>users := users (tables s) @
     [\<lparr>ur_id = uid, ur_login = l, ur_hash = h, ur_balance = 0, ur_version = 1, ur_created = now s\<rparr>]\<rparr>"
  by (auto simp: QueryInsertUser_def new_uuid_def Let_def split: if_splits)

lemma QueryInsertUser_Inl:
  "QueryInsertUser l h s = (Inl e, t) \<Longrightarrow>
   e = too_long \<or> e = unique_violation \<and>
   (\<exists>r\<in>set (users (tables s)). ur_id r = gen_uuid s (id_ctr s) \<or> ur_login r = l)"
  by (auto simp: QueryInsertUser_def new_uuid_def Let_def split: if_splits)

lemma QueryInsertOrder_Inr:
  "QueryInsertOrder i u st s = (Inr x, t) \<Longrightarrow>
   x = i \<and> (\<exists>uid sst. uuid_in s u = Some uid \<and> status_in st = Some sst \<and>
     (\<forall>r\<in>set (orders (tables s)). or_id r \<noteq> i) \<and>
     tables t = (tables s)\<lparr>orders := orders (tables s) @
       [\<lparr>or_id = i, or_user = uid, or_status = sst, or_accrual = 0,
         or_uploaded = now s, or_updated = now s\<rparr>]\<rparr>)"
  by (auto simp: QueryInsertOrder_def split: if_splits option.splits)

lemma QueryInsertOrder_Inl:
  "QueryInsertOrder i u st s = (Inl e, t) \<Longrightarrow>
   e = invalid_text \<or> e = too_long \<or>
   e = unique_violation \<and> (\<exists>r\<in>set (orders (tables s)). or_id r = i)"
  by (auto simp: QueryInsertOrder_def split: if_splits option.splits)

lemma QueryUpdateOrder_Inr:
  "QueryUpdateOrder i u st a s = (Inr x, t) \<Longrightarrow>
   x = i \<and> (\<exists>uid sst. uuid_in s u = Some uid \<and> status_in st = Some sst \<and>
     tables t = order_upserted i uid sst a (now s) (tables s))"
  by (auto simp: QueryUpdateOrder_def order_upserted_def split: if_splits option.splits)

lemma QueryInsertWithdrawn_Inr:
  "QueryInsertWithdrawn u i a s = (Inr x, t) \<Longrightarrow>
   x = gen_uuid s (id_ctr s) \<and> id_ctr t = Suc (id_ctr s) \<and> (\<exists>uid. uuid_in s u = Some uid \<and>
     (\<forall>r\<in>set (withdrawals (tables s)). wr_id r \<noteq> x) \<and>
     tables t = (tables s)\<lparr>withdrawals := withdrawals (tables s) @
       [\<lparr>wr_id = x, wr_user = uid, wr_order = i, wr_withdrawn = a, wr_processed = now s\<rparr>]\<rparr>)"
  by (auto simp: QueryInsertWithdrawn_def new_uuid_def Let_def split: if_splits option.splits)

lemma QueryInsertWithdrawn_Inl:
  "QueryInsertWithdrawn u i a s = (Inl e, t) \<Longrightarrow> \<exists>d. e = DriverErr d"
  by (auto simp: QueryInsertWithdrawn_def new_uuid_def Let_def sql_error_defs split: if_splits option.splits)

lemma QueryUpdateUserBalance_Inl:
  "QueryUpdateUserBalance u d s = (Inl e, t) \<Longrightarrow> e = ErrNoRows \<or> (\<exists>d. e = DriverErr d)"
  by (auto simp: QueryUpdateUserBalance_def Let_def sql_error_defs split: if_splits option.splits list.splits)

lemma QueryUpdateUserBalance_Inr:
  "QueryUpdateUserBalance u d s = (Inr x, t) \<Longrightarrow>
   uuid_in s u = Some x \<and> balance_moved x d (tables s) (tables t)"
  by (auto simp: QueryUpdateUserBalance_def balance_moved_def Let_def
      split: if_splits option.splits list.splits)

lemma updateUserBalanceTx_cases:
  assumes "updateUserBalanceTx u d s = (e, t)"
  shows "later s t \<and> sleeps t = sleeps s \<and>
    (\<forall>x. e = Some x \<longrightarrow> x = UserErr ErrUserBalanceIsNotEnough \<or> (\<exists>d. x = DriverErr d)) \<and>
    (e = None \<longrightarrow> (\<exists>uid. uuid_in s u = Some uid \<and> balance_moved uid (sint d) (tables s) (tables t)))"
proof -
  obtain r s1 where r: "run_stmt (QueryUpdateUserBalance u (sint d)) s = (r, s1)" by fastforce
  have t: "t = s1" "e = None \<Longrightarrow> \<exists>x. r = Inr x"
    "e = Some y \<Longrightarrow> y = UserErr ErrUserBalanceIsNotEnough \<or> r = Inl y \<and> y \<noteq> ErrNoRows" for y
    using assms r by (auto simp: updateUserBalanceTx_def split: sum.splits if_splits)
  show ?thesis
    using r forward_writes(2)
  proof (cases rule: run_stmt_cases)
    case (ran s2)
    then show ?thesis
      using t QueryUpdateUserBalance_Inr [of u "sint d" s2 _ t] later_now [of s s2]
        QueryUpdateUserBalance_Inl [of u "sint d" s2 _ t] by auto
  next
    case (broke f d)
    then show ?thesis using t by auto
  qed
qed

section \<open>The transactions of the repository\<close>

lemma addUserTx_spec:
  assumes "addUserTx u s = (e, u', t)"
  shows "later s t \<and> sleeps t = sleeps s \<and> (\<exists>i. u' = u\<lparr>user_ID := i\<rparr>) \<and>
    (e = None \<longrightarrow> user_added u s u' t) \<and>
    (\<forall>x. e = Some x \<longrightarrow> x = UserErr ErrUserExists \<or> (\<exists>d. x = DriverErr d)) \<and>
    (e = Some (UserErr ErrUserExists) \<and> honest s \<longrightarrow>
      (\<exists>r\<in>set (users (tables s)). ur_login r = user_Login u \<or> (\<exists>n\<ge>id_ctr s. ur_id r = gen_uuid s n)))"
proof -
  obtain r s1 where r: "run_stmt (QueryInsertUser (user_Login u) (user_Hash u)) s = (r, s1)" by fastforce
  have e: "e = (case r of Inl err \<Rightarrow> if errors_As_PgError err = Some UniqueViolation
      then Some (UserErr ErrUserExists) else Some err | Inr _ \<Rightarrow> None)"
    "u' = (case r of Inl _ \<Rightarrow> u | Inr i \<Rightarrow> u\<lparr>user_ID := i\<rparr>)" "t = s1"
    using assms r by (auto simp: addUserTx_def split: sum.splits)
  have same: "\<exists>i. u' = u\<lparr>user_ID := i\<rparr>"
  proof (cases r)
    case (Inl a)
    then show ?thesis using e(2) by (intro exI [of _ "user_ID u"]) simp
  qed (use e(2) in auto)
  show ?thesis
    using r forward_writes(1)
  proof (cases rule: run_stmt_cases)
    case (ran s2)
    note n = later_now [OF ran(1)]
    have "e = None \<longrightarrow> user_added u s u' t"
      using ran(4) n e ran(2,5) QueryInsertUser_Inr [of "user_Login u" "user_Hash u" s2 _ s1]
      by (auto simp: user_added_def split: sum.splits if_splits intro!: exI [of _ "id_ctr s2"])
    moreover have "e = Some (UserErr ErrUserExists) \<longrightarrow>
      (\<exists>r\<in>set (users (tables s)). ur_login r = user_Login u \<or> (\<exists>n\<ge>id_ctr s. ur_id r = gen_uuid s n))"
    proof
      assume "e = Some (UserErr ErrUserExists)"
      then obtain err where err: "r = Inl err"
        "errors_As_PgError err = Some UniqueViolation \<or> err = UserErr ErrUserExists"
        using e(1) by (auto split: sum.splits if_splits)
      then have "r = Inl err" "err \<noteq> too_long" by (auto simp: too_long_def)
      then show "\<exists>r\<in>set (users (tables s)). ur_login r = user_Login u \<or> (\<exists>n\<ge>id_ctr s. ur_id r = gen_uuid s n)"
        using QueryInsertUser_Inl [of "user_Login u" "user_Hash u" s2 err s1] ran n by auto
    qed
    moreover have "\<forall>x. e = Some x \<longrightarrow> x = UserErr ErrUserExists \<or> (\<exists>d. x = DriverErr d)"
      using QueryInsertUser_Inl [of "user_Login u" "user_Hash u" s2 _ s1] ran e
      by (auto simp: sql_error_defs split: sum.splits if_splits)
    ultimately show ?thesis using same ran e by auto
  next
    case (broke f d)
    then show ?thesis using e same by (auto simp: honest_def)
  qed
qed

lemma addOrderTx_spec:
  assumes "addOrderTx m s = (e, m', t)"
  shows "later s t \<and> sleeps t = sleeps s \<and> m' = m \<and>
    (e = None \<longrightarrow> order_added m s t) \<and>
    (\<forall>x. e = Some x \<longrightarrow> x = OrderErr ErrOrderExists \<or> (\<exists>d. x = DriverErr d)) \<and>
    (e = Some (OrderErr ErrOrderExists) \<and> honest s \<longrightarrow>
      (\<exists>r\<in>set (orders (tables s)). or_id r = ord_ID m))"
proof -
  obtain r s1 where r: "run_stmt (QueryInsertOrder (ord_ID m) (ord_UserID m) (ord_Status m)) s = (r, s1)"
    by fastforce
  have e: "e = (case r of Inl err \<Rightarrow> if errors_As_PgError err = Some UniqueViolation
      then Some (OrderErr ErrOrderExists) else Some err | Inr _ \<Rightarrow> None)"
    "m' = (case r of Inl _ \<Rightarrow> m | Inr i \<Rightarrow> m\<lparr>ord_ID := i\<rparr>)" "t = s1"
    using assms r by (auto simp: addOrderTx_def split: sum.splits)
  show ?thesis
    using r forward_writes(3)
  proof (cases rule: run_stmt_cases)
    case (ran s2)
    note n = later_now [OF ran(1)]
    show ?thesis
    proof (cases r)
      case (Inl err)
      then have "errors_As_PgError err = Some UniqueViolation \<or> err = OrderErr ErrOrderExists \<longrightarrow>
        (\<exists>r\<in>set (orders (tables s)). or_id r = ord_ID m)"
        using QueryInsertOrder_Inl [of "ord_ID m" "ord_UserID m" "ord_Status m" s2 err s1] ran
        by (auto simp: sql_error_defs)
      moreover have "\<exists>d. err = DriverErr d"
        using QueryInsertOrder_Inl [of "ord_ID m" "ord_UserID m" "ord_Status m" s2 err s1] ran Inl
        by (auto simp: sql_error_defs)
      ultimately show ?thesis using Inl e ran(5,6) by (auto split: if_splits)
    next
      case (Inr x)
      then show ?thesis
        using QueryInsertOrder_Inr [of "ord_ID m" "ord_UserID m" "ord_Status m" s2 x s1] e ran n
        by (auto simp: order_added_def)
    qed
  next
    case (broke f d)
    then show ?thesis using e by (auto simp: honest_def)
  qed
qed

lemma updateOrderTx_spec:
  assumes "updateOrderTx m s = (e, m', t)"
  shows "later s t \<and> sleeps t = sleeps s \<and> m' = m \<and>
    (e = None \<longrightarrow> (\<exists>uid st. uuid_in s (ord_UserID m) = Some uid \<and> status_in (ord_Status m) = Some st \<and>
       tables t = order_upserted (ord_ID m) uid st (sint (ord_Accrual m)) (now s) (tables s)))"
proof -
  obtain r s1 where r: "run_stmt (QueryUpdateOrder (ord_ID m) (ord_UserID m) (ord_Status m)
      (sint (ord_Accrual m))) s = (r, s1)" by fastforce
  show ?thesis
    using r forward_writes(4)
  proof (cases rule: run_stmt_cases)
    case (ran s2)
    then show ?thesis
      using assms r later_now [OF ran(1)]
        QueryUpdateOrder_Inr [of "ord_ID m" "ord_UserID m" "ord_Status m" "sint (ord_Accrual m)" s2 _ s1]
      by (auto simp: updateOrderTx_def split: sum.splits if_splits)
  next
    case (broke f d)
    then show ?thesis using assms r by (auto simp: updateOrderTx_def split: if_splits)
  qed
qed

lemma status_PROCESSED: "status_in x = Some st \<Longrightarrow> x = OrderProcessedStatus \<longleftrightarrow> st = PROCESSED"
  by (auto simp: status_in_def OrderProcessedStatus_def split: if_splits)

lemma UpdateOrder_tx_spec:
  assumes "UpdateOrder_tx m s = (e, m', t)"
  shows "later s t \<and> sleeps t = sleeps s \<and> m' = m \<and> (e = None \<longrightarrow> order_updated m s t)"
proof -
  obtain e1 m1 s1 where u: "updateOrderTx m s = (e1, m1, s1)" by (rule prod_cases3)
  note us = updateOrderTx_spec [OF u]
  obtain e2 s2 where b: "updateUserBalanceTx (ord_UserID m) (ord_Accrual m) s1 = (e2, s2)" by fastforce
  note bs = updateUserBalanceTx_cases [OF b]
  have l: "later s s2" using us bs later_trans by blast
  show ?thesis
    using assms u us b bs l status_PROCESSED [of "ord_Status m"] later_now [of s s1]
    by (auto simp: UpdateOrder_tx_def order_updated_def Let_def zero_sless_iff
        split: option.splits if_splits prod.splits)
qed

lemma addWithdrawnTx_spec:
  assumes "addWithdrawnTx wd s = (e, wd', t)"
  shows "later s t \<and> sleeps t = sleeps s \<and> (\<exists>i. wd' = wd\<lparr>wd_ID := i\<rparr>) \<and>
    (\<forall>x. e = Some x \<longrightarrow> (\<exists>d. x = DriverErr d)) \<and>
    (e = None \<longrightarrow> (\<exists>uid n. id_ctr s \<le> n \<and> n < id_ctr t \<and> uuid_in s (wd_UserID wd) = Some uid \<and>
       (\<forall>r\<in>set (withdrawals (tables s)). wr_id r \<noteq> gen_uuid s n) \<and> wd' = wd\<lparr>wd_ID := gen_uuid s n\<rparr> \<and>
       tables t = (tables s)\<lparr>withdrawals := withdrawals (tables s) @
          [\<lparr>wr_id = gen_uuid s n, wr_user = uid, wr_order = wd_OrderID wd,
            wr_withdrawn = sint (wd_Sum wd), wr_processed = now s\<rparr>]\<rparr>))"
proof -
  obtain r s1 where r: "run_stmt (QueryInsertWithdrawn (wd_UserID wd) (wd_OrderID wd) (sint (wd_Sum wd))) s
      = (r, s1)" by fastforce
  have e: "e = (case r of Inl err \<Rightarrow> Some err | Inr _ \<Rightarrow> None)"
    "wd' = (case r of Inl _ \<Rightarrow> wd | Inr i \<Rightarrow> wd\<lparr>wd_ID := i\<rparr>)" "t = s1"
    using assms r by (auto simp: addWithdrawnTx_def split: sum.splits)
  have same: "\<exists>i. wd' = wd\<lparr>wd_ID := i\<rparr>"
  proof (cases r)
    case (Inl a)
    then show ?thesis using e(2) by (intro exI [of _ "wd_ID wd"]) simp
  qed (use e(2) in auto)
  show ?thesis
    using r forward_writes(5)
  proof (cases rule: run_stmt_cases)
    case (ran s2)
    note n = later_now [OF ran(1)]
    show ?thesis
    proof (cases r)
      case (Inr x)
      then show ?thesis
        using QueryInsertWithdrawn_Inr [of "wd_UserID wd" "wd_OrderID wd" "sint (wd_Sum wd)" s2 x s1]
          e ran n by (auto intro!: exI [of _ "id_ctr s2"])
    next
      case (Inl x)
      then show ?thesis
        using QueryInsertWithdrawn_Inl [of "wd_UserID wd" "wd_OrderID wd" "sint (wd_Sum wd)" s2 x s1]
          e same ran by auto
    qed
  next
    case (broke f d)
    then show ?thesis using e same by auto
  qed
qed

lemma AddWithdrawn_tx_spec:
  assumes "AddWithdrawn_tx wd s = (e, wd', t)"
  shows "later s t \<and> sleeps t = sleeps s \<and> (\<exists>i. wd' = wd\<lparr>wd_ID := i\<rparr>) \<and>
    (\<forall>x. e = Some x \<longrightarrow> x = UserErr ErrUserBalanceIsNotEnough \<or> (\<exists>d. x = DriverErr d)) \<and>
    (e = None \<longrightarrow> withdrawal_added wd s wd' t)"
proof -
  obtain e1 w1 s1 where a: "addWithdrawnTx wd s = (e1, w1, s1)" by (rule prod_cases3)
  note as = addWithdrawnTx_spec [OF a]
  obtain e2 s2 where b: "updateUserBalanceTx (wd_UserID w1) (- wd_Sum w1) s1 = (e2, s2)" by fastforce
  note bs = updateUserBalanceTx_cases [OF b]
  have l: "later s s2" using as bs later_trans by blast
  show ?thesis
  proof (cases e1)
    case (Some x)
    then show ?thesis using assms a as by (auto simp: AddWithdrawn_tx_def)
  next
    case None
    then have r: "e = e2" "wd' = w1" "t = s2"
      using assms a b by (auto simp: AddWithdrawn_tx_def split: option.splits)
    obtain uid n where n: "id_ctr s \<le> n" "n < id_ctr s1" "uuid_in s (wd_UserID wd) = Some uid"
        "\<forall>r\<in>set (withdrawals (tables s)). wr_id r \<noteq> gen_uuid s n" "w1 = wd\<lparr>wd_ID := gen_uuid s n\<rparr>"
        "tables s1 = (tables s)\<lparr>withdrawals := withdrawals (tables s) @
          [\<lparr>wr_id = gen_uuid s n, wr_user = uid, wr_order = wd_OrderID wd,
            wr_withdrawn = sint (wd_Sum wd), wr_processed = now s\<rparr>]\<rparr>"
      using as None by blast
    have "n < id_ctr s2" using n(2) later_now [of s1 s2] bs by simp
    moreover have "uuid_in s1 (wd_UserID wd) = Some uid" using n(3) later_now [of s s1] as by simp
    ultimately have "withdrawal_added wd s w1 s2" if "e2 = None"
      unfolding withdrawal_added_def using n bs that by (intro exI [of _ uid] exI [of _ n]) simp
    then show ?thesis using as bs l r n(5) by auto
  qed
qed

section \<open>The effects seen from outside a transaction\<close>

lemmas effect_defs = user_added_def order_added_def order_updated_def withdrawal_added_def

lemma effect_outside:
  assumes "later s s1" "tables s1 = tables s" "tables t = tables s2" "later s2 t"
  shows "user_added u s1 u' s2 \<Longrightarrow> user_added u s u' t"
    and "order_added m s1 s2 \<Longrightarrow> order_added m s t"
    and "order_updated m s1 s2 \<Longrightarrow> order_updated m s t"
    and "withdrawal_added wd s1 wd' s2 \<Longrightarrow> withdrawal_added wd s wd' t"
proof -
  note l = later_now [OF assms(1)] later_now [OF assms(4)]
  show "user_added u s u' t" if added: "user_added u s1 u' s2"
  proof -
    obtain n where "id_ctr s1 \<le> n" "n < id_ctr s2" "user_added u s1 u' s2"
      and n: "char_count (user_Login u) \<le> 32" "char_count (user_Hash u) \<le> 128"
        "\<forall>r\<in>set (users (tables s1)). ur_id r \<noteq> gen_uuid s1 n \<and> ur_login r \<noteq> user_Login u"
        "u' = u\<lparr>user_ID := gen_uuid s1 n\<rparr>"
        "tables s2 = (tables s1)\<lparr>users := users (tables s1) @
           [\<lparr>ur_id = gen_uuid s1 n, ur_login = user_Login u, ur_hash = user_Hash u, ur_balance = 0,
             ur_version = 1, ur_created = now s1\<rparr>]\<rparr>"
      using added by (auto simp: user_added_def)
    then have "id_ctr s \<le> n" "n < id_ctr t" using l by auto
    with n show ?thesis
      unfolding user_added_def using assms l by (intro exI [of _ n]) simp
  qed
  show "order_added m s1 s2 \<Longrightarrow> order_added m s t"
    using assms l by (simp add: order_added_def)
  show "order_updated m s1 s2 \<Longrightarrow> order_updated m s t"
    using assms(2,3) l unfolding order_updated_def by (simp only: conj_assoc)
  show "withdrawal_added wd s wd' t" if added: "withdrawal_added wd s1 wd' s2"
  proof -
    obtain uid n where n: "id_ctr s1 \<le> n" "n < id_ctr s2" "uuid_in s1 (wd_UserID wd) = Some uid"
        "\<forall>r\<in>set (withdrawals (tables s1)). wr_id r \<noteq> gen_uuid s1 n" "wd' = wd\<lparr>wd_ID := gen_uuid s1 n\<rparr>"
      "balance_moved uid (sint (- wd_Sum wd))
        ((tables s1)\<lparr>withdrawals := withdrawals (tables s1) @
          [\<lparr>wr_id = gen_uuid s1 n, wr_user = uid, wr_order = wd_OrderID wd,
            wr_withdrawn = sint (wd_Sum wd), wr_processed = now s1\<rparr>]\<rparr>) (tables s2)"
      using added unfolding withdrawal_added_def by blast
    then have "id_ctr s \<le> n" "n < id_ctr t" using l by simp_all
    with n show ?thesis
      unfolding withdrawal_added_def using assms(2,3) l by (intro exI [of _ uid] exI [of _ n]) simp
  qed
qed

text \<open>
  The contract of a writing method: success means its effect, an error means that nothing
  happened, or that the effect happened and the answer to the commit was lost.
\<close>

definition all_or_nothing :: "(server \<Rightarrow> server \<Rightarrow> bool) \<Rightarrow> server \<Rightarrow> go_error option \<Rightarrow> server \<Rightarrow> bool" where
  "all_or_nothing effect s err t \<longleftrightarrow>
     (case err of None \<Rightarrow> effect s t
      | Some e \<Rightarrow> tables t = tables s
          \<or> effect s t \<and> (\<exists>d. e = DriverErr d) \<and> (\<exists>f\<in>set (faults s). lossy f))"

lemma ran_onceD:
  assumes "ran_once J action s v' t"
    and "\<And>v0 s1 s2. J v0 \<Longrightarrow> action v0 s1 = (None, v', s2) \<Longrightarrow> effect s1 s2"
    and "\<And>s1 s2. effect s1 s2 \<Longrightarrow> later s s1 \<Longrightarrow> tables s1 = tables s \<Longrightarrow> tables t = tables s2 \<Longrightarrow>
           later s2 t \<Longrightarrow> effect s t"
  shows "effect s t"
  using assms unfolding ran_once_def by metis

lemma tx_all_or_nothing:
  assumes "tx_result J action s err v' t"
    and "\<And>v0 s1 s2. J v0 \<Longrightarrow> action v0 s1 = (None, v', s2) \<Longrightarrow> effect s1 s2"
    and "\<And>s1 s2. effect s1 s2 \<Longrightarrow> later s s1 \<Longrightarrow> tables s1 = tables s \<Longrightarrow> tables t = tables s2 \<Longrightarrow>
           later s2 t \<Longrightarrow> effect s t"
  shows "all_or_nothing effect s err t"
proof -
  have "ran_once J action s v' t \<Longrightarrow> effect s t"
    by (rule ran_onceD [where effect = effect]) (use assms(2,3) in blast)+
  then show ?thesis
    using assms(1) by (auto simp: tx_result_def all_or_nothing_def split: option.splits)
qed

lemma tx_error:
  assumes "tx_result J action s (Some x) v' t"
    and "\<And>v0 s1 v1 s2. J v0 \<Longrightarrow> action v0 s1 = (Some x, v1, s2) \<Longrightarrow> P x"
    and "\<And>d. P (DriverErr d)"
  shows "P x"
  using assms by (auto simp: tx_result_def failed_with_def)

section \<open>The writing methods\<close>

definition same_but_ID :: "user \<Rightarrow> user \<Rightarrow> bool" where
  "same_but_ID u v \<longleftrightarrow> (\<exists>i. v = u\<lparr>user_ID := i\<rparr>)"

lemma AddUser_spec:
  assumes "AddUser u s = ((err, u'), t)"
  shows "all_or_nothing (\<lambda>s t. user_added u s u' t) s err t"
    and "later s t" and "same_but_ID u u'"
    and "err = Some (UserErr ErrUserExists) \<Longrightarrow> honest s \<Longrightarrow> tables t = tables s \<and>
      (\<exists>r\<in>set (users (tables s)). ur_login r = user_Login u \<or> (\<exists>n\<ge>id_ctr s. ur_id r = gen_uuid s n))"
    and "err = Some x \<Longrightarrow> x = UserErr ErrUserExists \<or> (\<exists>d. x = DriverErr d)"
proof -
  have J: "same_but_ID u u" unfolding same_but_ID_def by (rule exI [of _ "user_ID u"]) simp
  have wb: "well_behaved (same_but_ID u) addUserTx"
    by (auto simp: well_behaved_def same_but_ID_def dest!: addUserTx_spec)
  have r: "tx_result (same_but_ID u) addUserTx s err u' t"
    using assms withTxRetry_spec [OF wb J] by (auto simp: AddUser_def split: prod.splits)
  show "all_or_nothing (\<lambda>s t. user_added u s u' t) s err t"
  proof (rule tx_all_or_nothing [OF r])
    fix v0 s1 s2 assume "same_but_ID u v0" "addUserTx v0 s1 = (None, u', s2)"
    then show "user_added u s1 u' s2"
      using addUserTx_spec [of v0 s1 None u' s2] by (auto simp: same_but_ID_def user_added_def)
  qed (rule effect_outside(1))
  show "later s t" "same_but_ID u u'" using r by (auto simp: tx_result_def)
  show "x = UserErr ErrUserExists \<or> (\<exists>d. x = DriverErr d)" if "err = Some x"
    by (rule tx_error [OF r [unfolded that]]) (blast dest: addUserTx_spec)+
  assume e: "err = Some (UserErr ErrUserExists)" "honest s"
  then obtain v0 s1 v1 s2 where f: "same_but_ID u v0" "later s s1" "tables s1 = tables s"
    "addUserTx v0 s1 = (err, v1, s2)"
    using r by (auto simp: tx_result_def failed_with_def)
  have "user_Login v0 = user_Login u" using f(1) by (auto simp: same_but_ID_def)
  then show "tables t = tables s \<and>
      (\<exists>r\<in>set (users (tables s)). ur_login r = user_Login u \<or> (\<exists>n\<ge>id_ctr s. ur_id r = gen_uuid s n))"
    using r e addUserTx_spec [OF f(4)] honest_later [OF e(2) f(2)] f(3) later_now [OF f(2)]
    by (auto simp: tx_result_def dest: le_trans)
qed

lemma AddOrder_spec:
  assumes "AddOrder m s = ((err, m'), t)"
  shows "all_or_nothing (order_added m) s err t"
    and "later s t" and "m' = m"
    and "err = Some (OrderErr ErrOrderExists) \<Longrightarrow> honest s \<Longrightarrow> tables t = tables s \<and>
      (\<exists>r\<in>set (orders (tables s)). or_id r = ord_ID m)"
    and "err = Some x \<Longrightarrow> x = OrderErr ErrOrderExists \<or> (\<exists>d. x = DriverErr d)"
proof -
  have wb: "well_behaved ((=) m) addOrderTx"
    by (auto simp: well_behaved_def dest!: addOrderTx_spec)
  have r: "tx_result ((=) m) addOrderTx s err m' t"
    using assms withTxRetry_spec [OF wb refl] by (auto simp: AddOrder_def split: prod.splits)
  show "all_or_nothing (order_added m) s err t"
    by (rule tx_all_or_nothing [OF r])
       (use addOrderTx_spec effect_outside(2) in fastforce)+
  show "later s t" "m' = m" using r by (auto simp: tx_result_def)
  show "x = OrderErr ErrOrderExists \<or> (\<exists>d. x = DriverErr d)" if "err = Some x"
    by (rule tx_error [OF r [unfolded that]]) (blast dest: addOrderTx_spec)+
  assume e: "err = Some (OrderErr ErrOrderExists)" "honest s"
  then obtain s1 v1 s2 where f: "later s s1" "tables s1 = tables s" "addOrderTx m s1 = (err, v1, s2)"
    using r by (auto simp: tx_result_def failed_with_def)
  then show "tables t = tables s \<and> (\<exists>r\<in>set (orders (tables s)). or_id r = ord_ID m)"
    using r e addOrderTx_spec [OF f(3)] honest_later [OF e(2) f(1)] by (auto simp: tx_result_def)
qed

lemma UpdateOrder_spec:
  assumes "UpdateOrder m s = ((err, m'), t)"
  shows "all_or_nothing (order_updated m) s err t" and "later s t" and "m' = m"
proof -
  have wb: "well_behaved ((=) m) UpdateOrder_tx"
    by (auto simp: well_behaved_def dest!: UpdateOrder_tx_spec)
  have r: "tx_result ((=) m) UpdateOrder_tx s err m' t"
    using assms withTxRetry_spec [OF wb refl] by (auto simp: UpdateOrder_def split: prod.splits)
  show "all_or_nothing (order_updated m) s err t"
    by (rule tx_all_or_nothing [OF r])
       (use UpdateOrder_tx_spec effect_outside(3) in fastforce)+
  show "later s t" "m' = m" using r by (auto simp: tx_result_def)
qed

lemma AddWithdrawn_spec:
  assumes "AddWithdrawn wd s = ((err, wd'), t)"
  shows "all_or_nothing (\<lambda>s t. withdrawal_added wd s wd' t) s err t"
    and "later s t" and "\<exists>i. wd' = wd\<lparr>wd_ID := i\<rparr>"
    and "err = Some x \<Longrightarrow> x = UserErr ErrUserBalanceIsNotEnough \<or> (\<exists>d. x = DriverErr d)"
proof -
  let ?J = "\<lambda>w. \<exists>i. w = wd\<lparr>wd_ID := i\<rparr>"
  have J: "?J wd" by (rule exI [of _ "wd_ID wd"]) simp
  have wb: "well_behaved ?J AddWithdrawn_tx"
    by (auto simp: well_behaved_def dest!: AddWithdrawn_tx_spec)
  have r: "tx_result ?J AddWithdrawn_tx s err wd' t"
    using assms withTxRetry_spec [OF wb J] by (auto simp: AddWithdrawn_def split: prod.splits)
  show "all_or_nothing (\<lambda>s t. withdrawal_added wd s wd' t) s err t"
  proof (rule tx_all_or_nothing [OF r])
    fix v0 s1 s2 assume "?J v0" "AddWithdrawn_tx v0 s1 = (None, wd', s2)"
    then show "withdrawal_added wd s1 wd' s2"
      using AddWithdrawn_tx_spec [of v0 s1 None wd' s2] by (auto simp: withdrawal_added_def)
  qed (rule effect_outside(4))
  show "later s t" "?J wd'" using r by (auto simp: tx_result_def)
  show "x = UserErr ErrUserBalanceIsNotEnough \<or> (\<exists>d. x = DriverErr d)" if "err = Some x"
    by (rule tx_error [OF r [unfolded that]]) (blast dest: AddWithdrawn_tx_spec)+
qed

section \<open>The reading methods\<close>

lemma first_row_iff:
  "first_row rs = Inr r \<Longrightarrow> r \<in> set rs" "first_row rs = Inl e \<longleftrightarrow> rs = [] \<and> e = ErrNoRows"
  by (auto simp: first_row_def split: list.splits)

text \<open>A select under faults: its rows are those of the tables, or a driver error.\<close>

lemma run_select:
  assumes "query_only q" "run_stmt q s = (r, t)"
  obtains s1 where "later s s1" "tables s1 = tables s" "uuid_in s1 = uuid_in s" "fst (q s1) = r"
  | d where "r = Inl (DriverErr d)"
  using assms(2) query_only_forward [OF assms(1)]
proof (cases rule: run_stmt_cases)
  case (ran s1)
  then show ?thesis using that(1) [of s1] later_now [of s s1] by simp
qed (use that(2) in blast)

text \<open>
  The actions of the reading methods: select, turn an error over with \<open>g\<close>, fill the captured struct
  with \<open>f\<close>. Every field that \<open>f\<close> does not set keeps the property \<open>J\<close> of the zero struct.
\<close>

definition selecting ::
  "(server \<Rightarrow> (go_error + 'r) \<times> server) \<Rightarrow> (go_error \<Rightarrow> go_error) \<Rightarrow> ('r \<Rightarrow> 'v \<Rightarrow> 'v) \<Rightarrow> 'v action" where
  "selecting q g f v s =
     (case run_stmt q s of
        (Inl err, s) \<Rightarrow> (Some (g err), v, s)
      | (Inr r, s) \<Rightarrow> (None, f r v, s))"

definition selected ::
  "(server \<Rightarrow> (go_error + 'r) \<times> server) \<Rightarrow> (go_error \<Rightarrow> go_error) \<Rightarrow> ('r \<Rightarrow> 'v \<Rightarrow> 'v) \<Rightarrow> 'v \<Rightarrow>
   server \<Rightarrow> go_error option \<Rightarrow> 'v \<Rightarrow> bool" where
  "selected q g f v0 s e v \<longleftrightarrow>
     (case e of
        None \<Rightarrow> \<exists>s1 r. tables s1 = tables s \<and> uuid_in s1 = uuid_in s \<and> fst (q s1) = Inr r \<and> v = f r v0
      | Some x \<Rightarrow> (\<exists>d. x = DriverErr d \<or> x = g (DriverErr d)) \<or>
           (\<exists>s1 y. tables s1 = tables s \<and> uuid_in s1 = uuid_in s \<and> fst (q s1) = Inl y \<and> x = g y))"

definition fills :: "('v \<Rightarrow> bool) \<Rightarrow> ('r \<Rightarrow> 'v \<Rightarrow> 'v) \<Rightarrow> 'v \<Rightarrow> bool" where
  "fills J f v0 \<longleftrightarrow> J v0 \<and> (\<forall>r v. J v \<longrightarrow> f r v = f r v0) \<and> (\<forall>r. J (f r v0))"

lemma fillsD: "fills J f v0 \<Longrightarrow> J v \<Longrightarrow> f r v = f r v0 \<and> J (f r v0)"
  unfolding fills_def by blast

lemma selecting_spec:
  assumes q: "query_only q" and f: "fills J f v0" and v: "J v"
    and a: "selecting q g f v s = (e, v', t)"
  shows "later s t \<and> sleeps t = sleeps s \<and> tables t = tables s \<and> J v'" and "selected q g f v0 s e v'"
proof -
  obtain r s1 where r: "run_stmt q s = (r, s1)" by fastforce
  have e: "t = s1" "(e, v') = (case r of Inl err \<Rightarrow> (Some (g err), v) | Inr x \<Rightarrow> (None, f x v0))"
    using a r fillsD [OF f v] by (auto simp: selecting_def split: sum.splits)
  show "later s t \<and> sleeps t = sleeps s \<and> tables t = tables s \<and> J v'"
    using run_stmt_query_only [OF q r] e fillsD [OF f v] v by (auto split: sum.splits)
  show "selected q g f v0 s e v'"
    using q r by (cases rule: run_select) (use e in \<open>auto simp: selected_def split: sum.splits\<close>)
qed

lemma withRetry_selecting:
  assumes q: "query_only q" and f: "fills J f v0"
    and w: "withRetry (selecting q g f) v0 s = (e, v', t)"
  shows "later s t" "tables t = tables s" "selected q g f v0 s e v'"
proof -
  have "read_only J (selecting q g f)"
    unfolding read_only_def using selecting_spec(1) [OF q f] by blast
  then have r: "read_result J (selecting q g f) s e v' t"
    using _ w by (rule withRetry_spec) (use f in \<open>unfold fills_def, blast\<close>)
  then show "later s t" "tables t = tables s" by (auto simp: read_result_def)
  from r consider c where "e = Some (DriverErr (CtxError c))"
    | v1 s1 s2 where "J v1" "tables s1 = tables s" "uuid_in s1 = uuid_in s"
        "selecting q g f v1 s1 = (e, v', s2)"
    using r later_now unfolding read_result_def by fast
  then show "selected q g f v0 s e v'"
  proof cases
    case 2
    then show ?thesis
      using selecting_spec(2) [OF q f 2(1,4)] by (simp only: selected_def 2)
  qed (auto simp: selected_def)
qed

lemma select_user_selecting: "select_user q = selecting q (\<lambda>x. x) scan_user"
  by (intro ext) (simp add: select_user_def selecting_def)

lemma withRetry_select_user:
  assumes "query_only q" "withRetry (select_user q) zero_user s = (e, u, t)"
  shows "later s t" "tables t = tables s" "selected q (\<lambda>x. x) scan_user zero_user s e u"
  using withRetry_selecting [OF assms(1) _ assms(2) [unfolded select_user_selecting],
      of "\<lambda>u. user_Password u = []"]
  by (simp_all add: fills_def scan_user_def zero_user_def)

lemma GetUser_spec:
  assumes "GetUser l s = (r, t)"
  shows "later s t" "tables t = tables s"
    and "r = Inr u \<Longrightarrow> \<exists>row\<in>set (users (tables s)). ur_login row = l \<and> u = scan_user row zero_user"
    and "r = Inl (UserErr ErrUserNotFound) \<Longrightarrow> \<forall>row\<in>set (users (tables s)). ur_login row \<noteq> l"
    and "r = Inl err \<Longrightarrow> err = UserErr ErrUserNotFound \<or> (\<exists>d. err = DriverErr d)"
proof -
  obtain e u1 s1 where w: "withRetry (select_user (QuerySelectUserByLogin l)) zero_user s = (e, u1, s1)"
    by (rule prod_cases3)
  note sp = withRetry_select_user [OF query_only_selects(1) w]
  have r: "s1 = t" "r = (case e of None \<Rightarrow> Inr u1
      | Some x \<Rightarrow> if errors_Is x ErrNoRows then Inl (UserErr ErrUserNotFound) else Inl x)"
    using assms w by (auto simp: GetUser_def split: option.splits if_splits)
  show "later s t" "tables t = tables s" using sp r by simp_all
  show "\<exists>row\<in>set (users (tables s)). ur_login row = l \<and> u = scan_user row zero_user" if "r = Inr u"
    using sp(3) [unfolded selected_def] r that
    by (auto simp: QuerySelectUserByLogin_def split: option.splits if_splits dest!: first_row_iff(1))
  show "\<forall>row\<in>set (users (tables s)). ur_login row \<noteq> l" if "r = Inl (UserErr ErrUserNotFound)"
    using sp(3) [unfolded selected_def] r that
    by (auto simp: QuerySelectUserByLogin_def first_row_iff(2) filter_empty_conv split: option.splits if_splits)
  show "err = UserErr ErrUserNotFound \<or> (\<exists>d. err = DriverErr d)" if "r = Inl err"
    using sp(3) [unfolded selected_def] r that
    by (auto simp: QuerySelectUserByLogin_def first_row_iff(2) split: option.splits if_splits)
qed

lemma GetUserByID_spec:
  assumes "GetUserByID i s = (r, t)"
  shows "later s t" "tables t = tables s"
    and "r = Inr u \<Longrightarrow> \<exists>row\<in>set (users (tables s)). uuid_in s i = Some (ur_id row) \<and> u = scan_user row zero_user"
proof -
  obtain e u1 s1 where w: "withRetry (select_user (QuerySelectUserByID i)) zero_user s = (e, u1, s1)"
    by (rule prod_cases3)
  note sp = withRetry_select_user [OF query_only_selects(2) w]
  have r: "s1 = t" "r = (case e of None \<Rightarrow> Inr u1 | Some x \<Rightarrow> Inl x)"
    using assms w by (auto simp: GetUserByID_def split: option.splits)
  show "later s t" "tables t = tables s" using sp r by simp_all
  show "\<exists>row\<in>set (users (tables s)). uuid_in s i = Some (ur_id row) \<and> u = scan_user row zero_user" if "r = Inr u"
    using sp(3) [unfolded selected_def] r that
    by (fastforce simp: QuerySelectUserByID_def split: option.splits if_splits dest!: first_row_iff(1))
qed

lemma GetOrder_spec:
  assumes "GetOrder i u s = (r, t)"
  shows "later s t" "tables t = tables s"
    and "r = Inr m \<Longrightarrow> \<exists>row\<in>set (orders (tables s)). or_id row = i \<and> uuid_in s u = Some (or_user row) \<and>
           m = scan_order row zero_order"
    and "r = Inl (OrderErr ErrOrderNotFound) \<Longrightarrow>
           \<forall>row\<in>set (orders (tables s)). or_id row = i \<longrightarrow> uuid_in s u \<noteq> Some (or_user row)"
    and "r = Inl err \<Longrightarrow> err = OrderErr ErrOrderNotFound \<or> (\<exists>d. err = DriverErr d)"
proof -
  let ?g = "\<lambda>err. if errors_Is err ErrNoRows then OrderErr ErrOrderNotFound else err"
  have sel: "(\<lambda>m s. case run_stmt (QuerySelectOrder i u) s of
                 (Inl err, s) \<Rightarrow>
                   if errors_Is err ErrNoRows then (Some (OrderErr ErrOrderNotFound), m, s)
                   else (Some err, m, s)
               | (Inr r, s) \<Rightarrow> (None, scan_order r m, s)) = selecting (QuerySelectOrder i u) ?g scan_order"
    by (intro ext) (simp add: selecting_def split: prod.splits sum.splits)
  obtain e m1 s1 where w: "withRetry (selecting (QuerySelectOrder i u) ?g scan_order) zero_order s = (e, m1, s1)"
    by (rule prod_cases3)
  have sp: "later s s1" "tables s1 = tables s" "selected (QuerySelectOrder i u) ?g scan_order zero_order s e m1"
    using withRetry_selecting [OF query_only_selects(3) _ w, of "\<lambda>_. True"]
    by (simp_all add: fills_def scan_order_def)
  have r: "s1 = t" "r = (case e of None \<Rightarrow> Inr m1 | Some x \<Rightarrow> Inl x)"
    using assms w unfolding GetOrder_def sel by (auto split: option.splits)
  show "later s t" "tables t = tables s" using sp r by simp_all
  show "\<exists>row\<in>set (orders (tables s)). or_id row = i \<and> uuid_in s u = Some (or_user row) \<and>
      m = scan_order row zero_order" if "r = Inr m"
    using sp(3) [unfolded selected_def] r that
    by (fastforce simp: QuerySelectOrder_def split: option.splits if_splits dest!: first_row_iff(1))
  show "\<forall>row\<in>set (orders (tables s)). or_id row = i \<longrightarrow> uuid_in s u \<noteq> Some (or_user row)"
    if "r = Inl (OrderErr ErrOrderNotFound)"
    using sp(3) [unfolded selected_def] r that
    by (auto simp: QuerySelectOrder_def first_row_iff(2) filter_empty_conv invalid_text_def
        split: option.splits if_splits)
  show "err = OrderErr ErrOrderNotFound \<or> (\<exists>d. err = DriverErr d)" if "r = Inl err"
    using sp(3) [unfolded selected_def] r that
    by (auto simp: QuerySelectOrder_def first_row_iff(2) invalid_text_def split: option.splits if_splits)
qed

text \<open>The amount withdrawn so far by \<open>uid\<close>.\<close>

definition withdrawn_sum :: "string \<Rightarrow> db \<Rightarrow> int" where
  "withdrawn_sum uid d = sum_list (map wr_withdrawn (filter (\<lambda>r. wr_user r = uid) (withdrawals d)))"

lemma GetWithdrawn_spec:
  assumes "GetWithdrawn u s = (r, t)"
  shows "later s t" "tables t = tables s"
    and "r = Inr m \<Longrightarrow> \<exists>uid. uuid_in s u = Some uid \<and> sint (wd_Sum m) = withdrawn_sum uid (tables s)"
    and "r = Inl ErrWithdrawnNotFound \<Longrightarrow>
           \<forall>row\<in>set (withdrawals (tables s)). uuid_in s u \<noteq> Some (wr_user row)"
    and "r = Inl err \<Longrightarrow> err = ErrWithdrawnNotFound \<or> err = ErrScan \<or> (\<exists>d. err = DriverErr d)"
proof -
  let ?g = "\<lambda>err. if errors_Is err ErrNoRows then ErrWithdrawnNotFound else err"
  let ?f = "\<lambda>(uid, amount) wd. wd\<lparr>wd_UserID := uid, wd_Sum := word_of_int amount\<rparr>"
  have sel: "(\<lambda>wd s. case run_stmt (QuerySelectWithdrawn u) s of
                 (Inl err, s) \<Rightarrow>
                   if errors_Is err ErrNoRows then (Some ErrWithdrawnNotFound, wd, s)
                   else (Some err, wd, s)
               | (Inr (uid, amount), s) \<Rightarrow>
                   (None, wd\<lparr>wd_UserID := uid, wd_Sum := word_of_int amount\<rparr>, s))
      = selecting (QuerySelectWithdrawn u) ?g ?f"
    by (intro ext) (simp add: selecting_def split: prod.splits sum.splits)
  obtain e m1 s1 where w: "withRetry (selecting (QuerySelectWithdrawn u) ?g ?f) zero_withdrawal s = (e, m1, s1)"
    by (rule prod_cases3)
  have "fills (\<lambda>wd. wd_ID wd = [] \<and> wd_OrderID wd = [] \<and> wd_ProcessedAt wd = 0) ?f zero_withdrawal"
    unfolding fills_def by (intro conjI allI impI withdrawal.equality; simp add: zero_withdrawal_def split_beta)
  note sp = withRetry_selecting [OF query_only_selects(4) this w]
  have r: "s1 = t" "r = (case e of None \<Rightarrow> Inr m1 | Some x \<Rightarrow> Inl x)"
    using assms w unfolding GetWithdrawn_def sel by (auto split: option.splits)
  show "later s t" "tables t = tables s" using sp r by simp_all
  show "\<exists>uid. uuid_in s u = Some uid \<and> sint (wd_Sum m) = withdrawn_sum uid (tables s)" if "r = Inr m"
    using sp(3) [unfolded selected_def] r that
    by (auto simp: QuerySelectWithdrawn_def Let_def withdrawn_sum_def split: option.splits if_splits)
  show "\<forall>row\<in>set (withdrawals (tables s)). uuid_in s u \<noteq> Some (wr_user row)"
    if "r = Inl ErrWithdrawnNotFound"
    using sp(3) [unfolded selected_def] r that
    by (auto simp: QuerySelectWithdrawn_def Let_def filter_empty_conv invalid_text_def
        split: option.splits if_splits)
  show "err = ErrWithdrawnNotFound \<or> err = ErrScan \<or> (\<exists>d. err = DriverErr d)" if "r = Inl err"
    using sp(3) [unfolded selected_def] r that
    by (auto simp: QuerySelectWithdrawn_def Let_def invalid_text_def split: option.splits if_splits)
qed

end
