(* ===== verification/Ledger.thy ===== *)
theory Ledger
  imports Repository
begin

text \<open>
  The books of the shop: what the tables owe each user. The keys of the tables stay unique, no
  balance is negative, and for every user the balance and the withdrawals add up to what processed
  orders have earned, as long as an order is not processed a second time.
\<close>

section \<open>The books\<close>

definition balance_of :: "string \<Rightarrow> db \<Rightarrow> int" where
  "balance_of uid d = sum_list (map ur_balance (filter (\<lambda>r. ur_id r = uid) (users d)))"

definition credited :: "string \<Rightarrow> db \<Rightarrow> int" where
  "credited uid d = sum_list (map or_accrual
     (filter (\<lambda>r. or_user r = uid \<and> or_status r = PROCESSED) (orders d)))"

definition keys_ok :: "db \<Rightarrow> bool" where
  "keys_ok d \<longleftrightarrow> distinct (map ur_id (users d)) \<and> distinct (map ur_login (users d)) \<and>
     distinct (map or_id (orders d)) \<and> distinct (map wr_id (withdrawals d))"

definition balances_ok :: "db \<Rightarrow> bool" where
  "balances_ok d \<longleftrightarrow> (\<forall>r\<in>set (users d). 0 \<le> ur_balance r \<and> ur_balance r \<le> int64_max)"

definition books_balance :: "db \<Rightarrow> bool" where
  "books_balance d \<longleftrightarrow> (\<forall>uid. balance_of uid d + withdrawn_sum uid d = credited uid d)"

definition ledger :: "db \<Rightarrow> bool" where
  "ledger d \<longleftrightarrow> keys_ok d \<and> balances_ok d \<and> books_balance d"

section \<open>What each effect does to the books\<close>

lemma filter_ids_distinct:
  "distinct (map f xs) \<Longrightarrow> x \<in> set xs \<Longrightarrow> filter (\<lambda>y. f y = f x) xs = [x]"
  by (induction xs) (auto simp: filter_empty_conv image_iff)

lemma map_upd_id [simp]:
  "map (g \<circ> (\<lambda>x. if P x then x\<lparr>ur_balance := b\<rparr> else x)) xs = map g xs"
  if "\<And>x. g (x\<lparr>ur_balance := b\<rparr>) = g x" for g :: "user_row \<Rightarrow> string"
  using that by (induction xs) auto

lemma balance_moved_books:
  assumes "balance_moved uid d a b" "keys_ok a"
  shows "orders b = orders a" "withdrawals b = withdrawals a" "keys_ok b"
    and "balance_of x b = balance_of x a + (if x = uid then d else 0)"
    and "balances_ok a \<Longrightarrow> balances_ok b"
    and "0 < balance_of uid b"
proof -
  obtain r rs where r: "filter (\<lambda>r. ur_id r = uid) (users a) = r # rs"
    "0 < ur_balance r + d" "in_int64 (ur_balance r + d)"
    and b: "b = a\<lparr>users := map (\<lambda>x. if ur_id x = uid then x\<lparr>ur_balance := ur_balance r + d\<rparr> else x)
            (users a)\<rparr>"
    using assms(1) by (auto simp: balance_moved_def)
  have rin: "r \<in> set (users a)" "ur_id r = uid"
    using r(1) by (auto dest: filter_eq_ConsD)
  have one: "filter (\<lambda>r. ur_id r = uid) (users a) = [r]"
    using filter_ids_distinct [of ur_id "users a" r] assms(2) rin by (simp add: keys_ok_def)
  show "orders b = orders a" "withdrawals b = withdrawals a" by (simp_all add: b)
  show "keys_ok b" using assms(2) by (simp add: b keys_ok_def)
  show "balances_ok a \<Longrightarrow> balances_ok b"
    using r(2,3) by (auto simp: b balances_ok_def in_int64_def)
  let ?f = "\<lambda>x. if ur_id x = uid then x\<lparr>ur_balance := ur_balance r + d\<rparr> else x"
  have other: "x \<noteq> uid \<Longrightarrow> sum_list (map ur_balance (filter (\<lambda>r. ur_id r = x) (map ?f us)))
      = sum_list (map ur_balance (filter (\<lambda>r. ur_id r = x) us))" for x us
    by (induction us) auto
  have fm: "filter (\<lambda>r. ur_id r = uid) (map ?f us) = map ?f (filter (\<lambda>r. ur_id r = uid) us)" for us
    by (induction us) auto
  have own: "balance_of uid b = ur_balance r + d"
    using one rin by (simp add: balance_of_def b fm)
  then show "0 < balance_of uid b" using r(2) by simp
  show "balance_of x b = balance_of x a + (if x = uid then d else 0)"
    using own other [of x "users a"] one by (auto simp: balance_of_def b)
qed

definition updatable :: "string \<Rightarrow> string \<Rightarrow> db \<Rightarrow> bool" where
  "updatable i uid d \<longleftrightarrow>
     (\<forall>r\<in>set (orders d). or_id r = i \<longrightarrow> or_user r = uid \<and> or_status r \<noteq> PROCESSED)"

lemma order_upserted_books:
  fixes i uid st accrual t a
  defines "b \<equiv> order_upserted i uid st accrual t a"
  shows "users b = users a" "withdrawals b = withdrawals a" "keys_ok a \<Longrightarrow> keys_ok b"
    and "keys_ok a \<Longrightarrow> updatable i uid a \<Longrightarrow>
      credited x b = credited x a + (if x = uid \<and> st = PROCESSED then accrual else 0)"
proof -
  let ?f = "\<lambda>r. if or_id r = i then r\<lparr>or_accrual := accrual, or_status := st\<rparr> else r"
  have ids: "map (or_id \<circ> ?f) xs = map or_id xs" for xs by (induction xs) auto
  show "users b = users a" "withdrawals b = withdrawals a" by (simp_all add: b_def order_upserted_def)
  show "keys_ok b" if "keys_ok a"
    using that by (auto simp: b_def order_upserted_def keys_ok_def ids image_iff)
  let ?c = "\<lambda>x xs. sum_list (map or_accrual (filter (\<lambda>r. or_user r = x \<and> or_status r = PROCESSED) xs))"
  have miss: "\<forall>r\<in>set xs. or_id r \<noteq> i \<Longrightarrow> ?c x (map ?f xs) = ?c x xs" for xs
    by (induction xs) auto
  have hit: "distinct (map or_id xs) \<Longrightarrow> \<exists>r\<in>set xs. or_id r = i \<Longrightarrow>
      \<forall>r\<in>set xs. or_id r = i \<longrightarrow> or_user r = uid \<and> or_status r \<noteq> PROCESSED \<Longrightarrow>
      ?c x (map ?f xs) = ?c x xs + (if x = uid \<and> st = PROCESSED then accrual else 0)" for xs
  proof (induction xs)
    case (Cons y xs)
    show ?case
    proof (cases "or_id y = i")
      case True
      with Cons.prems(1) have "\<forall>r\<in>set xs. or_id r \<noteq> i" by (metis distinct.simps(2) image_eqI list.set_map list.simps(9))
      note miss [OF this]
      then show ?thesis using Cons.prems(3) True by auto
    next
      case False
      then show ?thesis using Cons by auto
    qed
  qed simp
  show "credited x b = credited x a + (if x = uid \<and> st = PROCESSED then accrual else 0)"
    if "keys_ok a" "updatable i uid a"
  proof (cases "\<exists>r\<in>set (orders a). or_id r = i")
    case True
    then show ?thesis
      using hit [of "orders a"] that by (simp add: credited_def b_def order_upserted_def keys_ok_def updatable_def)
  next
    case False
    then show ?thesis by (auto simp: credited_def b_def order_upserted_def)
  qed
qed

lemma books_congs:
  "users b = users a \<Longrightarrow> balance_of x b = balance_of x a"
  "users b = users a \<Longrightarrow> balances_ok b = balances_ok a"
  "orders b = orders a \<Longrightarrow> credited x b = credited x a"
  "withdrawals b = withdrawals a \<Longrightarrow> withdrawn_sum x b = withdrawn_sum x a"
  by (simp_all add: balance_of_def balances_ok_def credited_def withdrawn_sum_def)

section \<open>The effects keep the ledger\<close>

lemma user_added_ledger:
  assumes "user_added u s u' t" "ledger (tables s)"
  shows "ledger (tables t)"
proof -
  obtain n where n: "\<forall>r\<in>set (users (tables s)). ur_id r \<noteq> gen_uuid s n \<and> ur_login r \<noteq> user_Login u"
    and t: "tables t = (tables s)\<lparr>users := users (tables s) @
       [\<lparr>ur_id = gen_uuid s n, ur_login = user_Login u, ur_hash = user_Hash u, ur_balance = 0,
         ur_version = 1, ur_created = now s\<rparr>]\<rparr>"
    using assms(1) by (auto simp: user_added_def)
  have "keys_ok (tables t)" "balances_ok (tables t)"
    using n assms(2) by (auto simp: t ledger_def keys_ok_def balances_ok_def)
  moreover have "balance_of x (tables t) = balance_of x (tables s)" for x
    by (simp add: t balance_of_def)
  ultimately show ?thesis
    using assms(2) books_congs(3,4) [of "tables t" "tables s"] by (simp add: ledger_def books_balance_def t)
qed

lemma order_added_ledger:
  assumes "order_added m s t" "ledger (tables s)"
  shows "ledger (tables t)"
proof -
  obtain uid st where n: "\<forall>r\<in>set (orders (tables s)). or_id r \<noteq> ord_ID m"
    and t: "tables t = (tables s)\<lparr>orders := orders (tables s) @
       [\<lparr>or_id = ord_ID m, or_user = uid, or_status = st, or_accrual = 0,
         or_uploaded = now s, or_updated = now s\<rparr>]\<rparr>"
    using assms(1) by (auto simp: order_added_def)
  have "keys_ok (tables t)"
    using n assms(2) by (auto simp: t ledger_def keys_ok_def)
  moreover have "credited x (tables t) = credited x (tables s)" for x
    by (simp add: t credited_def)
  ultimately show ?thesis
    using assms(2) books_congs(1,2,4) [of "tables t" "tables s"]
    by (simp add: ledger_def books_balance_def t)
qed

lemma order_updated_ledger:
  assumes "order_updated m s t" "ledger (tables s)" "0 \<le> sint (ord_Accrual m)"
    and "\<And>uid. uuid_in s (ord_UserID m) = Some uid \<Longrightarrow> updatable (ord_ID m) uid (tables s)"
  shows "ledger (tables t)"
proof -
  obtain uid st where uid: "uuid_in s (ord_UserID m) = Some uid"
    and t: "let a = order_upserted (ord_ID m) uid st (sint (ord_Accrual m)) (now s) (tables s)
      in if st = PROCESSED \<and> 0 < sint (ord_Accrual m)
         then balance_moved uid (sint (ord_Accrual m)) a (tables t)
         else tables t = a"
    using assms(1) by (auto simp: order_updated_def)
  define a where "a = order_upserted (ord_ID m) uid st (sint (ord_Accrual m)) (now s) (tables s)"
  note a = order_upserted_books [where i = "ord_ID m" and uid = uid and st = st
    and accrual = "sint (ord_Accrual m)" and t = "now s" and a = "tables s", folded a_def]
  have s: "keys_ok (tables s)" "balances_ok (tables s)" "books_balance (tables s)"
    using assms(2) by (simp_all add: ledger_def)
  have ka: "keys_ok a" "balances_ok a"
    "balance_of x a = balance_of x (tables s)" "withdrawn_sum x a = withdrawn_sum x (tables s)"
    "credited x a = credited x (tables s) + (if x = uid \<and> st = PROCESSED then sint (ord_Accrual m) else 0)" for x
    using a s assms(4) [OF uid] books_congs [of a "tables s"] by simp_all
  show ?thesis
  proof (cases "st = PROCESSED \<and> 0 < sint (ord_Accrual m)")
    case True
    then have mv: "balance_moved uid (sint (ord_Accrual m)) a (tables t)"
      using t by (simp add: a_def Let_def)
    note m = balance_moved_books [OF mv ka(1)]
    then show ?thesis
      using ka s True books_congs(3,4) [of "tables t" a]
      by (auto simp: ledger_def books_balance_def)
  next
    case False
    then have "tables t = a" using t by (simp add: a_def Let_def)
    moreover have "books_balance a"
      using False assms(3) ka(3-5) s(3) by (auto simp: books_balance_def)
    ultimately show ?thesis using ka by (simp add: ledger_def)
  qed
qed

lemma withdrawal_added_books:
  assumes "withdrawal_added wd s wd' t" "keys_ok (tables s)" "balances_ok (tables s)"
  shows "\<exists>uid. uuid_in s (wd_UserID wd) = Some uid \<and>
      0 < balance_of uid (tables t) \<and> keys_ok (tables t) \<and> balances_ok (tables t) \<and>
      orders (tables t) = orders (tables s) \<and>
      (\<forall>x. balance_of x (tables t) = balance_of x (tables s) - (if x = uid then sint (wd_Sum wd) else 0) \<and>
           withdrawn_sum x (tables t) = withdrawn_sum x (tables s) + (if x = uid then sint (wd_Sum wd) else 0))"
proof -
  obtain uid n where uid: "uuid_in s (wd_UserID wd) = Some uid"
    and n: "\<forall>r\<in>set (withdrawals (tables s)). wr_id r \<noteq> gen_uuid s n"
    and mv: "balance_moved uid (sint (- wd_Sum wd))
       ((tables s)\<lparr>withdrawals := withdrawals (tables s) @
          [\<lparr>wr_id = gen_uuid s n, wr_user = uid, wr_order = wd_OrderID wd,
            wr_withdrawn = sint (wd_Sum wd), wr_processed = now s\<rparr>]\<rparr>) (tables t)"
    (is "balance_moved _ _ ?a _")
    using assms(1) by (auto simp: withdrawal_added_def)
  have ka: "keys_ok ?a" "balances_ok ?a"
    using n assms(2,3) by (auto simp: keys_ok_def balances_ok_def)
  note m = balance_moved_books [OF mv ka(1)]
  have "sint (wd_Sum wd) \<noteq> int64_min"
  proof
    assume min: "sint (wd_Sum wd) = int64_min"
    then have "sint (- wd_Sum wd) = int64_min" by (simp only: minus_int64_min)
    then have "0 < ur_balance r + int64_min" if "filter (\<lambda>r. ur_id r = uid) (users (tables s)) = r # rs" for r rs
      using mv min that by (auto simp: balance_moved_def)
    moreover obtain r rs where "filter (\<lambda>r. ur_id r = uid) (users (tables s)) = r # rs"
      using mv by (auto simp: balance_moved_def)
    ultimately show False
      using assms(3) by (fastforce simp: balances_ok_def dest: filter_eq_ConsD)
  qed
  then have neg: "sint (- wd_Sum wd) = - sint (wd_Sum wd)" by (rule sint_minus_int64)
  show ?thesis
    by (intro exI [of _ uid] conjI allI)
       (use uid m ka neg in \<open>auto simp: balance_of_def withdrawn_sum_def\<close>)
qed

lemma withdrawal_added_ledger:
  assumes "withdrawal_added wd s wd' t" "ledger (tables s)"
  shows "ledger (tables t)"
  using withdrawal_added_books [OF assms(1)] assms(2) books_congs(3) [of "tables t" "tables s"]
  by (auto simp: ledger_def books_balance_def)

section \<open>Sequences of calls\<close>

datatype call = CallAddUser user | CallAddOrder order | CallUpdateOrder order
  | CallAddWithdrawn withdrawal

fun perform :: "call \<Rightarrow> server \<Rightarrow> server" where
  "perform (CallAddUser u) s = snd (AddUser u s)"
| "perform (CallAddOrder m) s = snd (AddOrder m s)"
| "perform (CallUpdateOrder m) s = snd (UpdateOrder m s)"
| "perform (CallAddWithdrawn wd) s = snd (AddWithdrawn wd s)"

text \<open>
  What the caller of \<open>UpdateOrder\<close> has to see to itself: the accrual is not negative, and the order,
  where it is stored, is that user's and not processed already.
\<close>

fun admissible :: "call \<Rightarrow> server \<Rightarrow> bool" where
  "admissible (CallUpdateOrder m) s = (0 \<le> sint (ord_Accrual m) \<and>
     (case uuid_in s (ord_UserID m) of None \<Rightarrow> True | Some uid \<Rightarrow> updatable (ord_ID m) uid (tables s)))"
| "admissible _ s = True"

definition empty_db :: db where
  "empty_db = \<lparr>users = [], orders = [], withdrawals = []\<rparr>"

inductive history :: "server \<Rightarrow> bool" where
  start: "tables s = empty_db \<Longrightarrow> history s"
| "call": "history s \<Longrightarrow> admissible c s \<Longrightarrow> history (perform c s)"

lemma all_or_nothing_ledger:
  assumes "all_or_nothing effect s err t" "ledger (tables s)"
    and "effect s t \<Longrightarrow> ledger (tables t)"
  shows "ledger (tables t)"
  using assms by (auto simp: all_or_nothing_def split: option.splits)

lemma perform_ledger:
  assumes "ledger (tables s)" "admissible c s"
  shows "ledger (tables (perform c s))"
proof (cases c)
  case (CallAddUser u)
  obtain err u' t where "AddUser u s = ((err, u'), t)" by (metis prod.collapse)
  with CallAddUser show ?thesis
    using all_or_nothing_ledger [OF AddUser_spec(1) assms(1)] user_added_ledger assms(1) by auto
next
  case (CallAddOrder m)
  obtain err m' t where "AddOrder m s = ((err, m'), t)" by (metis prod.collapse)
  with CallAddOrder show ?thesis
    using all_or_nothing_ledger [OF AddOrder_spec(1) assms(1)] order_added_ledger assms(1) by auto
next
  case (CallUpdateOrder m)
  obtain err m' t where "UpdateOrder m s = ((err, m'), t)" by (metis prod.collapse)
  with CallUpdateOrder show ?thesis
    using all_or_nothing_ledger [OF UpdateOrder_spec(1) assms(1)] order_updated_ledger [of m s t] assms
    by (auto split: option.splits)
next
  case (CallAddWithdrawn wd)
  obtain err wd' t where "AddWithdrawn wd s = ((err, wd'), t)" by (metis prod.collapse)
  with CallAddWithdrawn show ?thesis
    using all_or_nothing_ledger [OF AddWithdrawn_spec(1) assms(1)] withdrawal_added_ledger assms(1) by auto
qed

lemma ledger_empty: "ledger empty_db"
  by (simp add: ledger_def keys_ok_def balances_ok_def books_balance_def balance_of_def credited_def
      withdrawn_sum_def empty_db_def)

lemma history_ledger_inv: "history s \<Longrightarrow> ledger (tables s)"
  by (induction rule: history.induct) (simp_all add: ledger_empty perform_ledger)

text \<open>C7. Whatever calls the repository serves, in whatever order and with whatever failures of
the database, retries included: keys stay unique, no balance is negative, and for every user
balance plus withdrawals equals what processed orders have earned, provided that no order is
processed twice or for another user.\<close>
theorem ledger_of_history:
  assumes "history s"
  shows "keys_ok (tables s) \<and> balances_ok (tables s) \<and>
    balance_of uid (tables s) + withdrawn_sum uid (tables s) = credited uid (tables s)"
  using history_ledger_inv [OF assms] by (simp add: ledger_def books_balance_def)

text \<open>A server for concrete runs: every text is its own UUID, new ones are \<open>u\<close>, \<open>uu\<close> and so on.\<close>

definition demo_server :: server where
  "demo_server = \<lparr>tables = empty_db, uuid_in = Some, gen_uuid = (\<lambda>n. replicate (Suc n) (CHR ''u'')),
     id_ctr = 0, now = 7, faults = [], cancels = [], sleeps = []\<rparr>"

definition demo_user :: user where
  "demo_user = NewUser ''anna'' ''password'' ''hash'' 0"

definition demo_order :: "Accrual \<Rightarrow> order" where
  "demo_order a = zero_order\<lparr>ord_ID := ''79927398713'', ord_UserID := ''u'',
     ord_Status := ''PROCESSED'', ord_Accrual := a\<rparr>"

definition demo_withdrawal :: "Accrual \<Rightarrow> withdrawal" where
  "demo_withdrawal a = zero_withdrawal\<lparr>wd_UserID := ''u'', wd_OrderID := ''0'', wd_Sum := a\<rparr>"

text \<open>A user has registered, an order has been processed and earned \<open>a\<close>.\<close>

definition demo_credited :: "Accrual \<Rightarrow> server" where
  "demo_credited a = perform (CallUpdateOrder (demo_order a)) (perform (CallAddUser demo_user) demo_server)"

lemmas demo_defs = demo_server_def demo_user_def demo_order_def demo_withdrawal_def
  empty_db_def NewUser_def zero_user_def zero_order_def zero_withdrawal_def

lemmas run_defs = AddUser_def AddOrder_def UpdateOrder_def AddWithdrawn_def withTxRetry_def
  withRetry_def RetryingAttempts_def BeginTx_def Commit_def Rollback_def pop_fault_def run_stmt_def
  addUserTx_def addOrderTx_def UpdateOrder_tx_def updateOrderTx_def updateUserBalanceTx_def
  AddWithdrawn_tx_def addWithdrawnTx_def QueryInsertUser_def QueryInsertOrder_def
  QueryUpdateOrder_def QueryUpdateUserBalance_def QueryInsertWithdrawn_def new_uuid_def
  char_count_def status_in_def status_defs numeral_3_eq_3 Let_def

lemma demo_registered:
  "perform (CallAddUser demo_user) demo_server = demo_server\<lparr>id_ctr := 1, tables := empty_db\<lparr>users :=
     [\<lparr>ur_id = ''u'', ur_login = ''anna'', ur_hash = ''hash'', ur_balance = 0, ur_version = 1,
       ur_created = 7\<rparr>]\<rparr>\<rparr>"
  by (simp add: run_defs demo_defs)

lemma demo_credited_500:
  "demo_credited 500 = demo_server\<lparr>id_ctr := 1, tables := \<lparr>users =
     [\<lparr>ur_id = ''u'', ur_login = ''anna'', ur_hash = ''hash'', ur_balance = 500, ur_version = 1,
       ur_created = 7\<rparr>], orders = [\<lparr>or_id = ''79927398713'', or_user = ''u'', or_status = PROCESSED,
       or_accrual = 500, or_uploaded = 7, or_updated = 7\<rparr>], withdrawals = []\<rparr>\<rparr>"
  unfolding demo_credited_def demo_registered
  by (simp add: run_defs demo_defs zero_sless_iff in_int64_def)

lemma demo_history: "history (demo_credited 500)"
proof -
  have "history (perform (CallAddUser demo_user) demo_server)"
    by (intro history.call history.start) (simp_all add: demo_server_def)
  moreover have "admissible (CallUpdateOrder (demo_order 500)) (perform (CallAddUser demo_user) demo_server)"
    unfolding demo_registered by (simp add: demo_defs updatable_def)
  ultimately show ?thesis
    unfolding demo_credited_def by (rule history.call)
qed

lemma ledger_of_history_witness:
  "keys_ok (tables (demo_credited 500)) \<and> balances_ok (tables (demo_credited 500)) \<and>
   balance_of ''u'' (tables (demo_credited 500)) + withdrawn_sum ''u'' (tables (demo_credited 500))
     = credited ''u'' (tables (demo_credited 500))"
  by (rule ledger_of_history [OF demo_history])

section \<open>Withdrawing and crediting\<close>

text \<open>A withdrawal that succeeds takes its sum from the balance of its user, leaves something
on it, and touches nobody else; one that fails changes no table, unless the answer to a
commit was lost.\<close>
lemma AddWithdrawn_moves_money:
  assumes "AddWithdrawn wd s = ((err, wd'), t)" and "ledger (tables s)"
    and "err = None \<or> (\<forall>f\<in>set (faults s). \<not> lossy f)"
  shows "case err of
      Some e \<Rightarrow> tables t = tables s
    | None \<Rightarrow> (\<exists>uid. uuid_in s (wd_UserID wd) = Some uid \<and>
        0 < balance_of uid (tables t) \<and>
        orders (tables t) = orders (tables s) \<and>
        (\<forall>x. balance_of x (tables t) = balance_of x (tables s) - (if x = uid then sint (wd_Sum wd) else 0) \<and>
             withdrawn_sum x (tables t) = withdrawn_sum x (tables s) + (if x = uid then sint (wd_Sum wd) else 0)))"
proof (cases err)
  case None
  then have "withdrawal_added wd s wd' t"
    using AddWithdrawn_spec(1) [OF assms(1)] by (simp add: all_or_nothing_def)
  then show ?thesis
    using withdrawal_added_books [of wd s wd' t] assms(2) None by (auto simp: ledger_def)
next
  case (Some e)
  then show ?thesis
    using AddWithdrawn_spec(1) [OF assms(1)] assms(3) by (auto simp: all_or_nothing_def)
qed

text \<open>What the update of a balance decides on a server that answers every statement.\<close>

lemma pop_fault_none: "faults s = [] \<Longrightarrow> pop_fault s = (Deliver, s)"
  by (simp add: pop_fault_def)

lemma withTxRetry_no_faults:
  assumes "faults s = []" "action v s = (e, v', s1)" "faults s1 = []"
    and "e = None \<or> (\<exists>x. e = Some x \<and> \<not> retriable x)"
  shows "withTxRetry action v s = (e, v', case e of None \<Rightarrow> s1 | Some _ \<Rightarrow> Rollback (tables s) s1)"
  using assms
  by (auto simp: withTxRetry_def RetryingAttempts_def numeral_3_eq_3 BeginTx_def Commit_def
      pop_fault_none Let_def split: option.splits)

text \<open>C30. The answer to a withdrawal on a healthy server: the sum is granted exactly when it is
strictly below the balance (and the difference is a \<open>bigint\<close>), so that a balance can never be
spent to the last point, and a negative sum is granted too (the least \<open>int64\<close>, its own
negation, is not).\<close>
theorem AddWithdrawn_decision:
  assumes "faults s = []" and "ledger (tables s)" and "r \<in> set (users (tables s))" and "ur_id r \<noteq> []"
    and "uuid_in s (wd_UserID wd) = Some (ur_id r)" and "char_count (wd_OrderID wd) \<le> 256"
    and "\<forall>w\<in>set (withdrawals (tables s)). wr_id w \<noteq> gen_uuid s (id_ctr s)"
  shows "fst (fst (AddWithdrawn wd s)) =
    (if \<not> in_int64 (ur_balance r + sint (- wd_Sum wd)) then Some out_of_range
     else if sint (wd_Sum wd) < ur_balance r \<and> sint (wd_Sum wd) \<noteq> int64_min then None
     else Some (UserErr ErrUserBalanceIsNotEnough))"
proof -
  have one: "filter (\<lambda>x. ur_id x = ur_id r) (users (tables s)) = [r]"
    using filter_ids_distinct [of ur_id "users (tables s)" r] assms(2,3) by (simp add: ledger_def keys_ok_def)
  have b: "0 \<le> ur_balance r" "ur_balance r \<le> int64_max"
    using assms(2,3) by (auto simp: ledger_def balances_ok_def)
  have guard: "0 < ur_balance r + sint (- wd_Sum wd) \<longleftrightarrow>
      sint (wd_Sum wd) < ur_balance r \<and> sint (wd_Sum wd) \<noteq> int64_min"
    if "in_int64 (ur_balance r + sint (- wd_Sum wd))"
  proof (cases "sint (wd_Sum wd) = int64_min")
    case False
    then show ?thesis by (simp add: sint_minus_int64)
  next
    case True
    then have "sint (- wd_Sum wd) = int64_min" by (simp only: minus_int64_min)
    then show ?thesis using b True by simp
  qed
  note defs = AddWithdrawn_tx_def addWithdrawnTx_def run_stmt_def pop_fault_none QueryInsertWithdrawn_def
    new_uuid_def Let_def updateUserBalanceTx_def QueryUpdateUserBalance_def
  obtain e v s1 where a: "AddWithdrawn_tx wd s = (e, v, s1)" by (rule prod_cases3)
  have "faults s1 = []"
    using a assms one by (auto simp: defs split: if_splits)
  moreover have e: "e = (if \<not> in_int64 (ur_balance r + sint (- wd_Sum wd)) then Some out_of_range
     else if 0 < ur_balance r + sint (- wd_Sum wd) then None
     else Some (UserErr ErrUserBalanceIsNotEnough))"
    using a assms one by (auto simp: defs out_of_range_def split: if_splits)
  moreover have "\<not> retriable out_of_range" by (simp add: out_of_range_def retriable_codes ClassifyPgError_def)
  ultimately have "withTxRetry AddWithdrawn_tx wd s = (e, v, case e of None \<Rightarrow> s1 | Some _ \<Rightarrow> Rollback (tables s) s1)"
    by (intro withTxRetry_no_faults assms(1) a) (auto simp: retriable_codes)
  then have "fst (fst (AddWithdrawn wd s)) = e" by (simp add: AddWithdrawn_def)
  then show ?thesis using e guard by simp
qed

lemma AddWithdrawn_decision_witness:
  "fst (fst (AddWithdrawn (demo_withdrawal 500) (demo_credited 500))) = Some (UserErr ErrUserBalanceIsNotEnough)
   \<and> fst (fst (AddWithdrawn (demo_withdrawal 499) (demo_credited 500))) = None
   \<and> fst (fst (AddWithdrawn (demo_withdrawal (- 5)) (demo_credited 500))) = None"
proof -
  let ?r = "\<lparr>ur_id = ''u'', ur_login = ''anna'', ur_hash = ''hash'', ur_balance = 500, ur_version = 1, ur_created = 7\<rparr>"
  have l: "ledger (tables (demo_credited 500))" by (rule history_ledger_inv [OF demo_history])
  have "fst (fst (AddWithdrawn (demo_withdrawal a) (demo_credited 500))) =
    (if \<not> in_int64 (500 + sint (- a)) then Some out_of_range
     else if sint a < 500 \<and> sint a \<noteq> int64_min then None
     else Some (UserErr ErrUserBalanceIsNotEnough))" for a
    using AddWithdrawn_decision [of "demo_credited 500" ?r "demo_withdrawal a"] l
    by (simp add: demo_credited_500 demo_defs char_count_def)
  then show ?thesis by (simp add: in_int64_def)
qed

lemma order_update_credits:
  assumes "UpdateOrder m s = ((None, m'), t)" and "keys_ok (tables s)"
  shows "\<exists>uid. uuid_in s (ord_UserID m) = Some uid \<and> withdrawals (tables t) = withdrawals (tables s) \<and>
    (\<forall>x. balance_of x (tables t) = balance_of x (tables s) +
       (if x = uid \<and> ord_Status m = OrderProcessedStatus \<and> 0 < sint (ord_Accrual m)
        then sint (ord_Accrual m) else 0))"
proof -
  have "order_updated m s t"
    using UpdateOrder_spec(1) [OF assms(1)] by (simp add: all_or_nothing_def)
  then obtain uid st where uid: "uuid_in s (ord_UserID m) = Some uid" "status_in (ord_Status m) = Some st"
    and t: "let a = order_upserted (ord_ID m) uid st (sint (ord_Accrual m)) (now s) (tables s)
      in if st = PROCESSED \<and> 0 < sint (ord_Accrual m)
         then balance_moved uid (sint (ord_Accrual m)) a (tables t)
         else tables t = a"
    unfolding order_updated_def by blast
  note a = order_upserted_books [where i = "ord_ID m" and uid = uid and st = st
    and accrual = "sint (ord_Accrual m)" and t = "now s" and a = "tables s"]
  show ?thesis
  proof (cases "st = PROCESSED \<and> 0 < sint (ord_Accrual m)")
    case True
    then have mv: "balance_moved uid (sint (ord_Accrual m))
        (order_upserted (ord_ID m) uid st (sint (ord_Accrual m)) (now s) (tables s)) (tables t)"
      using t by (simp add: Let_def)
    show ?thesis
      using balance_moved_books(2,4) [OF mv a(3) [OF assms(2)]] a(1,2) uid True status_PROCESSED [OF uid(2)]
        books_congs(1) [OF a(1)]
      by (intro exI [of _ uid]) simp
  next
    case False
    then have eq: "tables t = order_upserted (ord_ID m) uid st (sint (ord_Accrual m)) (now s) (tables s)"
      using t by (simp add: Let_def)
    show ?thesis
      unfolding eq using a(1,2) uid False status_PROCESSED [OF uid(2)] books_congs(1) [OF a(1)]
      by (intro exI [of _ uid]) auto
  qed
qed

text \<open>C31. A successful update of an order to PROCESSED with a positive accrual adds it to the
balance of the user given, every time: nothing looks at the status the order had. Any other
successful update leaves all balances alone.\<close>
theorem UpdateOrder_credits:
  assumes "UpdateOrder m s = ((None, m'), t)" and "keys_ok (tables s)"
  shows "\<exists>uid. uuid_in s (ord_UserID m) = Some uid \<and> withdrawals (tables t) = withdrawals (tables s) \<and>
    (\<forall>x. balance_of x (tables t) = balance_of x (tables s) +
       (if x = uid \<and> ord_Status m = OrderProcessedStatus \<and> 0 < sint (ord_Accrual m)
        then sint (ord_Accrual m) else 0))"
  by (rule order_update_credits [OF assms])

lemma UpdateOrder_credits_witness:
  "balance_of ''u'' (tables (snd (UpdateOrder (demo_order 500) (demo_credited 500)))) = 1000"
proof -
  have k: "keys_ok (tables (demo_credited 500))"
    using history_ledger_inv [OF demo_history] by (simp add: ledger_def)
  obtain m' t where r: "UpdateOrder (demo_order 500) (demo_credited 500) = ((None, m'), t)"
    unfolding demo_credited_500 by (simp add: run_defs demo_defs in_int64_def zero_sless_iff)
  show ?thesis
    unfolding r using UpdateOrder_credits [OF r k]
    by (auto simp: demo_credited_500 demo_server_def demo_order_def zero_order_def balance_of_def
        OrderProcessedStatus_def)
qed

lemma UpdateOrder_well_behaved: "well_behaved ((=) m) UpdateOrder_tx"
  by (auto simp: well_behaved_def dest!: UpdateOrder_tx_spec)

text \<open>However the database behaves, an update of an order waits at most three times, 100, 300
and 500 milliseconds, in that order.\<close>
lemma UpdateOrder_waits:
  "\<exists>ds. sleeps (snd (UpdateOrder m s)) = sleeps s @ ds \<and>
     prefix ds [100000000, 300000000, 500000000]"
proof -
  obtain err m' t where r: "withTxRetry UpdateOrder_tx m s = (err, m', t)" by (rule prod_cases3)
  have "delays 0 RetryingAttempts = [100000000, 300000000, 500000000]"
    by (simp add: delays_def RetryingAttempts_def RetryingDelay_def RetryingDelayStep_def numeral_3_eq_3)
  then show ?thesis
    using withTxRetry_loop_sleeps [OF UpdateOrder_well_behaved r [unfolded withTxRetry_def] refl] r
    by (simp add: UpdateOrder_def)
qed

text \<open>A new order is stored as it was given, with no accrual, and only under a number nobody
had stored; when the number is taken the answer is \<open>ErrOrderExists\<close> and nothing changes.\<close>
lemma AddOrder_outcome:
  assumes "AddOrder m s = ((err, m'), t)" and "honest s" and "err = None \<or> (\<forall>f\<in>set (faults s). \<not> lossy f)"
  shows "case err of
      None \<Rightarrow> (\<exists>uid st. uuid_in s (ord_UserID m) = Some uid \<and> status_out st = ord_Status m \<and>
        ord_ID m \<notin> or_id ` set (orders (tables s)) \<and>
        tables t = (tables s)\<lparr>orders := orders (tables s) @
          [\<lparr>or_id = ord_ID m, or_user = uid, or_status = st, or_accrual = 0,
            or_uploaded = now s, or_updated = now s\<rparr>]\<rparr>)
    | Some e \<Rightarrow> tables t = tables s \<and>
        (e \<noteq> OrderErr ErrOrderExists \<or> ord_ID m \<in> or_id ` set (orders (tables s)))"
proof (cases err)
  case None
  then have "order_added m s t"
    using AddOrder_spec(1) [OF assms(1)] by (simp add: all_or_nothing_def)
  then show ?thesis
    using None status_out_in unfolding order_added_def option.case by fastforce
next
  case (Some e)
  then have "tables t = tables s"
    using AddOrder_spec(1) [OF assms(1)] assms(3) by (auto simp: all_or_nothing_def)
  then show ?thesis
    using Some AddOrder_spec(4) [OF assms(1)] assms(2) by (force simp: image_iff)
qed

lemma listed_rows:
  assumes "ListOrders u s = (Inr ms, t)"
  shows "\<exists>uid. uuid_in s u = Some uid \<and> tables t = tables s \<and>
    prefix ms (map (\<lambda>r. scan_order r zero_order) (filter (\<lambda>r. or_user r = uid) (orders (tables s)))) \<and>
    ((\<exists>n e. CutRows n e \<in> set (faults s)) \<or>
     ms = map (\<lambda>r. scan_order r zero_order) (filter (\<lambda>r. or_user r = uid) (orders (tables s))))"
proof -
  obtain f s1 where p: "pop_fault s = (f, s1)" by fastforce
  have f: "f = Deliver \<or> (\<exists>n e. f = CutRows n e \<and> f \<in> set (faults s))"
    using assms p pop_fault_frame [OF p]
    by (cases f) (auto simp: ListOrders_def run_query_def)
  then show ?thesis
    using assms p pop_fault_frame [OF p]
    by (auto simp: ListOrders_def run_query_def QuerySelectOrders_def take_is_prefix
        simp flip: take_map split: option.splits) blast
qed

text \<open>C34. A list of orders holds the user's rows in the order of the table, but it may stop early
without an error when the rows break off on the way: the end of the loop is not checked.\<close>
theorem ListOrders_rows:
  assumes "ListOrders u s = (Inr ms, t)"
  shows "\<exists>uid. uuid_in s u = Some uid \<and> tables t = tables s \<and>
    prefix ms (map (\<lambda>r. scan_order r zero_order) (filter (\<lambda>r. or_user r = uid) (orders (tables s)))) \<and>
    ((\<exists>n e. CutRows n e \<in> set (faults s)) \<or>
     ms = map (\<lambda>r. scan_order r zero_order) (filter (\<lambda>r. or_user r = uid) (orders (tables s))))"
  using listed_rows [OF assms] .

lemma ListOrders_rows_witness:
  "\<exists>t. ListOrders ''u'' ((demo_credited 500)\<lparr>faults := [CutRows 0 (ConnError ''reset'')]\<rparr>) = (Inr [], t)
     \<and> tables t = tables (demo_credited 500)"
proof -
  obtain t where r: "ListOrders ''u'' ((demo_credited 500)\<lparr>faults := [CutRows 0 (ConnError ''reset'')]\<rparr>) = (Inr [], t)"
    by (simp add: ListOrders_def run_query_def pop_fault_def QuerySelectOrders_def demo_credited_500 demo_server_def)
  show ?thesis using ListOrders_rows [OF r] r by simp
qed

end
