(* ===== verification/Contracts.thy ===== *)
theory Contracts
  imports Ledger
begin

text \<open>
  What the services rely on: the interface \<open>SQLStorageInterface\<close> with its laws, as locales over an
  abstract view of the storage, and the proof that the PostgreSQL repository keeps them.
\<close>

section \<open>The laws\<close>

text \<open>An operation keeps the invariant and the meaning of user identifiers.\<close>

definition keeps :: "('s \<Rightarrow> bool) \<Rightarrow> ('s \<Rightarrow> string \<Rightarrow> string option) \<Rightarrow> ('s \<Rightarrow> 'a \<times> 's) \<Rightarrow> bool" where
  "keeps good canon f \<longleftrightarrow> (\<forall>s. good s \<longrightarrow> good (snd (f s)) \<and> canon (snd (f s)) = canon s)"

lemma keepsD:
  "keeps good canon f \<Longrightarrow> good s \<Longrightarrow> f s = (r, t) \<Longrightarrow> good t \<and> canon t = canon s"
  unfolding keeps_def by (metis snd_conv)

locale storage =
  fixes st :: "'s SQLStorageInterface"
    and good :: "'s \<Rightarrow> bool"
    and canon :: "'s \<Rightarrow> string \<Rightarrow> string option"
  assumes keeps_users: "keeps good canon (st_AddUser st u)" "keeps good canon (st_GetUser st l)"
      "keeps good canon (st_GetUserByID st i)"
    and keeps_orders: "keeps good canon (st_AddOrder st m)" "keeps good canon (st_GetOrder st i j)"
      "keeps good canon (st_ListOrders st i)" "keeps good canon (st_UpdateOrder st m)"
    and keeps_withdrawals: "keeps good canon (st_AddWithdrawn st w)"
      "keeps good canon (st_GetWithdrawn st i)" "keeps good canon (st_ListWithdrawals st i)"

text \<open>Users: \<open>stored s login\<close> is the identifier and the hash kept under a login.\<close>

locale user_storage = storage st good canon
  for st :: "'s SQLStorageInterface" and good canon +
  fixes stored :: "'s \<Rightarrow> string \<Rightarrow> (string \<times> string) option"
  assumes AddUser_ok: "good s \<Longrightarrow> st_AddUser st u s = ((None, u'), t) \<Longrightarrow>
      same_but_ID u u' \<and> stored s (user_Login u) = None \<and>
      stored t = (stored s)(user_Login u \<mapsto> (user_ID u', user_Hash u))"
    and AddUser_err: "good s \<Longrightarrow> st_AddUser st u s = ((Some e, u'), t) \<Longrightarrow>
      (\<exists>d. e = DriverErr d) \<or>
      e = UserErr ErrUserExists \<and> stored s (user_Login u) \<noteq> None \<and> stored t = stored s"
    and GetUser_ok: "good s \<Longrightarrow> st_GetUser st l s = (Inr u, t) \<Longrightarrow>
      stored t = stored s \<and> stored s l = Some (user_ID u, user_Hash u) \<and> user_Login u = l"
    and GetUser_err: "good s \<Longrightarrow> st_GetUser st l s = (Inl e, t) \<Longrightarrow>
      stored t = stored s \<and> ((\<exists>d. e = DriverErr d) \<or> e = UserErr ErrUserNotFound \<and> stored s l = None)"

text \<open>Orders: \<open>owner s i\<close> is the user who stored the order \<open>i\<close>.\<close>

locale order_storage = storage st good canon
  for st :: "'s SQLStorageInterface" and good canon +
  fixes owner :: "'s \<Rightarrow> string \<Rightarrow> string option"
  assumes AddOrder_ok: "good s \<Longrightarrow> st_AddOrder st m s = ((None, m'), t) \<Longrightarrow>
      m' = m \<and> owner s (ord_ID m) = None \<and> canon s (ord_UserID m) \<noteq> None \<and>
      owner t = (owner s)(ord_ID m := canon s (ord_UserID m))"
    and AddOrder_err: "good s \<Longrightarrow> st_AddOrder st m s = ((Some e, m'), t) \<Longrightarrow>
      m' = m \<and> ((\<exists>d. e = DriverErr d) \<or>
        e = OrderErr ErrOrderExists \<and> owner s (ord_ID m) \<noteq> None \<and> owner t = owner s)"
    and GetOrder_ok: "good s \<Longrightarrow> st_GetOrder st i u s = (Inr m, t) \<Longrightarrow>
      owner t = owner s \<and> canon s u \<noteq> None \<and> owner s i = canon s u"
    and GetOrder_err: "good s \<Longrightarrow> st_GetOrder st i u s = (Inl e, t) \<Longrightarrow>
      owner t = owner s \<and> ((\<exists>d. e = DriverErr d) \<or>
        e = OrderErr ErrOrderNotFound \<and> (owner s i = None \<or> owner s i \<noteq> canon s u))"

text \<open>Balances: \<open>points s u\<close> and \<open>spent s u\<close> are what a user has and has withdrawn.\<close>

locale balance_storage = storage st good canon
  for st :: "'s SQLStorageInterface" and good canon +
  fixes points :: "'s \<Rightarrow> string \<Rightarrow> int" and spent :: "'s \<Rightarrow> string \<Rightarrow> int"
  assumes AddWithdrawn_ok: "good s \<Longrightarrow> st_AddWithdrawn st w s = ((None, w'), t) \<Longrightarrow>
      \<exists>uid. canon s (wd_UserID w) = Some uid \<and>
        points t = (points s)(uid := points s uid - sint (wd_Sum w)) \<and>
        spent t = (spent s)(uid := spent s uid + sint (wd_Sum w)) \<and> 0 < points t uid"
    and AddWithdrawn_err: "good s \<Longrightarrow> st_AddWithdrawn st w s = ((Some e, w'), t) \<Longrightarrow>
      (\<exists>d. e = DriverErr d) \<or>
      e = UserErr ErrUserBalanceIsNotEnough \<and> points t = points s \<and> spent t = spent s"
    and GetUserByID_ok: "good s \<Longrightarrow> st_GetUserByID st i s = (Inr u, t) \<Longrightarrow>
      points t = points s \<and> spent t = spent s \<and>
      (\<exists>uid. canon s i = Some uid \<and> sint (user_Balance u) = points s uid)"
    and GetWithdrawn_ok: "good s \<Longrightarrow> st_GetWithdrawn st i s = (Inr w, t) \<Longrightarrow>
      points t = points s \<and> spent t = spent s \<and>
      (\<exists>uid. canon s i = Some uid \<and> sint (wd_Sum w) = spent s uid)"
    and GetWithdrawn_none: "good s \<Longrightarrow> st_GetWithdrawn st i s = (Inl e, t) \<Longrightarrow>
      points t = points s \<and> spent t = spent s \<and>
      ((\<exists>d. e = DriverErr d) \<or> e = ErrScan \<or>
       e = ErrWithdrawnNotFound \<and> (\<forall>uid. canon s i = Some uid \<longrightarrow> spent s uid = 0))"

section \<open>The repository keeps them\<close>

text \<open>Identifiers the server will generate are new and different from one another.\<close>

definition fresh_ids :: "server \<Rightarrow> bool" where
  "fresh_ids s \<longleftrightarrow> inj (gen_uuid s) \<and>
     (\<forall>n\<ge>id_ctr s. gen_uuid s n \<notin> set (map ur_id (users (tables s))) \<and>
        gen_uuid s n \<notin> set (map wr_id (withdrawals (tables s))))"

definition healthy :: "server \<Rightarrow> bool" where
  "healthy s \<longleftrightarrow> honest s \<and> keys_ok (tables s) \<and> balances_ok (tables s) \<and> fresh_ids s"

lemma fresh_ids_later:
  assumes "fresh_ids s" "later s t" "tables t = tables s"
  shows "fresh_ids t"
  using assms later_now [OF assms(2)] by (auto simp: fresh_ids_def)

lemma healthy_later:
  assumes "healthy s" "later s t" "tables t = tables s"
  shows "healthy t"
  using assms fresh_ids_later honest_later by (auto simp: healthy_def)

lemma user_added_healthy:
  assumes "user_added u s u' t" "later s t" "healthy s"
  shows "healthy t"
proof -
  obtain n where n: "id_ctr s \<le> n" "n < id_ctr t"
    "\<forall>r\<in>set (users (tables s)). ur_id r \<noteq> gen_uuid s n \<and> ur_login r \<noteq> user_Login u"
    and t: "tables t = (tables s)\<lparr>users := users (tables s) @
       [\<lparr>ur_id = gen_uuid s n, ur_login = user_Login u, ur_hash = user_Hash u, ur_balance = 0,
         ur_version = 1, ur_created = now s\<rparr>]\<rparr>"
    using assms(1) by (auto simp: user_added_def)
  have "keys_ok (tables t)" "balances_ok (tables t)"
    using n(3) assms(3) by (auto simp: t healthy_def keys_ok_def balances_ok_def)
  moreover have "fresh_ids t"
    using n assms(3) later_now [OF assms(2)]
    by (auto simp: t healthy_def fresh_ids_def inj_eq)
  ultimately show ?thesis
    using assms(2,3) honest_later by (auto simp: healthy_def)
qed

lemma order_added_healthy:
  assumes "order_added m s t" "later s t" "healthy s"
  shows "healthy t"
proof -
  obtain uid st where n: "\<forall>r\<in>set (orders (tables s)). or_id r \<noteq> ord_ID m"
    and t: "tables t = (tables s)\<lparr>orders := orders (tables s) @
       [\<lparr>or_id = ord_ID m, or_user = uid, or_status = st, or_accrual = 0,
         or_uploaded = now s, or_updated = now s\<rparr>]\<rparr>"
    using assms(1) by (auto simp: order_added_def)
  have "keys_ok (tables t)" "balances_ok (tables t)"
    using n assms(3) by (auto simp: t healthy_def keys_ok_def balances_ok_def)
  moreover have "fresh_ids t"
    using assms(3) later_now [OF assms(2)] by (auto simp: t healthy_def fresh_ids_def)
  ultimately show ?thesis
    using assms(2,3) honest_later by (auto simp: healthy_def)
qed

lemma balance_moved_ids:
  assumes "balance_moved uid d a b"
  shows "map ur_id (users b) = map ur_id (users a)" "map ur_login (users b) = map ur_login (users a)"
    and "map ur_hash (users b) = map ur_hash (users a)"
    and "withdrawals b = withdrawals a" "orders b = orders a"
  using assms by (auto simp: balance_moved_def)

lemma order_updated_healthy:
  assumes "order_updated m s t" "later s t" "healthy s"
  shows "healthy t"
proof -
  obtain uid st where t: "let a = order_upserted (ord_ID m) uid st (sint (ord_Accrual m)) (now s) (tables s)
      in if st = PROCESSED \<and> 0 < sint (ord_Accrual m)
         then balance_moved uid (sint (ord_Accrual m)) a (tables t)
         else tables t = a"
    using assms(1) unfolding order_updated_def by blast
  define a where "a = order_upserted (ord_ID m) uid st (sint (ord_Accrual m)) (now s) (tables s)"
  have a: "users a = users (tables s)" "withdrawals a = withdrawals (tables s)" "keys_ok a" "balances_ok a"
    using order_upserted_books(1-3) assms(3) by (auto simp: a_def healthy_def balances_ok_def)
  have "keys_ok (tables t) \<and> balances_ok (tables t) \<and>
      map ur_id (users (tables t)) = map ur_id (users a) \<and> withdrawals (tables t) = withdrawals a"
    using t a balance_moved_ids balance_moved_books(3,5) unfolding a_def [symmetric] Let_def
    by (metis (no_types))
  moreover from this have "fresh_ids t"
    using a assms(3) later_now [OF assms(2)] by (simp add: fresh_ids_def healthy_def del: set_map)
  ultimately show ?thesis
    using assms(2,3) honest_later by (auto simp: healthy_def)
qed

lemma withdrawal_added_healthy:
  assumes "withdrawal_added wd s wd' t" "later s t" "healthy s"
  shows "healthy t"
proof -
  obtain uid n where n: "id_ctr s \<le> n" "n < id_ctr t"
    and mv: "balance_moved uid (sint (- wd_Sum wd))
       ((tables s)\<lparr>withdrawals := withdrawals (tables s) @
          [\<lparr>wr_id = gen_uuid s n, wr_user = uid, wr_order = wd_OrderID wd,
            wr_withdrawn = sint (wd_Sum wd), wr_processed = now s\<rparr>]\<rparr>) (tables t)"
    using assms(1) by (auto simp: withdrawal_added_def)
  have k: "keys_ok (tables t)" "balances_ok (tables t)"
    using withdrawal_added_books [OF assms(1)] assms(3) by (auto simp: healthy_def)
  have ids: "map ur_id (users (tables t)) = map ur_id (users (tables s))"
    "map wr_id (withdrawals (tables t)) = map wr_id (withdrawals (tables s)) @ [gen_uuid s n]"
    using balance_moved_ids(1,4) [OF mv] by simp_all
  have "fresh_ids t"
    using n assms(3) later_now [OF assms(2)] ids
    by (auto simp: fresh_ids_def healthy_def inj_eq simp del: set_map)
  then show ?thesis
    using k assms(2,3) honest_later by (auto simp: healthy_def)
qed

lemma all_or_nothing_healthy:
  assumes "all_or_nothing effect s err t" "later s t" "healthy s" "effect s t \<Longrightarrow> healthy t"
  shows "healthy t"
  using assms healthy_later by (auto simp: all_or_nothing_def split: option.splits)

lemma healthy_writes [go_inv]:
  "healthy s \<Longrightarrow> AddUser u s = ((e, u'), t) \<Longrightarrow> healthy t"
  "healthy s \<Longrightarrow> AddOrder m s = ((e, m'), t) \<Longrightarrow> healthy t"
  "healthy s \<Longrightarrow> UpdateOrder m s = ((e, m'), t) \<Longrightarrow> healthy t"
  "healthy s \<Longrightarrow> AddWithdrawn w s = ((e, w'), t) \<Longrightarrow> healthy t"
proof -
  show "healthy s \<Longrightarrow> AddUser u s = ((e, u'), t) \<Longrightarrow> healthy t"
    by (rule all_or_nothing_healthy [OF AddUser_spec(1)]) (auto intro: user_added_healthy dest: AddUser_spec(2))
  show "healthy s \<Longrightarrow> AddOrder m s = ((e, m'), t) \<Longrightarrow> healthy t"
    by (rule all_or_nothing_healthy [OF AddOrder_spec(1)]) (auto intro: order_added_healthy dest: AddOrder_spec(2))
  show "healthy s \<Longrightarrow> UpdateOrder m s = ((e, m'), t) \<Longrightarrow> healthy t"
    by (rule all_or_nothing_healthy [OF UpdateOrder_spec(1)]) (auto intro: order_updated_healthy dest: UpdateOrder_spec(2))
  show "healthy s \<Longrightarrow> AddWithdrawn w s = ((e, w'), t) \<Longrightarrow> healthy t"
    by (rule all_or_nothing_healthy [OF AddWithdrawn_spec(1)]) (auto intro: withdrawal_added_healthy dest: AddWithdrawn_spec(2))
qed

lemma run_query_frame:
  "run_query q s = (r, t) \<Longrightarrow> later s t \<and> tables t = tables s"
  using pop_fault_frame [of s]
  by (auto simp: run_query_def split: prod.splits fault.splits)

lemma lists_frame:
  "ListOrders i s = (r, t) \<Longrightarrow> later s t \<and> tables t = tables s"
  "ListWithdrawals i s = (r', t) \<Longrightarrow> later s t \<and> tables t = tables s"
  by (auto simp: ListOrders_def ListWithdrawals_def split: prod.splits sum.splits dest: run_query_frame)

lemma keepsI:
  "(\<And>s r t. good s \<Longrightarrow> f s = (r, t) \<Longrightarrow> good t \<and> canon t = canon s) \<Longrightarrow> keeps good canon f"
  unfolding keeps_def by (metis prod.collapse)

lemma keeps_writes:
  "keeps healthy uuid_in (AddUser u)" "keeps healthy uuid_in (AddOrder m)"
  "keeps healthy uuid_in (UpdateOrder m)" "keeps healthy uuid_in (AddWithdrawn w)"
  by (auto intro!: keepsI intro: healthy_writes
      dest: later_now [OF AddUser_spec(2)] later_now [OF AddOrder_spec(2)]
        later_now [OF UpdateOrder_spec(2)] later_now [OF AddWithdrawn_spec(2)])

lemma keeps_reads:
  "keeps healthy uuid_in (GetUser l)" "keeps healthy uuid_in (GetUserByID i)"
  "keeps healthy uuid_in (GetOrder o' i)" "keeps healthy uuid_in (ListOrders i)"
  "keeps healthy uuid_in (GetWithdrawn i)" "keeps healthy uuid_in (ListWithdrawals i)"
  using GetUser_spec(1,2) GetUserByID_spec(1,2) GetOrder_spec(1,2) lists_frame GetWithdrawn_spec(1,2)
    later_now healthy_later
  by (intro keepsI; metis)+

interpretation sql: storage NewSQLStorage healthy uuid_in
  by unfold_locales (simp_all add: NewSQLStorage_def keeps_writes keeps_reads)

section \<open>Users\<close>

definition stored_user :: "server \<Rightarrow> string \<Rightarrow> (string \<times> string) option" where
  "stored_user s = map_of (map (\<lambda>r. (ur_login r, (ur_id r, ur_hash r))) (users (tables s)))"

lemma map_add_new: "m k = None \<Longrightarrow> [k \<mapsto> v] ++ m = m(k \<mapsto> v)"
  by (rule ext) (simp add: map_add_def split: option.splits)

lemma map_of_image_None:
  "map_of (map (\<lambda>r. (f r, g r)) xs) k = None \<longleftrightarrow> (\<forall>r\<in>set xs. f r \<noteq> k)"
  by (induction xs) auto

lemma map_of_row:
  "distinct (map f xs) \<Longrightarrow> r \<in> set xs \<Longrightarrow> map_of (map (\<lambda>r. (f r, g r)) xs) (f r) = Some (g r)"
  by (rule map_of_is_SomeI) (auto simp: comp_def)

interpretation sql_users: user_storage NewSQLStorage healthy uuid_in stored_user
proof unfold_locales
  fix s u u' t
  assume s: "healthy s" "st_AddUser NewSQLStorage u s = ((None, u'), t)"
  then have a: "AddUser u s = ((None, u'), t)" by (simp add: NewSQLStorage_def)
  then have "user_added u s u' t" using AddUser_spec(1) by (fastforce simp: all_or_nothing_def)
  then show "same_but_ID u u' \<and> stored_user s (user_Login u) = None \<and>
      stored_user t = (stored_user s)(user_Login u \<mapsto> (user_ID u', user_Hash u))"
    using AddUser_spec(3) [OF a]
    by (auto simp: user_added_def stored_user_def map_of_image_None map_add_new)
next
  fix s u e u' t
  assume s: "healthy s" "st_AddUser NewSQLStorage u s = ((Some e, u'), t)"
  then have a: "AddUser u s = ((Some e, u'), t)" by (simp add: NewSQLStorage_def)
  have "tables t = tables s \<and> (\<exists>r\<in>set (users (tables s)). ur_login r = user_Login u)"
    if e: "e = UserErr ErrUserExists"
  proof -
    have "tables t = tables s \<and> (\<exists>r\<in>set (users (tables s)). ur_login r = user_Login u
        \<or> (\<exists>n\<ge>id_ctr s. ur_id r = gen_uuid s n))"
      using AddUser_spec(4) [OF a] e s(1) by (simp add: healthy_def)
    moreover have "gen_uuid s n \<noteq> ur_id r" if "r \<in> set (users (tables s))" "id_ctr s \<le> n" for r n
      using s(1) that by (auto simp: healthy_def fresh_ids_def)
    ultimately show ?thesis by metis
  qed
  then show "(\<exists>d. e = DriverErr d) \<or> e = UserErr ErrUserExists \<and>
      stored_user s (user_Login u) \<noteq> None \<and> stored_user t = stored_user s"
    using AddUser_spec(5) [OF a] by (auto simp: stored_user_def map_of_image_None)
next
  fix s l u t
  assume s: "healthy s" "st_GetUser NewSQLStorage l s = (Inr u, t)"
  then have a: "GetUser l s = (Inr u, t)" by (simp add: NewSQLStorage_def)
  obtain row where r: "row \<in> set (users (tables s))" "ur_login row = l" "u = scan_user row zero_user"
    using GetUser_spec(3) [OF a refl] by blast
  then show "stored_user t = stored_user s \<and> stored_user s l = Some (user_ID u, user_Hash u) \<and> user_Login u = l"
    using map_of_row [of ur_login "users (tables s)" row "\<lambda>r. (ur_id r, ur_hash r)"] s(1) GetUser_spec(2) [OF a]
    by (auto simp: stored_user_def scan_user_def healthy_def keys_ok_def)
next
  fix s l e t
  assume s: "healthy s" "st_GetUser NewSQLStorage l s = (Inl e, t)"
  then have a: "GetUser l s = (Inl e, t)" by (simp add: NewSQLStorage_def)
  show "stored_user t = stored_user s \<and> ((\<exists>d. e = DriverErr d) \<or> e = UserErr ErrUserNotFound \<and> stored_user s l = None)"
    using GetUser_spec(2,4,5) [OF a] by (auto simp: stored_user_def map_of_image_None)
qed

section \<open>Orders\<close>

definition order_owner :: "server \<Rightarrow> string \<Rightarrow> string option" where
  "order_owner s = map_of (map (\<lambda>r. (or_id r, or_user r)) (orders (tables s)))"

interpretation sql_orders: order_storage NewSQLStorage healthy uuid_in order_owner
proof unfold_locales
  fix s m m' t
  assume s: "healthy s" "st_AddOrder NewSQLStorage m s = ((None, m'), t)"
  then have a: "AddOrder m s = ((None, m'), t)" by (simp add: NewSQLStorage_def)
  then have "order_added m s t" using AddOrder_spec(1) by (fastforce simp: all_or_nothing_def)
  then show "m' = m \<and> order_owner s (ord_ID m) = None \<and> uuid_in s (ord_UserID m) \<noteq> None \<and>
      order_owner t = (order_owner s)(ord_ID m := uuid_in s (ord_UserID m))"
    using AddOrder_spec(3) [OF a]
    by (auto simp: order_added_def order_owner_def map_of_image_None map_add_new)
next
  fix s m e m' t
  assume s: "healthy s" "st_AddOrder NewSQLStorage m s = ((Some e, m'), t)"
  then have a: "AddOrder m s = ((Some e, m'), t)" by (simp add: NewSQLStorage_def)
  show "m' = m \<and> ((\<exists>d. e = DriverErr d) \<or> e = OrderErr ErrOrderExists \<and>
      order_owner s (ord_ID m) \<noteq> None \<and> order_owner t = order_owner s)"
    using AddOrder_spec(3,4,5) [OF a] s(1)
    by (auto simp: order_owner_def map_of_image_None healthy_def)
next
  fix s i u m t
  assume s: "healthy s" "st_GetOrder NewSQLStorage i u s = (Inr m, t)"
  then have a: "GetOrder i u s = (Inr m, t)" by (simp add: NewSQLStorage_def)
  obtain row where r: "row \<in> set (orders (tables s))" "or_id row = i" "uuid_in s u = Some (or_user row)"
    using GetOrder_spec(3) [OF a refl] by blast
  then show "order_owner t = order_owner s \<and> uuid_in s u \<noteq> None \<and> order_owner s i = uuid_in s u"
    using map_of_row [of or_id "orders (tables s)" row or_user] s(1) GetOrder_spec(2) [OF a]
    by (auto simp: order_owner_def healthy_def keys_ok_def)
next
  fix s i u e t
  assume s: "healthy s" "st_GetOrder NewSQLStorage i u s = (Inl e, t)"
  then have a: "GetOrder i u s = (Inl e, t)" by (simp add: NewSQLStorage_def)
  have "order_owner s i = None \<or> order_owner s i \<noteq> uuid_in s u" if "e = OrderErr ErrOrderNotFound"
    using GetOrder_spec(4) [OF a] that
    by (fastforce simp: order_owner_def dest: map_of_SomeD)
  then show "order_owner t = order_owner s \<and> ((\<exists>d. e = DriverErr d) \<or>
      e = OrderErr ErrOrderNotFound \<and> (order_owner s i = None \<or> order_owner s i \<noteq> uuid_in s u))"
    using GetOrder_spec(2,5) [OF a] by (auto simp: order_owner_def)
qed

section \<open>Balances\<close>

definition points_of :: "server \<Rightarrow> string \<Rightarrow> int" where
  "points_of s uid = balance_of uid (tables s)"

definition spent_by :: "server \<Rightarrow> string \<Rightarrow> int" where
  "spent_by s uid = withdrawn_sum uid (tables s)"

lemma balance_of_row:
  "keys_ok d \<Longrightarrow> r \<in> set (users d) \<Longrightarrow> balance_of (ur_id r) d = ur_balance r"
  using filter_ids_distinct [of ur_id "users d" r] by (simp add: balance_of_def keys_ok_def)

interpretation sql_balances: balance_storage NewSQLStorage healthy uuid_in points_of spent_by
proof unfold_locales
  fix s w w' t
  assume s: "healthy s" "st_AddWithdrawn NewSQLStorage w s = ((None, w'), t)"
  then have a: "AddWithdrawn w s = ((None, w'), t)" by (simp add: NewSQLStorage_def)
  then have "withdrawal_added w s w' t" using AddWithdrawn_spec(1) by (fastforce simp: all_or_nothing_def)
  from withdrawal_added_books [OF this] s(1)
  show "\<exists>uid. uuid_in s (wd_UserID w) = Some uid \<and>
        points_of t = (points_of s)(uid := points_of s uid - sint (wd_Sum w)) \<and>
        spent_by t = (spent_by s)(uid := spent_by s uid + sint (wd_Sum w)) \<and> 0 < points_of t uid"
    by (fastforce simp: points_of_def spent_by_def healthy_def)
next
  fix s w e w' t
  assume s: "healthy s" "st_AddWithdrawn NewSQLStorage w s = ((Some e, w'), t)"
  then have a: "AddWithdrawn w s = ((Some e, w'), t)" by (simp add: NewSQLStorage_def)
  show "(\<exists>d. e = DriverErr d) \<or>
      e = UserErr ErrUserBalanceIsNotEnough \<and> points_of t = points_of s \<and> spent_by t = spent_by s"
    using AddWithdrawn_spec(4) [OF a refl] AddWithdrawn_spec(1) [OF a]
    by (auto simp: points_of_def spent_by_def all_or_nothing_def)
next
  fix s i u t
  assume s: "healthy s" "st_GetUserByID NewSQLStorage i s = (Inr u, t)"
  then have a: "GetUserByID i s = (Inr u, t)" by (simp add: NewSQLStorage_def)
  obtain row where r: "row \<in> set (users (tables s))" "uuid_in s i = Some (ur_id row)" "u = scan_user row zero_user"
    using GetUserByID_spec(3) [OF a refl] by blast
  have "sint (user_Balance u) = ur_balance row"
    using r s(1) sint_of_int64 [of "ur_balance row"]
    by (auto simp: scan_user_def healthy_def balances_ok_def in_int64_def)
  then show "points_of t = points_of s \<and> spent_by t = spent_by s \<and>
      (\<exists>uid. uuid_in s i = Some uid \<and> sint (user_Balance u) = points_of s uid)"
    using r s(1) GetUserByID_spec(2) [OF a] balance_of_row [of "tables s" row]
    by (auto simp: points_of_def spent_by_def healthy_def)
next
  fix s i w t
  assume s: "healthy s" "st_GetWithdrawn NewSQLStorage i s = (Inr w, t)"
  then have a: "GetWithdrawn i s = (Inr w, t)" by (simp add: NewSQLStorage_def)
  show "points_of t = points_of s \<and> spent_by t = spent_by s \<and>
      (\<exists>uid. uuid_in s i = Some uid \<and> sint (wd_Sum w) = spent_by s uid)"
    using GetWithdrawn_spec(2,3) [OF a] by (auto simp: points_of_def spent_by_def)
next
  fix s i e t
  assume s: "healthy s" "st_GetWithdrawn NewSQLStorage i s = (Inl e, t)"
  then have a: "GetWithdrawn i s = (Inl e, t)" by (simp add: NewSQLStorage_def)
  have "spent_by s uid = 0" if "e = ErrWithdrawnNotFound" "uuid_in s i = Some uid" for uid
  proof -
    have "filter (\<lambda>r. wr_user r = uid) (withdrawals (tables s)) = []"
      using GetWithdrawn_spec(4) [OF a] that by (auto simp: filter_empty_conv)
    then show ?thesis by (simp add: spent_by_def withdrawn_sum_def)
  qed
  then show "points_of t = points_of s \<and> spent_by t = spent_by s \<and>
      ((\<exists>d. e = DriverErr d) \<or> e = ErrScan \<or>
       e = ErrWithdrawnNotFound \<and> (\<forall>uid. uuid_in s i = Some uid \<longrightarrow> spent_by s uid = 0))"
    using GetWithdrawn_spec(2,5) [OF a] by (auto simp: points_of_def spent_by_def)
qed

end
