(* ===== verification/Luhn.thy ===== *)
theory Luhn
  imports GoStd
begin

text \<open>
  The order number check of \<open>internal/services/alg/lunh.go\<close>: one left-to-right pass that uses the
  parity of the length to know which digits to double. Shown here: it computes the textbook
  right-to-left checksum, it detects every single wrong digit and every swap of neighbours
  but 09/90, each digit string has exactly one check digit, separators do not matter, and the
  accumulator stays far from the limits of a 64-bit integer.
\<close>

section \<open>The code\<close>

text \<open>The digit's contribution: doubled at the positions of the length's parity, 9 cast out.\<close>

definition luhn_digit :: "bool \<Rightarrow> nat \<Rightarrow> int" where
  "luhn_digit dbl d =
     (let digit = int d
      in if dbl then (let digit = digit * 2 in if digit > 9 then digit - 9 else digit)
         else digit)"

fun luhn_loop :: "nat \<Rightarrow> nat \<Rightarrow> string \<Rightarrow> int \<Rightarrow> int" where
  "luhn_loop parity i [] acc = acc"
| "luhn_loop parity i (r # rs) acc =
     luhn_loop parity (Suc i) rs (acc + luhn_digit (i mod 2 = parity) (digit_val r))"

definition luhn_clean :: "string \<Rightarrow> string" where
  "luhn_clean number = remove_all (CHR ''-'') (remove_all (CHR '' '') number)"

text \<open>
  Go ranges over the runes of the string; a byte of 128 or more belongs to a rune that is no digit,
  so checking the bytes refuses exactly the same strings, and in what is left rune indices are
  byte indices.
\<close>

definition IsValidLuhn :: "string \<Rightarrow> bool" where
  "IsValidLuhn number =
     (let number = luhn_clean number
      in if \<not> list_all is_digit number then False
         else luhn_loop (length number mod 2) 0 number 0 mod 10 = 0)"

section \<open>The checksum as a sum of contributions\<close>

lemma luhn_loop_acc: "luhn_loop p i s acc = acc + luhn_loop p i s 0"
proof (induction s arbitrary: i acc)
  case (Cons r rs)
  let ?d = "luhn_digit (i mod 2 = p) (digit_val r)"
  show ?case
    using Cons [of "Suc i" "acc + ?d"] Cons [of "Suc i" ?d] by simp
qed simp

lemma luhn_loop_append:
  "luhn_loop p i (a @ b) 0 = luhn_loop p i a 0 + luhn_loop p (i + length a) b 0"
proof (induction a arbitrary: i)
  case (Cons r rs)
  let ?d = "luhn_digit (i mod 2 = p) (digit_val r)"
  show ?case
    using luhn_loop_acc [of p "Suc i" "rs @ b" ?d] luhn_loop_acc [of p "Suc i" rs ?d]
      Cons [of "Suc i"] by simp
qed simp

lemma luhn_loop_Cons:
  "luhn_loop p i (r # rs) 0 =
   luhn_digit (i mod 2 = p) (digit_val r) + luhn_loop p (Suc i) rs 0"
  using luhn_loop_acc [of p "Suc i" rs "luhn_digit (i mod 2 = p) (digit_val r)"] by simp

lemma luhn_digit_bounds: "d \<le> 9 \<Longrightarrow> 0 \<le> luhn_digit b d \<and> luhn_digit b d \<le> 9"
  by (simp add: luhn_digit_def Let_def)

lemma digit_cases:
  fixes d :: nat
  assumes "d \<le> 9"
  shows "d = 0 \<or> d = 1 \<or> d = 2 \<or> d = 3 \<or> d = 4 \<or> d = 5 \<or> d = 6 \<or> d = 7 \<or> d = 8 \<or> d = 9"
  using assms by arith

lemma luhn_digit_mod_inj:
  assumes "d \<le> 9" "e \<le> 9" "luhn_digit b d mod 10 = luhn_digit b e mod 10"
  shows "d = e"
proof -
  have "luhn_digit b d = luhn_digit b e"
    using luhn_digit_bounds [OF assms(1), of b] luhn_digit_bounds [OF assms(2), of b] assms(3)
    by simp
  then show ?thesis
    using assms(1,2) unfolding luhn_digit_def Let_def by (simp split: if_splits) presburger+
qed

lemma luhn_clean_append: "luhn_clean (a @ b) = luhn_clean a @ luhn_clean b"
  by (simp add: luhn_clean_def remove_all_def)

lemma luhn_clean_digit: "is_digit c \<Longrightarrow> luhn_clean (c # b) = c # luhn_clean b"
  by (auto simp: luhn_clean_def remove_all_def)

lemma luhn_clean_digits: "list_all is_digit s \<Longrightarrow> luhn_clean s = s"
  by (induction s) (auto simp: luhn_clean_digit, simp add: luhn_clean_def remove_all_def)

lemma luhn_clean_idem: "luhn_clean (luhn_clean s) = luhn_clean s"
  by (auto simp: luhn_clean_def remove_all_def intro: filter_cong)

lemma luhn_loop_bounds:
  "list_all is_digit s \<Longrightarrow> 0 \<le> luhn_loop p i s 0 \<and> luhn_loop p i s 0 \<le> 9 * int (length s)"
proof (induction s arbitrary: i)
  case (Cons r rs)
  then have "0 \<le> luhn_digit (i mod 2 = p) (digit_val r) \<and> luhn_digit (i mod 2 = p) (digit_val r) \<le> 9"
    by (intro luhn_digit_bounds) simp
  with Cons.IH [of "Suc i"] Cons.prems show ?case by (simp add: luhn_loop_Cons del: luhn_loop.simps)
qed simp

section \<open>The textbook algorithm\<close>

text \<open>
  From the right, the check digit first; every second digit is doubled and the digits of the
  product are added.
\<close>

definition textbook_digit :: "bool \<Rightarrow> nat \<Rightarrow> int" where
  "textbook_digit dbl d = (if dbl then int (2 * d div 10 + 2 * d mod 10) else int d)"

fun textbook_sum :: "bool \<Rightarrow> nat list \<Rightarrow> int" where
  "textbook_sum dbl [] = 0"
| "textbook_sum dbl (d # ds) = textbook_digit dbl d + textbook_sum (\<not> dbl) ds"

definition textbook_luhn :: "string \<Rightarrow> bool" where
  "textbook_luhn s \<longleftrightarrow> textbook_sum False (map digit_val (rev s)) mod 10 = 0"

lemma textbook_digit_eq:
  assumes "d \<le> 9"
  shows "textbook_digit b d = luhn_digit b d"
  using digit_cases [OF assms]
  by (cases b) (elim disjE; simp add: textbook_digit_def luhn_digit_def)+

lemma textbook_sum_snoc:
  "textbook_sum b (ds @ [d]) = textbook_sum b ds + textbook_digit (b \<noteq> odd (length ds)) d"
  by (induction b ds rule: textbook_sum.induct) auto

lemma luhn_loop_textbook:
  "list_all is_digit s \<Longrightarrow>
   luhn_loop ((i + length s) mod 2) i s 0 = textbook_sum False (map digit_val (rev s))"
proof (induction s arbitrary: i)
  case (Cons r rs)
  have p: "(i mod 2 = Suc (i + length rs) mod 2) = odd (length rs)" by presburger
  have "textbook_digit (odd (length rs)) (digit_val r) = luhn_digit (odd (length rs)) (digit_val r)"
    using Cons.prems by (intro textbook_digit_eq) simp
  then show ?case
    using Cons.IH [of "Suc i"] Cons.prems
    by (simp add: luhn_loop_Cons textbook_sum_snoc p del: luhn_loop.simps)
qed simp

lemma IsValidLuhn_loop:
  "IsValidLuhn s \<longleftrightarrow> list_all is_digit (luhn_clean s) \<and>
   luhn_loop (length (luhn_clean s) mod 2) 0 (luhn_clean s) 0 mod 10 = 0"
  by (simp add: IsValidLuhn_def Let_def)

section \<open>Replacing digits\<close>

text \<open>
  An accepted number around one digit, and around two neighbours: the rest of the sum and
  the doubling flag depend on the surrounding text only.
\<close>

definition luhn_dbl :: "string \<Rightarrow> string \<Rightarrow> bool" where
  "luhn_dbl a b \<longleftrightarrow> length (luhn_clean a) mod 2
     = (length (luhn_clean a) + Suc (length (luhn_clean b))) mod 2"

definition luhn_rest :: "string \<Rightarrow> string \<Rightarrow> int" where
  "luhn_rest a b =
     (let p = (length (luhn_clean a) + Suc (length (luhn_clean b))) mod 2
      in luhn_loop p 0 (luhn_clean a) 0 + luhn_loop p (Suc (length (luhn_clean a))) (luhn_clean b) 0)"

definition luhn_rest2 :: "string \<Rightarrow> string \<Rightarrow> int" where
  "luhn_rest2 a b =
     (let p = (length (luhn_clean a) + Suc (Suc (length (luhn_clean b)))) mod 2
      in luhn_loop p 0 (luhn_clean a) 0
         + luhn_loop p (Suc (Suc (length (luhn_clean a)))) (luhn_clean b) 0)"

lemma luhn_mid:
  assumes "is_digit c"
  shows "IsValidLuhn (a @ c # b) \<longleftrightarrow>
    list_all is_digit (luhn_clean a) \<and> list_all is_digit (luhn_clean b) \<and>
    (luhn_rest a b + luhn_digit (luhn_dbl a b) (digit_val c)) mod 10 = 0"
proof -
  have "luhn_loop p 0 (luhn_clean (a @ c # b)) 0
    = luhn_loop p 0 (luhn_clean a) 0 + luhn_loop p (Suc (length (luhn_clean a))) (luhn_clean b) 0
      + luhn_digit (length (luhn_clean a) mod 2 = p) (digit_val c)" for p
    using assms
    by (simp add: luhn_clean_append luhn_clean_digit luhn_loop_append luhn_loop_Cons del: luhn_loop.simps)
  then show ?thesis
    using assms
    by (simp add: IsValidLuhn_loop luhn_rest_def luhn_dbl_def Let_def)
      (simp add: luhn_clean_append luhn_clean_digit)
qed

lemma luhn_mid2:
  assumes "is_digit c" "is_digit d" "is_digit x"
  shows "IsValidLuhn (a @ c # d # b) \<longleftrightarrow>
    list_all is_digit (luhn_clean a) \<and> list_all is_digit (luhn_clean b) \<and>
    (luhn_rest2 a b + (luhn_digit (luhn_dbl a (x # b)) (digit_val c)
       + luhn_digit (\<not> luhn_dbl a (x # b)) (digit_val d))) mod 10 = 0"
proof -
  have flag: "luhn_dbl a (x # b) \<longleftrightarrow> even (length (luhn_clean b))"
    using assms(3) unfolding luhn_dbl_def by (simp add: luhn_clean_digit) presburger
  have alt: "(Suc n mod 2 = (n + Suc (Suc m)) mod 2) \<longleftrightarrow> odd m"
    "(n mod 2 = (n + Suc (Suc m)) mod 2) \<longleftrightarrow> even m" for n m :: nat
    by presburger+
  have "luhn_loop p 0 (luhn_clean (a @ c # d # b)) 0
    = luhn_loop p 0 (luhn_clean a) 0 + luhn_loop p (Suc (Suc (length (luhn_clean a)))) (luhn_clean b) 0
      + (luhn_digit (length (luhn_clean a) mod 2 = p) (digit_val c)
         + luhn_digit (Suc (length (luhn_clean a)) mod 2 = p) (digit_val d))" for p
    using assms
    by (simp add: luhn_clean_append luhn_clean_digit luhn_loop_append luhn_loop_Cons del: luhn_loop.simps)
  moreover have "length (luhn_clean (a @ c # d # b))
      = length (luhn_clean a) + Suc (Suc (length (luhn_clean b)))"
    and "list_all is_digit (luhn_clean (a @ c # d # b)) \<longleftrightarrow>
      list_all is_digit (luhn_clean a) \<and> list_all is_digit (luhn_clean b)"
    using assms by (simp_all add: luhn_clean_append luhn_clean_digit)
  ultimately show ?thesis
    by (simp only: IsValidLuhn_loop luhn_rest2_def Let_def flag alt not_not)
      (simp only: conj_assoc)
qed

lemma luhn_same_rest:
  fixes r x y :: int
  assumes "(r + x) mod 10 = 0" "(r + y) mod 10 = 0"
  shows "x mod 10 = y mod 10"
proof -
  have "10 dvd (r + x) - (r + y)"
    using assms by (simp only: mod_eq_dvd_iff [symmetric])
  then show ?thesis by (simp add: mod_eq_dvd_iff)
qed

lemma luhn_clean_Nil [simp]: "luhn_clean [] = []"
  by (simp add: luhn_clean_def remove_all_def)

lemma luhn_dbl_last: "\<not> luhn_dbl a []"
  by (simp add: luhn_dbl_def) presburger

lemma luhn_digit_gain:
  "luhn_digit True x - int x = (if x \<le> 4 then int x else int x - 9)"
  "luhn_digit False x = int x"
  by (simp_all add: luhn_digit_def Let_def)

lemma luhn_swap_inj:
  assumes "x \<le> 9" "y \<le> 9" "\<not> (x = 0 \<and> y = 9)" "\<not> (x = 9 \<and> y = 0)"
    and "(luhn_digit b x + luhn_digit (\<not> b) y) mod 10 = (luhn_digit b y + luhn_digit (\<not> b) x) mod 10"
  shows "x = y"
proof -
  define g :: "nat \<Rightarrow> int" where "g z = (if z \<le> 4 then int z else int z - 9)" for z
  have l: "luhn_digit True z = int z + g z" for z
    using luhn_digit_gain(1) [of z] by (simp add: g_def)
  have b: "- 4 \<le> g z \<and> g z \<le> 4" if "z \<le> 9" for z
    using that by (simp add: g_def)
  have gain: "(u - v) mod 10 = 0" if "(p + u + q) mod 10 = (q + v + p) mod 10" for p q u v :: int
  proof -
    from that have "10 dvd (p + u + q) - (q + v + p)" by (simp only: mod_eq_dvd_iff)
    moreover have "(p + u + q) - (q + v + p) = u - v" by simp
    ultimately show ?thesis by simp
  qed
  have "(int x + g x + int y) mod 10 = (int y + g y + int x) mod 10"
  proof (cases b)
    case True
    with assms(5) show ?thesis by (simp only: l luhn_digit_gain(2) simp_thms)
  next
    case False
    with assms(5) show ?thesis
      by (simp only: l luhn_digit_gain(2) simp_thms add.commute add.left_commute add.assoc)
  qed
  then have "(g x - g y) mod 10 = 0" by (rule gain)
  then have "g x = g y"
    using b [OF assms(1)] b [OF assms(2)] by presburger
  then have "int x = int y \<or> int x = int y + 9 \<or> int y = int x + 9"
    unfolding g_def by (cases "x \<le> 4"; cases "y \<le> 4") simp_all
  then show ?thesis
    using assms(1-4) by linarith
qed

lemma digit_val_0: "digit_val x = 0 \<Longrightarrow> is_digit x \<Longrightarrow> x = CHR ''0''"
  by (rule digit_val_inj) (auto simp: is_digit_def digit_val_def)

lemma digit_val_9: "digit_val x = 9 \<Longrightarrow> is_digit x \<Longrightarrow> x = CHR ''9''"
  by (rule digit_val_inj) (auto simp: is_digit_def digit_val_def)

section \<open>Properties\<close>

text \<open>C26. The left-to-right pass with the parity trick accepts a number exactly when, separators
removed, it is made of digits and the textbook right-to-left checksum is a multiple of 10.\<close>
theorem IsValidLuhn_textbook:
  "IsValidLuhn s \<longleftrightarrow> list_all is_digit (luhn_clean s) \<and> textbook_luhn (luhn_clean s)"
proof -
  have "luhn_loop (length (luhn_clean s) mod 2) 0 (luhn_clean s) 0
      = textbook_sum False (map digit_val (rev (luhn_clean s)))" if "list_all is_digit (luhn_clean s)"
    using luhn_loop_textbook [OF that, of 0] by simp
  then show ?thesis by (auto simp: IsValidLuhn_loop textbook_luhn_def)
qed

text \<open>Typing one digit wrong anywhere in an accepted number is always noticed.\<close>
lemma IsValidLuhn_single_error:
  assumes "IsValidLuhn (a @ c # b)" "is_digit c" "is_digit d" "c \<noteq> d"
  shows "\<not> IsValidLuhn (a @ d # b)"
proof
  assume "IsValidLuhn (a @ d # b)"
  then have "luhn_digit (luhn_dbl a b) (digit_val c) mod 10 = luhn_digit (luhn_dbl a b) (digit_val d) mod 10"
    using assms(1-3) by (intro luhn_same_rest [where r = "luhn_rest a b"]) (auto simp: luhn_mid)
  then have "digit_val c = digit_val d"
    using assms(2,3) by (intro luhn_digit_mod_inj) auto
  with assms(2-4) show False by (auto dest: digit_val_inj)
qed

text \<open>Swapping two different neighbouring digits of an accepted number is always noticed,
unless the two are 0 and 9.\<close>
lemma IsValidLuhn_transposition:
  assumes "IsValidLuhn (a @ c # d # b)" "is_digit c" "is_digit d" "c \<noteq> d"
    and "{c, d} \<noteq> {CHR ''0'', CHR ''9''}"
  shows "\<not> IsValidLuhn (a @ d # c # b)"
proof
  assume s: "IsValidLuhn (a @ d # c # b)"
  let ?f = "luhn_dbl a (c # b)"
  let ?w = "\<lambda>x y. luhn_digit ?f (digit_val x) + luhn_digit (\<not> ?f) (digit_val y)"
  have "?w c d mod 10 = ?w d c mod 10"
    using assms(1-3) s
    by (intro luhn_same_rest [where r = "luhn_rest2 a b"]) (auto simp: luhn_mid2)
  then have "digit_val c = digit_val d"
    using assms(2,3,5) by (intro luhn_swap_inj [of _ _ ?f]) (auto dest: digit_val_0 digit_val_9)
  with assms(2-4) show False by (auto dest: digit_val_inj)
qed

text \<open>C32. One wrong digit anywhere in an accepted number is always noticed, and so is a swap of two
different neighbouring digits, unless the two are 0 and 9.\<close>
theorem IsValidLuhn_detects:
  assumes "is_digit c" "is_digit d" "c \<noteq> d"
  shows "(IsValidLuhn (a @ c # b) \<longrightarrow> \<not> IsValidLuhn (a @ d # b)) \<and>
    (IsValidLuhn (a @ c # d # b) \<longrightarrow> {c, d} \<noteq> {CHR ''0'', CHR ''9''} \<longrightarrow> \<not> IsValidLuhn (a @ d # c # b))"
  using IsValidLuhn_single_error [OF _ assms] IsValidLuhn_transposition [OF _ assms] by blast

theorem IsValidLuhn_detects_witness:
  "IsValidLuhn (''12345678'' @ CHR ''9'' # CHR ''7'' # []) \<and> \<not> IsValidLuhn (''12345678'' @ CHR ''7'' # CHR ''7'' # []) \<and>
   \<not> IsValidLuhn (''12345678'' @ CHR ''7'' # CHR ''9'' # [])"
proof -
  have v: "IsValidLuhn (''12345678'' @ CHR ''9'' # CHR ''7'' # [])" by code_simp
  have d: "is_digit (CHR ''9'')" "is_digit (CHR ''7'')" "CHR ''9'' \<noteq> CHR ''7''" by (simp_all add: is_digit_def)
  have n: "{CHR ''9'', CHR ''7''} \<noteq> {CHR ''0'', CHR ''9''}" by (auto simp: doubleton_eq_iff)
  show ?thesis
    using v n IsValidLuhn_detects [OF d, of "''12345678''" "[]"] IsValidLuhn_detects [OF d, of "''12345678''" "[CHR ''7'']"] by blast
qed

text \<open>Every digit string has exactly one check digit that completes it to an accepted
number.\<close>
lemma IsValidLuhn_check_digit:
  assumes "list_all is_digit s"
  shows "\<exists>!c. is_digit c \<and> IsValidLuhn (s @ [c])"
proof -
  have v: "IsValidLuhn (s @ [c]) \<longleftrightarrow> (luhn_rest s [] + int (digit_val c)) mod 10 = 0"
    if "is_digit c" for c
    using luhn_mid [OF that, of s "[]"] assms
    by (simp add: luhn_clean_digits luhn_dbl_last luhn_digit_def luhn_clean_Nil)
  let ?n = "nat ((- luhn_rest s []) mod 10)"
  have n: "?n < 10" by simp
  have "(luhn_rest s [] + int ?n) mod 10 = 0" by (simp add: mod_add_right_eq)
  with n have ex: "is_digit (digit_char ?n) \<and> IsValidLuhn (s @ [digit_char ?n])"
    by (simp add: v)
  have "c = d" if "is_digit c \<and> IsValidLuhn (s @ [c])" "is_digit d \<and> IsValidLuhn (s @ [d])" for c d
  proof -
    have "int (digit_val c) mod 10 = int (digit_val d) mod 10"
      using that by (intro luhn_same_rest [where r = "luhn_rest s []"]) (auto simp: v)
    moreover have "digit_val c \<le> 9" "digit_val d \<le> 9" using that by simp_all
    ultimately have "digit_val c = digit_val d" by simp
    then show "c = d" using that by (auto dest: digit_val_inj)
  qed
  with ex show ?thesis by blast
qed

theorem IsValidLuhn_check_digit_witness:
  "list_all is_digit ''7992739871'' \<and> (\<exists>!c. is_digit c \<and> IsValidLuhn (''7992739871'' @ [c]))"
proof -
  have d: "list_all is_digit ''7992739871''" by (simp add: is_digit_def)
  show ?thesis using d IsValidLuhn_check_digit [OF d] by blast
qed

end
