(* ===== verification/Services.thy ===== *)
theory Services
  imports Contracts Luhn
begin

text \<open>
  \<open>internal/services\<close>: registration and login, storing and listing orders, the processing of an
  accrual task, balances and withdrawals, tokens. The services are functions of the storage they
  are constructed with. A handler returns its result, which may be a panic, and the state it leaves;
  \<open>bcrypt\<close>, the token library and the accrual client are arguments.
\<close>

type_synonym ('a, 's) serviced = "'a outcome \<times> 's"

section \<open>Claims\<close>

text \<open>\<open>common.Claims\<close>; \<open>middleware.GetClaims\<close> gives a nil pointer when the context has none.\<close>

record claims =
  cl_UserID :: string
  cl_Login :: string
  cl_ExpiresAt :: time
  cl_IssuedAt :: time

section \<open>Registration and login\<close>

definition CommonService_Login ::
  "(string \<Rightarrow> string \<Rightarrow> bool) \<Rightarrow> 's SQLStorageInterface \<Rightarrow> user \<Rightarrow> 's \<Rightarrow> go_error option \<times> 's" where
  "CommonService_Login CompareHashAndPassword db userFromRequest s =
     (case User_Validate userFromRequest of
        Some err \<Rightarrow> (Some err, s)
      | None \<Rightarrow>
          (case st_GetUser db (user_Login userFromRequest) s of
             (Inl err, s) \<Rightarrow> (Some err, s)
           | (Inr userFromDb, s) \<Rightarrow>
               if \<not> CompareHashAndPassword (user_Hash userFromDb) (user_Password userFromRequest)
               then (Some (UserErr ErrWrongPassword), s)
               else (None, s)))"

definition fillUserIfRequired ::
  "(string \<Rightarrow> go_error + string) \<Rightarrow> user \<Rightarrow> go_error option \<times> user" where
  "fillUserIfRequired hashPassword u =
     (if user_Password u \<noteq> [] \<and> user_Hash u = []
      then (case hashPassword (user_Password u) of
              Inl err \<Rightarrow> (Some err, u)
            | Inr hash \<Rightarrow> (None, u\<lparr>user_Hash := hash\<rparr>))
      else (None, u))"

definition CommonService_Register ::
  "(string \<Rightarrow> go_error + string) \<Rightarrow> 's SQLStorageInterface \<Rightarrow> user \<Rightarrow> 's \<Rightarrow>
   (go_error option \<times> user) \<times> 's" where
  "CommonService_Register hashPassword db u s =
     (case User_Validate u of
        Some err \<Rightarrow> ((Some err, u), s)
      | None \<Rightarrow>
          (case fillUserIfRequired hashPassword u of
             (Some err, u) \<Rightarrow> ((Some err, u), s)
           | (None, u) \<Rightarrow> st_AddUser db u s))"

text \<open>\<open>AuthService.GenerateToken\<close>; \<open>SignedString\<close> is the token library with the service's key.\<close>

definition GenerateToken ::
  "(claims \<Rightarrow> go_error + string) \<Rightarrow> time \<Rightarrow> user \<Rightarrow> time \<Rightarrow> go_error + string" where
  "GenerateToken SignedString issued u expireAt =
     SignedString \<lparr>cl_UserID = user_ID u, cl_Login = user_Login u, cl_ExpiresAt = expireAt,
       cl_IssuedAt = issued\<rparr>"

section \<open>Orders\<close>

text \<open>A task of the pool is an order; the channel carries copies.\<close>

type_synonym task = order

record ('s, 'c) OrderService =
  os_db :: 's
  os_client :: 'c
  os_reports :: "task chan"
  os_pause :: "go_int chan"

definition sendOrderToProcessor ::
  "order \<Rightarrow> ('s, 'c) OrderService \<Rightarrow> (unit, ('s, 'c) OrderService) serviced" where
  "sendOrderToProcessor m o' =
     (case try_send m (os_reports o') of
        Panics p \<Rightarrow> (Panics p, o')
      | Returns ch \<Rightarrow> (Returns (), o'\<lparr>os_reports := ch\<rparr>))"

definition OrderService_Store ::
  "'s SQLStorageInterface \<Rightarrow> claims option \<Rightarrow> string \<Rightarrow> ('s, 'c) OrderService \<Rightarrow>
   (go_error option, ('s, 'c) OrderService) serviced" where
  "OrderService_Store db claims idStr o' =
     (if \<not> IsValidLuhn idStr then (Returns (Some (OrderErr ErrOrderWrongFormat)), o')
      else case claims of None \<Rightarrow> (Panics NilDereference, o')
      | Some c \<Rightarrow>
        (case NewOrder idStr (cl_UserID c) OrderNewStatus of
           Inl err \<Rightarrow> (Returns (Some err), o')
         | Inr m \<Rightarrow>
           (case Order_Validate m of Some err \<Rightarrow> (Returns (Some err), o')
            | None \<Rightarrow>
              (case st_AddOrder db m (os_db o') of
                 ((Some err, m), s) \<Rightarrow>
                   if \<not> errors_Is err (OrderErr ErrOrderExists)
                   then (Returns (Some err), o'\<lparr>os_db := s\<rparr>)
                   else (case st_GetOrder db (ord_ID m) (ord_UserID m) s of
                           (Inl err, s) \<Rightarrow>
                             if errors_Is err (OrderErr ErrOrderNotFound)
                             then (Returns (Some (OrderErr ErrOrderBelongsToOtherUser)), o'\<lparr>os_db := s\<rparr>)
                             else (Returns (Some err), o'\<lparr>os_db := s\<rparr>)
                         | (Inr _, s) \<Rightarrow> (Returns (Some (OrderErr ErrOrderExists)), o'\<lparr>os_db := s\<rparr>))
               | ((None, m), s) \<Rightarrow>
                   (case sendOrderToProcessor m (o'\<lparr>os_db := s\<rparr>) of
                      (Panics p, o') \<Rightarrow> (Panics p, o')
                    | (Returns _, o') \<Rightarrow> (Returns None, o'))))))"

definition OrderService_List ::
  "'s SQLStorageInterface \<Rightarrow> claims option \<Rightarrow> 's \<Rightarrow> (go_error + order list, 's) serviced" where
  "OrderService_List db claims s =
     (case claims of None \<Rightarrow> (Panics NilDereference, s)
      | Some c \<Rightarrow> (case st_ListOrders db (cl_UserID c) s of (r, s) \<Rightarrow> (Returns r, s)))"

text \<open>
  \<open>err.(clients.AccrualError)\<close>: of the errors only \<open>ServiceIsBusyError\<close> has those methods, and an
  assertion does not look into wrapped errors.
\<close>

fun as_AccrualError :: "go_error \<Rightarrow> go_int option" where
  "as_AccrualError (ServiceIsBusyError delay cause) = Some delay"
| "as_AccrualError _ = None"

text \<open>The result of a handler after a last send.\<close>

definition send_then :: "'a \<Rightarrow> order \<Rightarrow> ('s, 'c) OrderService \<Rightarrow> ('a, ('s, 'c) OrderService) serviced" where
  "send_then r m o' =
     (case sendOrderToProcessor m o' of
        (Panics p, o') \<Rightarrow> (Panics p, o')
      | (Returns _, o') \<Rightarrow> (Returns r, o'))"

text \<open>The answer 429: the signal to the dispatcher, if nobody sent one yet, and the task back.\<close>

definition busy :: "go_error \<Rightarrow> order \<Rightarrow> ('s, 'c) OrderService \<Rightarrow>
    (go_error option, ('s, 'c) OrderService) serviced" where
  "busy err m o' =
     (case as_AccrualError err of
        None \<Rightarrow> (Returns (Some err), o')
      | Some delay \<Rightarrow>
          (case try_send delay (os_pause o') of
             Panics p \<Rightarrow> (Panics p, o')
           | Returns ch \<Rightarrow> send_then (Some err) m (o'\<lparr>os_pause := ch\<rparr>)))"

text \<open>From \<open>targetStatus := resp.Status\<close> to \<open>SetAccrual\<close>: the order as the answer says it is.\<close>

definition take_answer :: "accrual_response \<Rightarrow> order \<Rightarrow> (go_error option \<times> order) outcome" where
  "take_answer resp m =
     (let targetStatus = if ar_Status resp = OrderRegisteredStatus then OrderNewStatus else ar_Status resp
      in case SetStatus targetStatus m of
        (Some err, m) \<Rightarrow> Returns (Some err, m)
      | (None, m) \<Rightarrow>
          if ar_Accrual resp \<noteq> [] then SetAccrual (ar_Accrual resp) m else Returns (None, m))"

text \<open>The rest of \<open>ProcessAccrualTask\<close>: the order is stored and, while in process, sent back.\<close>

definition record_answer ::
  "'s SQLStorageInterface \<Rightarrow> accrual_response \<Rightarrow> order \<Rightarrow> ('s, 'c) OrderService \<Rightarrow>
   (go_error option, ('s, 'c) OrderService) serviced" where
  "record_answer db resp m o' =
     (case take_answer resp m of
        Panics p \<Rightarrow> (Panics p, o')
      | Returns (Some err, m) \<Rightarrow> (Returns (Some err), o')
      | Returns (None, m) \<Rightarrow>
          (case st_UpdateOrder db m (os_db o') of
             ((Some err, m), s) \<Rightarrow> (Returns (Some err), o'\<lparr>os_db := s\<rparr>)
           | ((None, m), s) \<Rightarrow>
               if ord_Status m = OrderInProcessStatus
               then send_then None m (o'\<lparr>os_db := s\<rparr>)
               else (Returns None, o'\<lparr>os_db := s\<rparr>)))"

definition ProcessAccrualTask ::
  "'s SQLStorageInterface \<Rightarrow> (string \<Rightarrow> 'c \<Rightarrow> (go_error + accrual_response) \<times> 'c) \<Rightarrow>
   task \<Rightarrow> ('s, 'c) OrderService \<Rightarrow> (go_error option, ('s, 'c) OrderService) serviced" where
  "ProcessAccrualTask db GetOrderAccrual task o' =
     (case GetOrderAccrual (ord_ID task) (os_client o') of (r, c) \<Rightarrow>
      let o' = o'\<lparr>os_client := c\<rparr>
      in case r of
        Inl err \<Rightarrow>
          if errors_Is err ErrServiceIsBusy then busy err task o'
          else (Returns (Some err), o')
      | Inr resp \<Rightarrow>
          if ar_Status resp = OrderInProcessStatus \<and> ord_Status task = ar_Status resp
          then send_then None task o'
          else record_answer db resp task o')"

text \<open>
  The same function in its phases, as other goroutines can come in between: the request to the accrual
  service; what is done with its answer, which signals a pause or updates the database; and the send.
\<close>

datatype task_step = Finished "go_error option" | SendBack "go_error option" order

definition answer_task ::
  "'s SQLStorageInterface \<Rightarrow> task \<Rightarrow> go_error + accrual_response \<Rightarrow> ('s, 'c) OrderService \<Rightarrow>
   (task_step, ('s, 'c) OrderService) serviced" where
  "answer_task db task r o' =
     (case r of
        Inl err \<Rightarrow>
          (case (if errors_Is err ErrServiceIsBusy then as_AccrualError err else None) of
             None \<Rightarrow> (Returns (Finished (Some err)), o')
           | Some delay \<Rightarrow>
               (case try_send delay (os_pause o') of
                  Panics p \<Rightarrow> (Panics p, o')
                | Returns ch \<Rightarrow> (Returns (SendBack (Some err) task), o'\<lparr>os_pause := ch\<rparr>)))
      | Inr resp \<Rightarrow>
          if ar_Status resp = OrderInProcessStatus \<and> ord_Status task = ar_Status resp
          then (Returns (SendBack None task), o')
          else (case take_answer resp task of
                  Panics p \<Rightarrow> (Panics p, o')
                | Returns (Some err, m) \<Rightarrow> (Returns (Finished (Some err)), o')
                | Returns (None, m) \<Rightarrow>
                    (case st_UpdateOrder db m (os_db o') of
                       ((Some err, m), s) \<Rightarrow> (Returns (Finished (Some err)), o'\<lparr>os_db := s\<rparr>)
                     | ((None, m), s) \<Rightarrow>
                         (Returns (if ord_Status m = OrderInProcessStatus then SendBack None m else Finished None),
                          o'\<lparr>os_db := s\<rparr>))))"

lemma ProcessAccrualTask_phases:
  "ProcessAccrualTask db GetOrderAccrual task o' =
     (case GetOrderAccrual (ord_ID task) (os_client o') of (r, c) \<Rightarrow>
        (case answer_task db task r (o'\<lparr>os_client := c\<rparr>) of
           (Panics p, o') \<Rightarrow> (Panics p, o')
         | (Returns (Finished e), o') \<Rightarrow> (Returns e, o')
         | (Returns (SendBack e m), o') \<Rightarrow> send_then e m o'))"
  by (auto simp: ProcessAccrualTask_def answer_task_def busy_def record_answer_def Let_def
      split: prod.split sum.split option.split outcome.split)

section \<open>Balances\<close>

definition GetBalanceInfo ::
  "'s SQLStorageInterface \<Rightarrow> claims option \<Rightarrow> 's \<Rightarrow> (go_error + balance, 's) serviced" where
  "GetBalanceInfo db claims s =
     (case claims of None \<Rightarrow> (Panics NilDereference, s)
      | Some c \<Rightarrow>
        (case st_GetUserByID db (cl_UserID c) s of
           (Inl err, s) \<Rightarrow> (Returns (Inl err), s)
         | (Inr u, s) \<Rightarrow>
             (case st_GetWithdrawn db (cl_UserID c) s of
                (Inl err, s) \<Rightarrow>
                  if \<not> errors_Is err ErrWithdrawnNotFound then (Returns (Inl err), s)
                  else (Returns (Inr (NewBalanceItem (user_Balance u) 0)), s)
              | (Inr wd, s) \<Rightarrow> (Returns (Inr (NewBalanceItem (user_Balance u) (wd_Sum wd))), s))))"

definition Withdraw ::
  "'s SQLStorageInterface \<Rightarrow> claims option \<Rightarrow> withdrawal \<Rightarrow> 's \<Rightarrow>
   (go_error option \<times> withdrawal, 's) serviced" where
  "Withdraw db claims wd s =
     (if \<not> IsValidLuhn (wd_OrderID wd) then (Returns (Some (OrderErr ErrOrderWrongFormat), wd), s)
      else case claims of None \<Rightarrow> (Panics NilDereference, s)
      | Some c \<Rightarrow>
        (case st_AddWithdrawn db (wd\<lparr>wd_UserID := cl_UserID c\<rparr>) s of (r, s) \<Rightarrow> (Returns r, s)))"

definition BalanceService_ListWithdrawals ::
  "'s SQLStorageInterface \<Rightarrow> claims option \<Rightarrow> 's \<Rightarrow> (go_error + withdrawal list, 's) serviced" where
  "BalanceService_ListWithdrawals db claims s =
     (case claims of None \<Rightarrow> (Panics NilDereference, s)
      | Some c \<Rightarrow> (case st_ListWithdrawals db (cl_UserID c) s of (r, s) \<Rightarrow> (Returns r, s)))"

section \<open>What the services owe to their storage\<close>

text \<open>What \<open>AddUser\<close> with the password \<open>p\<close> leaves is what \<open>Login\<close> accepts.\<close>

lemma Register_cases:
  assumes "CommonService_Register hp db u s = ((None, u'), t)"
  obtains h where "User_Validate u = None" "st_AddUser db (u\<lparr>user_Hash := h\<rparr>) s = ((None, u'), t)"
    "user_Hash u = [] \<longrightarrow> hp (user_Password u) = Inr h" "user_Hash u \<noteq> [] \<longrightarrow> h = user_Hash u"
proof -
  have v: "User_Validate u = None" using assms by (auto simp: CommonService_Register_def split: option.splits)
  then have p: "user_Password u \<noteq> []"
    by (auto simp: User_Validate_def MinPasswordLength_def split: if_splits)
  show thesis
  proof (cases "user_Hash u = []")
    case True
    then obtain h where h: "hp (user_Password u) = Inr h"
      using assms v p by (auto simp: CommonService_Register_def fillUserIfRequired_def split: sum.splits)
    then show thesis
      using that [of h] assms v p True by (simp add: CommonService_Register_def fillUserIfRequired_def)
  next
    case False
    have "u\<lparr>user_Hash := user_Hash u\<rparr> = u" by simp
    then show thesis
      using that [of "user_Hash u"] assms v False by (simp add: CommonService_Register_def fillUserIfRequired_def)
  qed
qed

context user_storage
begin

lemma Register_stores:
  assumes "good s" "CommonService_Register hp st u s = ((None, u'), t)" "user_Hash u = []"
  shows "\<exists>h. hp (user_Password u) = Inr h \<and> stored s (user_Login u) = None \<and>
    stored t = (stored s)(user_Login u \<mapsto> (user_ID u', h)) \<and> good t \<and> user_Login u' = user_Login u"
  using assms(2)
proof (cases rule: Register_cases)
  case (1 h)
  then show ?thesis
    using AddUser_ok [OF assms(1) 1(2)] keepsD [OF keeps_users(1) assms(1) 1(2)] assms(3)
    by (auto simp: same_but_ID_def)
qed

lemma Login_answers:
  assumes "good s" "CommonService_Login cmp st u s = (r, t)"
  shows "good t" "stored t = stored s"
    and "r = None \<Longrightarrow> \<exists>i h. stored s (user_Login u) = Some (i, h) \<and> cmp h (user_Password u)"
    and "r = Some (UserErr ErrWrongPassword) \<Longrightarrow>
      \<exists>i h. stored s (user_Login u) = Some (i, h) \<and> \<not> cmp h (user_Password u)"
    and "r = Some (UserErr ErrUserNotFound) \<Longrightarrow> stored s (user_Login u) = None"
    and "User_Validate u = None \<Longrightarrow> r \<in> {None, Some (UserErr ErrWrongPassword), Some (UserErr ErrUserNotFound)}
      \<or> (\<exists>d. r = Some (DriverErr d))"
proof -
  have "good t \<and> stored t = stored s \<and>
    (r = None \<longrightarrow> (\<exists>i h. stored s (user_Login u) = Some (i, h) \<and> cmp h (user_Password u))) \<and>
    (r = Some (UserErr ErrWrongPassword) \<longrightarrow>
      (\<exists>i h. stored s (user_Login u) = Some (i, h) \<and> \<not> cmp h (user_Password u))) \<and>
    (r = Some (UserErr ErrUserNotFound) \<longrightarrow> stored s (user_Login u) = None) \<and>
    (User_Validate u = None \<longrightarrow> r \<in> {None, Some (UserErr ErrWrongPassword), Some (UserErr ErrUserNotFound)}
      \<or> (\<exists>d. r = Some (DriverErr d)))"
  proof (cases "User_Validate u")
    case (Some e)
    moreover have "e \<notin> {UserErr ErrWrongPassword, UserErr ErrUserNotFound}"
      using Some by (auto simp: User_Validate_def split: if_splits)
    ultimately show ?thesis using assms by (auto simp: CommonService_Login_def)
  next
    case None
    obtain g s1 where g: "st_GetUser st (user_Login u) s = (g, s1)" by fastforce
    note k = keepsD [OF keeps_users(2) assms(1) g]
    show ?thesis
    proof (cases g)
      case (Inl e)
      then show ?thesis
        using GetUser_err [OF assms(1)] assms(2) None g k by (fastforce simp: CommonService_Login_def)
    next
      case (Inr v)
      then show ?thesis
        using GetUser_ok [OF assms(1)] assms(2) None g k
        by (fastforce simp: CommonService_Login_def split: if_splits)
    qed
  qed
  then show "good t" "stored t = stored s"
    and "r = None \<Longrightarrow> \<exists>i h. stored s (user_Login u) = Some (i, h) \<and> cmp h (user_Password u)"
    and "r = Some (UserErr ErrWrongPassword) \<Longrightarrow>
      \<exists>i h. stored s (user_Login u) = Some (i, h) \<and> \<not> cmp h (user_Password u)"
    and "r = Some (UserErr ErrUserNotFound) \<Longrightarrow> stored s (user_Login u) = None"
    and "User_Validate u = None \<Longrightarrow> r \<in> {None, Some (UserErr ErrWrongPassword), Some (UserErr ErrUserNotFound)}
      \<or> (\<exists>d. r = Some (DriverErr d))"
    by blast+
qed

text \<open>A new user can log in with the same password and with no other, as far as bcrypt tells them apart.\<close>

lemma Register_then_Login:
  assumes "good s" "CommonService_Register hp st u s = ((None, u'), t)" "user_Hash u = []"
    and "\<And>h. hp (user_Password u) = Inr h \<Longrightarrow> cmp h (user_Password v) \<longleftrightarrow> user_Password v = user_Password u"
    and "CommonService_Login cmp st v t = (r, t')" "user_Login v = user_Login u" "User_Validate v = None"
  shows "(\<exists>d. r = Some (DriverErr d)) \<or>
    r = (if user_Password v = user_Password u then None else Some (UserErr ErrWrongPassword))"
proof -
  obtain h where h: "hp (user_Password u) = Inr h" "stored t (user_Login v) = Some (user_ID u', h)" "good t"
    using Register_stores [OF assms(1-3)] assms(6) by auto
  note l = Login_answers [OF h(3) assms(5)]
  show ?thesis
    using l(3-5) l(6) [OF assms(7)] h assms(4) [OF h(1)] by auto
qed

text \<open>What a registration answers.\<close>

lemma Register_answers:
  assumes "good s" "CommonService_Register hp st u s = ((r, u'), t)" "user_Hash u = []"
    and "\<forall>p e. hp p = Inl e \<longrightarrow> e = ErrBcrypt"
  shows "good t"
    and "r = None \<Longrightarrow> \<exists>h. hp (user_Password u) = Inr h \<and> stored s (user_Login u) = None \<and>
      stored t = (stored s)(user_Login u \<mapsto> (user_ID u', h)) \<and> user_Login u' = user_Login u"
    and "r = Some (UserErr ErrUserExists) \<Longrightarrow> stored s (user_Login u) \<noteq> None \<and> stored t = stored s"
    and "r \<in> {None, Some (UserErr ErrUserExists), Some ErrBcrypt} \<or> r = User_Validate u \<or> (\<exists>d. r = Some (DriverErr d))"
    and "User_Validate u \<noteq> None \<Longrightarrow> r = User_Validate u"
proof -
  let ?claim = "good t \<and> (r = Some (UserErr ErrUserExists) \<longrightarrow> stored s (user_Login u) \<noteq> None \<and> stored t = stored s) \<and>
    (r \<in> {None, Some (UserErr ErrUserExists), Some ErrBcrypt} \<or> r = User_Validate u \<or> (\<exists>d. r = Some (DriverErr d))) \<and>
    (User_Validate u \<noteq> None \<longrightarrow> r = User_Validate u)"
  have ?claim
  proof (cases "User_Validate u")
    case (Some e)
    moreover have "e \<noteq> UserErr ErrUserExists" using Some by (auto simp: User_Validate_def split: if_splits)
    ultimately show ?thesis using assms(1,2) by (auto simp: CommonService_Register_def)
  next
    case None
    then have p: "user_Password u \<noteq> []"
      by (auto simp: User_Validate_def MinPasswordLength_def split: if_splits)
    show ?thesis
    proof (cases "hp (user_Password u)")
      case (Inl e)
      then show ?thesis using assms None p by (auto simp: CommonService_Register_def fillUserIfRequired_def)
    next
      case (Inr h)
      then have a: "st_AddUser st (u\<lparr>user_Hash := h\<rparr>) s = ((r, u'), t)"
        using assms(2,3) None p by (simp add: CommonService_Register_def fillUserIfRequired_def)
      show ?thesis
        using keepsD [OF keeps_users(1) assms(1) a] AddUser_err [OF assms(1), of "u\<lparr>user_Hash := h\<rparr>" _ u' t] a None
        by (cases r) auto
    qed
  qed
  then show "good t" "r = Some (UserErr ErrUserExists) \<Longrightarrow> stored s (user_Login u) \<noteq> None \<and> stored t = stored s"
    "r \<in> {None, Some (UserErr ErrUserExists), Some ErrBcrypt} \<or> r = User_Validate u \<or> (\<exists>d. r = Some (DriverErr d))"
    "User_Validate u \<noteq> None \<Longrightarrow> r = User_Validate u"
    by blast+
  assume "r = None"
  then show "\<exists>h. hp (user_Password u) = Inr h \<and> stored s (user_Login u) = None \<and>
      stored t = (stored s)(user_Login u \<mapsto> (user_ID u', h)) \<and> user_Login u' = user_Login u"
    using Register_stores [OF assms(1) _ assms(3), of hp u' t] assms(2) by auto
qed

end

definition new_order :: "string \<Rightarrow> claims \<Rightarrow> order" where
  "new_order i c = zero_order\<lparr>ord_ID := i, ord_UserID := cl_UserID c, ord_Status := OrderNewStatus\<rparr>"

context order_storage
begin

text \<open>The three answers to a number the checksum accepts.\<close>

lemma Store_answers:
  assumes "good (os_db o')" "OrderService_Store st (Some c) i o' = (Returns r, t)"
  shows "good (os_db t) \<and> canon (os_db t) = canon (os_db o') \<and>
    (r = None \<longrightarrow> IsValidLuhn i \<and> owner (os_db o') i = None \<and> canon (os_db o') (cl_UserID c) \<noteq> None \<and>
       owner (os_db t) = (owner (os_db o'))(i := canon (os_db o') (cl_UserID c))) \<and>
    (r = Some (OrderErr ErrOrderExists) \<longrightarrow>
       owner (os_db o') i \<noteq> None \<and> owner (os_db o') i = canon (os_db o') (cl_UserID c) \<and>
       owner (os_db t) = owner (os_db o')) \<and>
    (r = Some (OrderErr ErrOrderBelongsToOtherUser) \<longrightarrow>
       owner (os_db o') i \<noteq> None \<and> owner (os_db o') i \<noteq> canon (os_db o') (cl_UserID c) \<and>
       owner (os_db t) = owner (os_db o'))"
proof (cases "IsValidLuhn i \<and> Order_Validate (new_order i c) = None")
  case False
  moreover have "e \<noteq> OrderErr ErrOrderExists \<and> e \<noteq> OrderErr ErrOrderBelongsToOtherUser"
    if "Order_Validate (new_order i c) = Some e" for e
    using that by (auto simp: Order_Validate_def split: if_splits)
  ultimately show ?thesis
    using assms by (auto simp: OrderService_Store_def NewOrder_def new_order_def [symmetric] split: if_splits option.splits)
next
  case True
  obtain e m s1 where a: "st_AddOrder st (new_order i c) (os_db o') = ((e, m), s1)" by (metis prod.collapse)
  note k = keepsD [OF keeps_orders(1) assms(1) a]
  show ?thesis
  proof (cases e)
    case None
    have r: "r = None" "os_db t = s1"
      using assms(2) True a None
      by (auto simp: OrderService_Store_def NewOrder_def new_order_def [symmetric] sendOrderToProcessor_def
          split: option.splits prod.splits outcome.splits)
    then show ?thesis
      using AddOrder_ok [OF assms(1)] a None k True by (fastforce simp: new_order_def zero_order_def)
  next
    case (Some x)
    note ae = AddOrder_err [OF assms(1) a [unfolded Some]]
    then have m: "m = (new_order i c)" by blast
    show ?thesis
    proof (cases "x = OrderErr ErrOrderExists")
      case False
      then show ?thesis
        using ae assms(2) True a Some k by (auto simp: OrderService_Store_def NewOrder_def new_order_def [symmetric])
    next
      case x: True
      have own: "owner (os_db o') i \<noteq> None" "owner s1 = owner (os_db o')" using ae x by (auto simp: new_order_def zero_order_def)
      obtain g s2 where g: "st_GetOrder st i (cl_UserID c) s1 = (g, s2)" by fastforce
      note k2 = keepsD [OF keeps_orders(2) conjunct1 [OF k] g]
      have t: "t = o'\<lparr>os_db := s2\<rparr>" "r = (case g of Inl e \<Rightarrow>
          Some (if errors_Is e (OrderErr ErrOrderNotFound) then OrderErr ErrOrderBelongsToOtherUser else e)
          | Inr _ \<Rightarrow> Some (OrderErr ErrOrderExists))"
        using assms(2) True a Some x m g
        by (auto simp: OrderService_Store_def NewOrder_def new_order_def [symmetric] new_order_def zero_order_def split: sum.splits if_splits)
      show ?thesis
      proof (cases g)
        case (Inl y)
        then show ?thesis
          using GetOrder_err [OF conjunct1 [OF k] g [unfolded Inl]] t own k k2 by auto
      next
        case (Inr y)
        then show ?thesis
          using GetOrder_ok [OF conjunct1 [OF k] g [unfolded Inr]] t own k k2 by auto
      qed
    qed
  qed
qed

text \<open>Every other answer is an error of the database or of the validation.\<close>

lemma Store_range:
  assumes "good (os_db o')" "OrderService_Store st (Some c) i o' = (Returns r, t)"
  shows "(r = Some (OrderErr ErrOrderWrongFormat) \<longleftrightarrow> \<not> IsValidLuhn i) \<and>
    (r \<in> {None, Some (OrderErr ErrOrderWrongFormat), Some (OrderErr ErrOrderExists),
         Some (OrderErr ErrOrderBelongsToOtherUser)}
     \<or> (\<exists>d. r = Some (DriverErr d)) \<or> (\<exists>m. r = Some (ErrorString m)))"
proof -
  let ?m = "zero_order\<lparr>ord_ID := i, ord_UserID := cl_UserID c, ord_Status := OrderNewStatus\<rparr>"
  have v: "Order_Validate ?m = Some e \<Longrightarrow> \<exists>m. e = ErrorString m" for e
    by (auto simp: Order_Validate_def validStatuses_def split: if_splits)
  obtain e m s1 where a: "st_AddOrder st ?m (os_db o') = ((e, m), s1)" by (metis prod.collapse)
  obtain g s2 where g: "st_GetOrder st (ord_ID m) (ord_UserID m) s1 = (g, s2)" by fastforce
  note k = keepsD [OF keeps_orders(1) assms(1) a]
  show ?thesis
    using assms(2) v a g AddOrder_err [OF assms(1), of ?m _ m s1] GetOrder_err [OF conjunct1 [OF k], of "ord_ID m" "ord_UserID m" _ s2]
    by (auto simp: OrderService_Store_def NewOrder_def send_then_def split: if_splits option.splits sum.splits prod.splits outcome.splits)
qed

end

context balance_storage
begin

lemma Withdraw_answers:
  assumes "good s" "Withdraw st (Some c) wd s = (Returns (e, wd'), t)"
  shows "good t \<and> canon t = canon s \<and>
    (e = None \<longrightarrow> IsValidLuhn (wd_OrderID wd) \<and> (\<exists>uid. canon s (cl_UserID c) = Some uid \<and>
       points t = (points s)(uid := points s uid - sint (wd_Sum wd)) \<and>
       spent t = (spent s)(uid := spent s uid + sint (wd_Sum wd)) \<and> 0 < points t uid)) \<and>
    (e = Some (UserErr ErrUserBalanceIsNotEnough) \<longrightarrow> points t = points s \<and> spent t = spent s)"
proof (cases "IsValidLuhn (wd_OrderID wd)")
  case False
  then show ?thesis using assms by (auto simp: Withdraw_def)
next
  case True
  then have w: "st_AddWithdrawn st (wd\<lparr>wd_UserID := cl_UserID c\<rparr>) s = ((e, wd'), t)"
    using assms by (auto simp: Withdraw_def split: prod.splits)
  note k = keepsD [OF keeps_withdrawals(1) assms(1) w]
  show ?thesis
  proof (cases e)
    case None
    then show ?thesis using AddWithdrawn_ok [OF assms(1)] w k True by fastforce
  next
    case (Some x)
    then show ?thesis using AddWithdrawn_err [OF assms(1)] w k by fastforce
  qed
qed

lemma Withdraw_range:
  assumes "good s" "Withdraw st (Some c) wd s = (Returns (e, wd'), t)"
  shows "(e = Some (OrderErr ErrOrderWrongFormat) \<longleftrightarrow> \<not> IsValidLuhn (wd_OrderID wd)) \<and>
    (e \<in> {None, Some (OrderErr ErrOrderWrongFormat), Some (UserErr ErrUserBalanceIsNotEnough)}
     \<or> (\<exists>d. e = Some (DriverErr d)))"
  using assms(2) AddWithdrawn_err [OF assms(1), of "wd\<lparr>wd_UserID := cl_UserID c\<rparr>" _ wd' t]
  by (cases e) (auto simp: Withdraw_def split: if_splits prod.splits)

lemma GetBalanceInfo_answers:
  assumes "good s" "GetBalanceInfo st (Some c) s = (Returns r, t)"
  shows "good t \<and> canon t = canon s"
    and "r = Inr b \<Longrightarrow> points t = points s \<and> spent t = spent s \<and> (\<exists>uid. canon s (cl_UserID c) = Some uid \<and>
      sint (bal_Balance b) = points s uid \<and> sint (bal_Withdrawn b) = spent s uid)"
proof -
  obtain g s1 where g: "st_GetUserByID st (cl_UserID c) s = (g, s1)" by fastforce
  note k1 = keepsD [OF keeps_users(3) assms(1) g]
  obtain h s2 where h: "st_GetWithdrawn st (cl_UserID c) s1 = (h, s2)" by fastforce
  note k2 = keepsD [OF keeps_withdrawals(2) conjunct1 [OF k1] h]
  show "good t \<and> canon t = canon s"
    using assms(2) g h k1 k2 by (auto simp: GetBalanceInfo_def split: sum.splits if_splits)
  assume "r = Inr b"
  then obtain u where u: "g = Inr u" "t = s2" "(\<exists>wd. h = Inr wd \<and> b = NewBalanceItem (user_Balance u) (wd_Sum wd)) \<or>
      (\<exists>e. h = Inl e \<and> errors_Is e ErrWithdrawnNotFound \<and> b = NewBalanceItem (user_Balance u) 0)"
    using assms(2) g h by (auto simp: GetBalanceInfo_def split: sum.splits if_splits)
  note gu = GetUserByID_ok [OF assms(1) g [unfolded u(1)]]
  from u(3) show "points t = points s \<and> spent t = spent s \<and> (\<exists>uid. canon s (cl_UserID c) = Some uid \<and>
      sint (bal_Balance b) = points s uid \<and> sint (bal_Withdrawn b) = spent s uid)"
  proof (elim disjE exE conjE)
    fix wd assume "h = Inr wd" "b = NewBalanceItem (user_Balance u) (wd_Sum wd)"
    then show ?thesis
      using GetWithdrawn_ok [OF conjunct1 [OF k1]] h gu k1 u(2) by (fastforce simp: NewBalanceItem_def)
  next
    fix e assume "h = Inl e" "errors_Is e ErrWithdrawnNotFound" "b = NewBalanceItem (user_Balance u) 0"
    then show ?thesis
      using GetWithdrawn_none [OF conjunct1 [OF k1]] h gu k1 u(2) by (fastforce simp: NewBalanceItem_def)
  qed
qed

end

section \<open>Properties on the repository\<close>

text \<open>C29. After a successful registration a login with the same name succeeds for the same password
and is refused for any other (for which bcrypt answers so), unless the database fails.\<close>
theorem Register_then_Login_outcome:
  assumes "healthy s" "CommonService_Register hashPassword NewSQLStorage u s = ((None, u'), t)" "user_Hash u = []"
    and "\<And>h. hashPassword (user_Password u) = Inr h \<Longrightarrow>
           CompareHashAndPassword h (user_Password v) \<longleftrightarrow> user_Password v = user_Password u"
    and "CommonService_Login CompareHashAndPassword NewSQLStorage v t = (r, t')"
    and "user_Login v = user_Login u" "User_Validate v = None"
  shows "(\<exists>d. r = Some (DriverErr d)) \<or>
    r = (if user_Password v = user_Password u then None else Some (UserErr ErrWrongPassword))"
  using assms by (rule sql_users.Register_then_Login)

text \<open>What \<open>Store\<close> answers about a number: accepted only if the checksum holds and nobody has it,
and then it is this user's; \<open>ErrOrderExists\<close> only if it was this user's before;
\<open>ErrOrderBelongsToOtherUser\<close> only if it is somebody else's.\<close>

lemma Store_classifies:
  assumes "healthy (os_db o')" "OrderService_Store NewSQLStorage (Some c) i o' = (Returns r, t)"
  shows "healthy (os_db t) \<and>
    (r = None \<longrightarrow> IsValidLuhn i \<and> order_owner (os_db o') i = None \<and> uuid_in (os_db o') (cl_UserID c) \<noteq> None \<and>
       order_owner (os_db t) = (order_owner (os_db o'))(i := uuid_in (os_db o') (cl_UserID c))) \<and>
    (r = Some (OrderErr ErrOrderExists) \<longrightarrow> order_owner (os_db o') i \<noteq> None \<and>
       order_owner (os_db o') i = uuid_in (os_db o') (cl_UserID c) \<and> order_owner (os_db t) = order_owner (os_db o')) \<and>
    (r = Some (OrderErr ErrOrderBelongsToOtherUser) \<longrightarrow> order_owner (os_db o') i \<noteq> None \<and>
       order_owner (os_db o') i \<noteq> uuid_in (os_db o') (cl_UserID c) \<and> order_owner (os_db t) = order_owner (os_db o'))"
  using sql_orders.Store_answers [OF assms] by blast

text \<open>C21. The balance shown after a successful withdrawal is the one shown before less the sum, and
the withdrawn total has grown by it.\<close>
theorem Withdraw_then_balance:
  assumes "healthy s" "GetBalanceInfo NewSQLStorage (Some c) s = (Returns (Inr b), s1)"
    and "Withdraw NewSQLStorage (Some c) wd s1 = (Returns (None, wd'), s2)"
    and "GetBalanceInfo NewSQLStorage (Some c) s2 = (Returns (Inr b'), s3)"
  shows "sint (bal_Balance b') = sint (bal_Balance b) - sint (wd_Sum wd) \<and>
    sint (bal_Withdrawn b') = sint (bal_Withdrawn b) + sint (wd_Sum wd) \<and> 0 < sint (bal_Balance b')"
proof -
  note b = sql_balances.GetBalanceInfo_answers [OF assms(1,2)]
  note w = sql_balances.Withdraw_answers [OF conjunct1 [OF b(1)] assms(3)]
  note b' = sql_balances.GetBalanceInfo_answers [OF conjunct1 [OF w] assms(4)]
  show ?thesis using b(1) b(2) [OF refl] w b'(2) [OF refl] by auto
qed

section \<open>Witnesses\<close>

lemma healthy_demo: "healthy (demo_server\<lparr>id_ctr := n, tables := d\<rparr>)"
  if "keys_ok d" "balances_ok d" "\<forall>r\<in>set (users d). length (ur_id r) \<le> n" "withdrawals d = []"
proof -
  have "inj (\<lambda>n. replicate (Suc n) (CHR ''u''))"
    by (rule injI) (metis length_replicate nat.inject)
  moreover have "replicate (Suc m) (CHR ''u'') \<notin> ur_id ` set (users d)" if "n \<le> m" for m
  proof
    assume "replicate (Suc m) (CHR ''u'') \<in> ur_id ` set (users d)"
    then obtain r where "r \<in> set (users d)" "ur_id r = replicate (Suc m) (CHR ''u'')" by auto
    then have "length (replicate (Suc m) (CHR ''u'')) \<le> n" using \<open>\<forall>r\<in>set (users d). length (ur_id r) \<le> n\<close> by metis
    then show False using \<open>n \<le> m\<close> by simp
  qed
  ultimately show ?thesis
    using \<open>keys_ok d\<close> \<open>balances_ok d\<close> \<open>withdrawals d = []\<close>
    by (simp add: healthy_def honest_def demo_server_def fresh_ids_def)
qed

lemma healthy_demo_registered: "healthy (perform (CallAddUser demo_user) demo_server)"
  and healthy_demo_empty: "healthy demo_server"
  and healthy_demo_credited: "healthy (demo_credited 500)"
proof -
  show "healthy (perform (CallAddUser demo_user) demo_server)"
    using healthy_demo [of "empty_db\<lparr>users := [\<lparr>ur_id = ''u'', ur_login = ''anna'', ur_hash = ''hash'',
        ur_balance = 0, ur_version = 1, ur_created = 7\<rparr>]\<rparr>" 1]
    unfolding demo_registered by (simp add: keys_ok_def balances_ok_def empty_db_def)
  show "healthy demo_server"
    using healthy_demo [of empty_db 0] by (simp add: keys_ok_def balances_ok_def empty_db_def demo_server_def)
  show "healthy (demo_credited 500)"
    using healthy_demo [of "tables (demo_credited 500)" 1]
    by (simp add: keys_ok_def balances_ok_def demo_credited_500)
qed

lemma Register_then_Login_outcome_witness:
  fixes u v hash cmp
  defines "u \<equiv> NewUser ''anna'' ''password'' [] 0" and "v \<equiv> NewUser ''anna'' ''passw0rd'' [] 0"
    and "hash \<equiv> \<lambda>p. Inr (CHR ''$'' # p)" and "cmp \<equiv> \<lambda>h p. h = CHR ''$'' # p"
  shows "fst (CommonService_Login cmp NewSQLStorage v (snd (CommonService_Register hash NewSQLStorage u demo_server)))
    = Some (UserErr ErrWrongPassword)"
proof -
  let ?t = "demo_server\<lparr>tables := empty_db\<lparr>users := [\<lparr>ur_id = ''u'', ur_login = ''anna'', ur_hash = ''$password'',
        ur_balance = 0, ur_version = 1, ur_created = 7\<rparr>]\<rparr>, id_ctr := 1\<rparr>"
  have v: "User_Validate u = None" "User_Validate v = None"
    by (simp_all add: u_def v_def User_Validate_def NewUser_def zero_user_def MinLoginLength_def MinPasswordLength_def)
  have r: "CommonService_Register hash NewSQLStorage u demo_server
      = ((None, u\<lparr>user_Hash := ''$password'', user_ID := ''u''\<rparr>), ?t)"
    using v by (simp add: CommonService_Register_def fillUserIfRequired_def hash_def NewSQLStorage_def u_def
        run_defs demo_defs)
  obtain res t' where l: "CommonService_Login cmp NewSQLStorage v ?t = (res, t')" by fastforce
  have "\<not> (\<exists>d. res = Some (DriverErr d))"
    using l v by (auto simp: CommonService_Login_def NewSQLStorage_def GetUser_def withRetry_def select_user_def
        RetryingAttempts_def numeral_3_eq_3 run_stmt_def pop_fault_def QuerySelectUserByLogin_def first_row_def
        demo_server_def empty_db_def v_def NewUser_def zero_user_def split: if_splits)
  then have "res = Some (UserErr ErrWrongPassword)"
    using Register_then_Login_outcome [OF healthy_demo_empty r _ _ l, unfolded cmp_def hash_def] v(2)
    by (simp add: u_def v_def NewUser_def zero_user_def)
  then show ?thesis using l r by simp
qed

definition demo_claims :: claims where
  "demo_claims = \<lparr>cl_UserID = ''u'', cl_Login = ''anna'', cl_ExpiresAt = 10, cl_IssuedAt = 0\<rparr>"

definition demo_orders :: "server \<Rightarrow> (server, unit) OrderService" where
  "demo_orders s = \<lparr>os_db = s, os_client = (), os_reports = make_chan 2, os_pause = make_chan 1\<rparr>"

lemma Store_classifies_witness:
  "order_owner (os_db (snd (OrderService_Store NewSQLStorage (Some demo_claims) ''79927398713''
     (demo_orders (perform (CallAddUser demo_user) demo_server))))) ''79927398713'' = Some ''u''"
proof -
  have luhn: "IsValidLuhn ''79927398713''" by code_simp
  obtain t where r: "OrderService_Store NewSQLStorage (Some demo_claims) ''79927398713''
     (demo_orders (perform (CallAddUser demo_user) demo_server)) = (Returns None, t)"
    unfolding demo_registered using luhn
    by (simp add: OrderService_Store_def demo_claims_def demo_orders_def make_chan_def NewOrder_def Order_Validate_def
        validStatuses_def sendOrderToProcessor_def try_send_def NewSQLStorage_def run_defs demo_defs)
  have u: "uuid_in (perform (CallAddUser demo_user) demo_server) ''u'' = Some ''u''"
    unfolding demo_registered by (simp add: demo_server_def)
  show ?thesis
    unfolding r using Store_classifies [OF _ r] healthy_demo_registered u
    by (simp add: demo_orders_def demo_claims_def del: perform.simps)
qed

lemma demo_balance:
  "GetBalanceInfo NewSQLStorage (Some demo_claims) (demo_credited 500)
    = (Returns (Inr (NewBalanceItem 500 0)), demo_credited 500)"
  unfolding demo_credited_500
  by (simp add: GetBalanceInfo_def GetUserByID_def GetWithdrawn_def select_user_def first_row_def in_int64_def
      QuerySelectUserByID_def QuerySelectWithdrawn_def scan_user_def demo_claims_def NewSQLStorage_def run_defs
      demo_defs retriable_codes)

lemma Withdraw_then_balance_witness:
  "\<exists>b b' wd' s1 s2 s3.
    GetBalanceInfo NewSQLStorage (Some demo_claims) (demo_credited 500) = (Returns (Inr b), s1) \<and>
    Withdraw NewSQLStorage (Some demo_claims) (demo_withdrawal 200) s1 = (Returns (None, wd'), s2) \<and>
    GetBalanceInfo NewSQLStorage (Some demo_claims) s2 = (Returns (Inr b'), s3) \<and>
    sint (bal_Balance b') = sint (bal_Balance b) - 200"
proof -
  have luhn: "IsValidLuhn ''0''" by code_simp
  note defs = GetBalanceInfo_def GetUserByID_def GetWithdrawn_def select_user_def first_row_def
    QuerySelectUserByID_def QuerySelectWithdrawn_def scan_user_def demo_claims_def NewSQLStorage_def run_defs demo_defs
    Withdraw_def in_int64_def retriable_codes
  note b = demo_balance
  have "\<exists>wd' s2. Withdraw NewSQLStorage (Some demo_claims) (demo_withdrawal 200) (demo_credited 500)
      = (Returns (None, wd'), s2)"
    unfolding demo_credited_500 using luhn by (simp add: defs)
  then obtain wd' s2 where w: "Withdraw NewSQLStorage (Some demo_claims) (demo_withdrawal 200) (demo_credited 500)
      = (Returns (None, wd'), s2)" by blast
  have "\<exists>b' s3. GetBalanceInfo NewSQLStorage (Some demo_claims) s2 = (Returns (Inr b'), s3)"
    using w luhn unfolding demo_credited_500 by (auto simp: defs)
  then obtain b' s3 where b': "GetBalanceInfo NewSQLStorage (Some demo_claims) s2 = (Returns (Inr b'), s3)" by blast
  show ?thesis
    using Withdraw_then_balance [OF healthy_demo_credited b w b'] b w b'
    by (simp add: demo_withdrawal_def)
qed

end
