(* ===== verification/Http.thy ===== *)
theory Http
  imports GoStd
begin

text \<open>
  What the handlers and the middleware use of \<open>net/http\<close>: headers, the request, the interface
  \<open>ResponseWriter\<close> as a record of its three methods, and the writer of the server, which sends the
  status and a snapshot of the headers with the first \<open>WriteHeader\<close> and ignores later ones. The
  locale states what a handler relies on, whatever writer the middleware has put around it.
\<close>

section \<open>Headers\<close>

type_synonym header = "string \<Rightarrow> string list"

definition Header_Get :: "string \<Rightarrow> header \<Rightarrow> string" where
  "Header_Get k h = (case h k of [] \<Rightarrow> [] | v # vs \<Rightarrow> v)"

definition Header_Set :: "string \<Rightarrow> string \<Rightarrow> header \<Rightarrow> header" where
  "Header_Set k v h = h(k := [v])"

definition Header_Add :: "string \<Rightarrow> string \<Rightarrow> header \<Rightarrow> header" where
  "Header_Add k v h = h(k := h k @ [v])"

definition Header_Del :: "string \<Rightarrow> header \<Rightarrow> header" where
  "Header_Del k h = h(k := [])"

abbreviation ContentType :: string where "ContentType \<equiv> ''Content-Type''"
abbreviation ContentLength :: string where "ContentLength \<equiv> ''Content-Length''"
abbreviation ContentEncoding :: string where "ContentEncoding \<equiv> ''Content-Encoding''"

definition AppJSONContentType :: string where "AppJSONContentType = ''application/json''"
definition TextPlainContentType :: string where "TextPlainContentType = ''text/plain''"

section \<open>The interface ResponseWriter\<close>

datatype http_error = ErrBodyNotAllowed | ErrContentLength

text \<open>
  \<open>rw_Header\<close> edits the map that \<open>Header()\<close> returns, \<open>rw_GetHeader\<close> reads it; \<open>rw_Write\<close> also gives the
  number of bytes taken and the error.
\<close>

record 'w ResponseWriter =
  rw_GetHeader :: "'w \<Rightarrow> header"
  rw_Header :: "(header \<Rightarrow> header) \<Rightarrow> 'w \<Rightarrow> 'w"
  rw_WriteHeader :: "nat \<Rightarrow> 'w \<Rightarrow> 'w"
  rw_Write :: "string \<Rightarrow> 'w \<Rightarrow> (nat \<times> http_error option) \<times> 'w"

section \<open>The writer of the server\<close>

record http_writer =
  hw_handlerHeader :: header
  hw_sent :: "(nat \<times> header) option"
  hw_body :: string

definition new_http_writer :: http_writer where
  "new_http_writer = \<lparr>hw_handlerHeader = (\<lambda>k. []), hw_sent = None, hw_body = []\<rparr>"

definition http_WriteHeader :: "nat \<Rightarrow> http_writer \<Rightarrow> http_writer" where
  "http_WriteHeader code w =
     (case hw_sent w of None \<Rightarrow> w\<lparr>hw_sent := Some (code, hw_handlerHeader w)\<rparr> | Some _ \<Rightarrow> w)"

definition bodyAllowedForStatus :: "nat \<Rightarrow> bool" where
  "bodyAllowedForStatus st \<longleftrightarrow> \<not> (100 \<le> st \<and> st \<le> 199) \<and> st \<noteq> 204 \<and> st \<noteq> 304"

text \<open>A body longer than the \<open>Content-Length\<close> that was sent is refused.\<close>

definition declared_length :: "header \<Rightarrow> nat option" where
  "declared_length h =
     (if Header_Get ContentLength h = [] then None
      else case atoi (Header_Get ContentLength h) of
        Inl e \<Rightarrow> None | Inr n \<Rightarrow> if n <s 0 then None else Some (unat n))"

definition http_Write :: "string \<Rightarrow> http_writer \<Rightarrow> (nat \<times> http_error option) \<times> http_writer" where
  "http_Write b w =
     (let w = http_WriteHeader 200 w
      in case hw_sent w of
           None \<Rightarrow> ((0, None), w)
         | Some (st, h) \<Rightarrow>
             if b = [] then ((0, None), w)
             else if \<not> bodyAllowedForStatus st then ((0, Some ErrBodyNotAllowed), w)
             else if (case declared_length h of None \<Rightarrow> False | Some n \<Rightarrow> length (hw_body w) + length b > n)
             then ((0, Some ErrContentLength), w)
             else ((length b, None), w\<lparr>hw_body := hw_body w @ b\<rparr>))"

definition HttpWriter :: "http_writer ResponseWriter" where
  "HttpWriter = \<lparr>rw_GetHeader = hw_handlerHeader,
     rw_Header = (\<lambda>f w. w\<lparr>hw_handlerHeader := f (hw_handlerHeader w)\<rparr>),
     rw_WriteHeader = http_WriteHeader, rw_Write = http_Write\<rparr>"

text \<open>When the handler has returned, a response with nothing sent goes out as 200.\<close>

definition finishRequest :: "http_writer \<Rightarrow> http_writer" where
  "finishRequest w = http_WriteHeader 200 w"

section \<open>Requests\<close>

text \<open>
  A request with what the middleware adds to its context; reading the body may fail. The clock the
  handler reads is part of it.
\<close>

record ('claims, 'err) request =
  req_Header :: header
  req_Cookies :: "(string \<times> string) list"
  req_Body :: "'err + string"
  req_Logger :: bool
  req_Claims :: "'claims option"
  req_Now :: int

datatype cookie_error = ErrNoCookie | OtherCookieError

definition request_Cookie :: "string \<Rightarrow> ('claims, 'err) request \<Rightarrow> cookie_error + string" where
  "request_Cookie name r =
     (case map_of (req_Cookies r) name of None \<Rightarrow> Inl ErrNoCookie | Some v \<Rightarrow> Inr v)"

definition http_Error :: "'w ResponseWriter \<Rightarrow> string \<Rightarrow> nat \<Rightarrow> 'w \<Rightarrow> 'w" where
  "http_Error rw msg code w =
     (let w = rw_Header rw (\<lambda>h. Header_Set ''X-Content-Type-Options'' ''nosniff''
                 (Header_Set ContentType ''text/plain; charset=utf-8'' (Header_Del ContentLength h))) w;
          w = rw_WriteHeader rw code w
      in snd (rw_Write rw (msg @ [CHR 0x0A]) w))"

text \<open>
  \<open>http.SetCookie\<close> with the attributes the program uses. The text of a date is an argument.
\<close>

record cookie =
  ck_Name :: string
  ck_Value :: string
  ck_Path :: string
  ck_Expires :: int
  ck_HttpOnly :: bool
  ck_Secure :: bool
  ck_SameSiteLax :: bool

definition sanitizeCookieValue :: "string \<Rightarrow> string" where
  "sanitizeCookieValue v =
     (let v = filter (\<lambda>c. 32 \<le> (of_char c :: nat) \<and> (of_char c :: nat) < 127 \<and> c \<noteq> CHR 0x22 \<and> c \<noteq> CHR '';'' \<and> c \<noteq> CHR 0x5C) v
      in if CHR '' '' \<in> set v \<or> CHR '','' \<in> set v then [CHR 0x22] @ v @ [CHR 0x22] else v)"

definition cookie_String :: "(int \<Rightarrow> string) \<Rightarrow> cookie \<Rightarrow> string" where
  "cookie_String http_date c =
     ck_Name c @ ''='' @ sanitizeCookieValue (ck_Value c) @
     (if ck_Path c \<noteq> [] then ''; Path='' @ ck_Path c else []) @
     ''; Expires='' @ http_date (ck_Expires c) @
     (if ck_HttpOnly c then ''; HttpOnly'' else []) @
     (if ck_Secure c then ''; Secure'' else []) @
     (if ck_SameSiteLax c then ''; SameSite=Lax'' else [])"

definition SetCookie :: "(int \<Rightarrow> string) \<Rightarrow> 'w ResponseWriter \<Rightarrow> cookie \<Rightarrow> 'w \<Rightarrow> 'w" where
  "SetCookie http_date rw c w = rw_Header rw (Header_Add ''Set-Cookie'' (cookie_String http_date c)) w"

section \<open>What a handler relies on\<close>

text \<open>A response as the client sees it: the status, the headers but for reserved ones, the body.\<close>

record response =
  rsp_Status :: nat
  rsp_Header :: header
  rsp_Body :: string

definition without :: "string set \<Rightarrow> header \<Rightarrow> header" where
  "without R h = (\<lambda>k. if k \<in> R then [] else h k)"

text \<open>An edit that has nothing to do with the reserved headers.\<close>

definition plain_edit :: "string set \<Rightarrow> (header \<Rightarrow> header) \<Rightarrow> bool" where
  "plain_edit R f \<longleftrightarrow> (\<forall>h. \<forall>k\<in>R. f h k = h k) \<and> (\<forall>h. without R (f h) = without R (f (without R h)))"

lemma plain_edit_basic [simp]:
  "k \<notin> R \<Longrightarrow> plain_edit R (Header_Set k v)"
  "k \<notin> R \<Longrightarrow> plain_edit R (Header_Add k v)"
  by (auto simp: plain_edit_def Header_Set_def Header_Add_def without_def fun_eq_iff)

lemma plain_edit_insert:
  assumes "plain_edit (insert x R) f"
  shows "plain_edit R f"
proof -
  let ?S = "insert x R"
  have k: "f h k = h k" if "k \<in> ?S" for h k using assms that by (auto simp: plain_edit_def)
  have w: "without ?S (f h) = without ?S (f (without ?S h))" for h
    using assms unfolding plain_edit_def by blast
  have "without ?S (f h) = without ?S (f (without R h))" for h
  proof -
    have "without ?S (without R h) = without ?S h" by (auto simp: without_def)
    with w [of h] w [of "without R h"] show ?thesis by simp
  qed
  then have e: "without ?S (f h) k' = without ?S (f (without R h)) k'" for h k' by (rule fun_cong)
  have "without R (f h) k' = without R (f (without R h)) k'" for h k'
    using e [of h k'] k [of x] by (cases "k' = x") (auto simp: without_def split: if_splits)
  with k show ?thesis by (auto simp: plain_edit_def)
qed

lemma without_idem [simp]: "without R (without R h) = without R h"
  by (auto simp: without_def)

lemma without_edits [simp]:
  "k \<notin> R \<Longrightarrow> without R (Header_Set k v h) = Header_Set k v (without R h)"
  "k \<notin> R \<Longrightarrow> without R (Header_Add k v h) = Header_Add k v (without R h)"
  by (auto simp: Header_Set_def Header_Add_def without_def fun_eq_iff)

lemma without_none: "(\<And>k. k \<in> R \<Longrightarrow> h k = []) \<Longrightarrow> without R h = h"
  by (auto simp: without_def fun_eq_iff)

text \<open>
  The contract a handler needs: it edits headers, sends one status and then at most one body, and the
  client sees just that.
\<close>

locale response_writer =
  fixes rw :: "'w ResponseWriter"
    and reserved :: "string set"
    and fresh :: "'w \<Rightarrow> bool"
    and pending :: "'w \<Rightarrow> header"
    and seen :: "'w \<Rightarrow> response"
  assumes free: "ContentType \<notin> reserved" "''Set-Cookie'' \<notin> reserved"
    and edit: "fresh w \<Longrightarrow> plain_edit reserved f \<Longrightarrow> fresh (rw_Header rw f w)"
    and edit_pending: "fresh w \<Longrightarrow> plain_edit reserved f \<Longrightarrow>
      pending (rw_Header rw f w) = without reserved (f (pending w))"
    and silent: "fresh w \<Longrightarrow> seen w = \<lparr>rsp_Status = 200, rsp_Header = pending w, rsp_Body = []\<rparr>"
    and status: "fresh w \<Longrightarrow> seen (rw_WriteHeader rw st w) = \<lparr>rsp_Status = st, rsp_Header = pending w, rsp_Body = []\<rparr>"
    and body: "fresh w \<Longrightarrow> bodyAllowedForStatus st \<Longrightarrow>
      seen (snd (rw_Write rw b (rw_WriteHeader rw st w))) = \<lparr>rsp_Status = st, rsp_Header = pending w, rsp_Body = b\<rparr>"
    and pending_plain: "fresh w \<Longrightarrow> without reserved (pending w) = pending w"
begin

lemma set_header:
  assumes "fresh w" "k \<notin> reserved"
  shows "fresh (rw_Header rw (Header_Set k v) w)" "pending (rw_Header rw (Header_Set k v) w) = Header_Set k v (pending w)"
    and "fresh (rw_Header rw (Header_Add k v) w)" "pending (rw_Header rw (Header_Add k v) w) = Header_Add k v (pending w)"
  using assms by (simp_all add: edit edit_pending pending_plain)

lemmas content_type = set_header [OF _ free(1)]
lemmas set_cookie = set_header [OF _ free(2)]

end

text \<open>
  The stronger contract of the server: the first status is final, with the headers of that moment,
  and bodies add up.
\<close>

locale one_shot_writer =
  fixes rw :: "'w ResponseWriter"
    and reserved :: "string set"
    and fresh :: "'w \<Rightarrow> bool"
    and pending :: "'w \<Rightarrow> header"
    and sent :: "'w \<Rightarrow> response option"
  assumes free: "ContentType \<notin> reserved" "''Set-Cookie'' \<notin> reserved" "ContentLength \<in> reserved"
    and fresh_unsent: "fresh w \<Longrightarrow> sent w = None"
    and edit: "fresh w \<Longrightarrow> plain_edit reserved f \<Longrightarrow> fresh (rw_Header rw f w)"
    and edit_pending: "fresh w \<Longrightarrow> plain_edit reserved f \<Longrightarrow>
      pending (rw_Header rw f w) = without reserved (f (pending w))"
    and del_length: "fresh w \<Longrightarrow> fresh (rw_Header rw (Header_Del ContentLength) w) \<and>
      pending (rw_Header rw (Header_Del ContentLength) w) = pending w"
    and no_length: "fresh w \<Longrightarrow> rw_GetHeader rw w ContentLength = []"
    and pending_plain: "fresh w \<Longrightarrow> without reserved (pending w) = pending w"
    and first: "fresh w \<Longrightarrow> sent (rw_WriteHeader rw st w) = Some \<lparr>rsp_Status = st, rsp_Header = pending w, rsp_Body = []\<rparr>"
    and final: "sent w = Some r \<Longrightarrow> sent (rw_WriteHeader rw st w) = Some r"
    and late_edit: "sent w = Some r \<Longrightarrow> sent (rw_Header rw f w) = Some r"
    and more: "sent w = Some r \<Longrightarrow> bodyAllowedForStatus (rsp_Status r) \<Longrightarrow>
      sent (snd (rw_Write rw b w)) = Some (r\<lparr>rsp_Body := rsp_Body r @ b\<rparr>)"
begin

definition seen :: "'w \<Rightarrow> response" where
  "seen w = (case sent w of None \<Rightarrow> \<lparr>rsp_Status = 200, rsp_Header = pending w, rsp_Body = []\<rparr> | Some r \<Rightarrow> r)"

lemma seen_sent: "sent w = Some r \<Longrightarrow> seen w = r"
  by (simp add: seen_def)

lemma writes:
  "sent w = Some r \<Longrightarrow> bodyAllowedForStatus (rsp_Status r) \<Longrightarrow>
   sent (fold (\<lambda>b w. snd (rw_Write rw b w)) bs w) = Some (r\<lparr>rsp_Body := rsp_Body r @ concat bs\<rparr>)"
proof (induction bs arbitrary: w r)
  case (Cons b bs)
  from Cons.IH [OF more [OF Cons.prems]] Cons.prems(2) show ?case by simp
qed simp

end

sublocale one_shot_writer \<subseteq> plain: response_writer rw reserved fresh pending seen
proof
  fix w f st b
  assume w: "fresh w"
  show "bodyAllowedForStatus st \<Longrightarrow> seen (snd (rw_Write rw b (rw_WriteHeader rw st w)))
      = \<lparr>rsp_Status = st, rsp_Header = pending w, rsp_Body = b\<rparr>"
    using more [OF first [OF w]] by (simp add: seen_def)
qed (simp_all add: free edit edit_pending pending_plain seen_def fresh_unsent first)

text \<open>The server's writer keeps it; the transfer headers of a response are the server's own.\<close>

definition http_fresh :: "http_writer \<Rightarrow> bool" where
  "http_fresh w \<longleftrightarrow> hw_sent w = None \<and> hw_body w = [] \<and> hw_handlerHeader w ContentLength = []"

text \<open>The response once the status has gone out; a body past a declared length is cut short.\<close>

definition http_sent :: "http_writer \<Rightarrow> response option" where
  "http_sent w = (case hw_sent w of
       None \<Rightarrow> None
     | Some (st, h) \<Rightarrow>
         if declared_length h = None
         then Some \<lparr>rsp_Status = st, rsp_Header = without {ContentLength} h, rsp_Body = hw_body w\<rparr> else None)"

lemma http_fresh_new [simp]: "http_fresh new_http_writer"
  by (simp add: http_fresh_def new_http_writer_def)

lemma undeclared: "h ContentLength = [] \<Longrightarrow> declared_length h = None"
  by (simp add: declared_length_def Header_Get_def)

lemma http_sentE:
  assumes "http_sent w = Some r"
  obtains h where "hw_sent w = Some (rsp_Status r, h)" "declared_length h = None"
    "rsp_Header r = without {ContentLength} h" "rsp_Body r = hw_body w"
  using assms by (auto simp: http_sent_def split: option.splits prod.splits if_splits)

interpretation server: one_shot_writer HttpWriter "{ContentLength}" http_fresh hw_handlerHeader http_sent
proof
  fix w :: http_writer and f :: "header \<Rightarrow> header" and st :: nat and b :: string and r :: response
  show "ContentType \<notin> {ContentLength}" "''Set-Cookie'' \<notin> {ContentLength}" "ContentLength \<in> {ContentLength}"
    by simp_all
  show "http_fresh w \<Longrightarrow> http_sent w = None"
    by (simp add: http_fresh_def http_sent_def)
  show "http_fresh w \<Longrightarrow> plain_edit {ContentLength} f \<Longrightarrow> http_fresh (rw_Header HttpWriter f w)"
    by (simp add: HttpWriter_def http_fresh_def plain_edit_def)
  show "http_fresh w \<Longrightarrow> plain_edit {ContentLength} f \<Longrightarrow>
      hw_handlerHeader (rw_Header HttpWriter f w) = without {ContentLength} (f (hw_handlerHeader w))"
    by (auto simp: HttpWriter_def http_fresh_def plain_edit_def intro!: without_none [symmetric])
  show "http_fresh w \<Longrightarrow> http_fresh (rw_Header HttpWriter (Header_Del ContentLength) w) \<and>
      hw_handlerHeader (rw_Header HttpWriter (Header_Del ContentLength) w) = hw_handlerHeader w"
    by (auto simp: HttpWriter_def http_fresh_def Header_Del_def fun_eq_iff)
  show "http_fresh w \<Longrightarrow> rw_GetHeader HttpWriter w ContentLength = []"
    by (simp add: HttpWriter_def http_fresh_def)
  show "http_fresh w \<Longrightarrow> without {ContentLength} (hw_handlerHeader w) = hw_handlerHeader w"
    by (auto simp: http_fresh_def intro: without_none)
  show "http_fresh w \<Longrightarrow> http_sent (rw_WriteHeader HttpWriter st w)
      = Some \<lparr>rsp_Status = st, rsp_Header = hw_handlerHeader w, rsp_Body = []\<rparr>"
    by (auto simp: http_sent_def http_fresh_def http_WriteHeader_def HttpWriter_def undeclared intro: without_none)
  assume r: "http_sent w = Some r"
  then show "http_sent (rw_WriteHeader HttpWriter st w) = Some r" "http_sent (rw_Header HttpWriter f w) = Some r"
    by (auto simp: http_WriteHeader_def HttpWriter_def http_sent_def split: option.splits)
  show "bodyAllowedForStatus (rsp_Status r) \<Longrightarrow>
      http_sent (snd (rw_Write HttpWriter b w)) = Some (r\<lparr>rsp_Body := rsp_Body r @ b\<rparr>)"
    using r by (elim http_sentE) (simp add: HttpWriter_def http_Write_def http_WriteHeader_def Let_def http_sent_def)
qed

end
