(* ===== verification/Middleware.thy ===== *)
theory Middleware
  imports Services Http
begin

text \<open>
  \<open>internal/middleware\<close>: the writer that counts for the log, the writer that compresses long bodies,
  the check of the token, and the three middlewares made of them. A handler takes the writer's
  methods, the request, and the pair of writer and application state; a panic is a result, so that
  deferred calls still run. The gzip and the token libraries are arguments.
\<close>

type_synonym go_request = "(claims, go_error) request"
type_synonym ('w, 's) handler = "go_request \<Rightarrow> 'w \<times> 's \<Rightarrow> unit outcome \<times> 'w \<times> 's"

section \<open>The logging writer\<close>

record 'w loggingResponseWriter =
  lw_ResponseWriter :: 'w
  lw_status :: nat
  lw_size :: nat

definition LoggingWriter :: "'w ResponseWriter \<Rightarrow> 'w loggingResponseWriter ResponseWriter" where
  "LoggingWriter rw = \<lparr>
     rw_GetHeader = (\<lambda>l. rw_GetHeader rw (lw_ResponseWriter l)),
     rw_Header = (\<lambda>f l. l\<lparr>lw_ResponseWriter := rw_Header rw f (lw_ResponseWriter l)\<rparr>),
     rw_WriteHeader = (\<lambda>st l. l\<lparr>lw_ResponseWriter := rw_WriteHeader rw st (lw_ResponseWriter l), lw_status := st\<rparr>),
     rw_Write = (\<lambda>b l. case rw_Write rw b (lw_ResponseWriter l) of
       ((n, err), w) \<Rightarrow> ((n, err), l\<lparr>lw_ResponseWriter := w, lw_size := lw_size l + n\<rparr>))\<rparr>"

text \<open>What \<open>Logger\<close> writes about the response: its status and size.\<close>

definition Logger ::
  "'w ResponseWriter \<Rightarrow> ('w loggingResponseWriter, 's) handler \<Rightarrow> go_request \<Rightarrow> 'w \<times> 's \<Rightarrow>
   (unit outcome \<times> 'w \<times> 's) \<times> (nat \<times> nat) option" where
  "Logger rw next r = (\<lambda>(w, s).
     case next (r\<lparr>req_Logger := True\<rparr>) (\<lparr>lw_ResponseWriter = w, lw_status = 0, lw_size = 0\<rparr>, s) of
       (Returns _, l, s) \<Rightarrow> ((Returns (), lw_ResponseWriter l, s), Some (lw_status l, lw_size l))
     | (Panics p, l, s) \<Rightarrow> ((Panics p, lw_ResponseWriter l, s), None))"

context one_shot_writer
begin

text \<open>The logging writer changes nothing of what is sent.\<close>

lemma logging:
  "one_shot_writer (LoggingWriter rw) reserved (fresh \<circ> lw_ResponseWriter) (pending \<circ> lw_ResponseWriter)
     (sent \<circ> lw_ResponseWriter)"
  by unfold_locales
    (simp_all add: LoggingWriter_def free fresh_unsent edit edit_pending del_length no_length pending_plain
      first final late_edit more case_prod_beta)

end

definition logged_sent :: "http_writer loggingResponseWriter \<Rightarrow> response option" where
  "logged_sent = http_sent \<circ> lw_ResponseWriter"

interpretation logged: one_shot_writer "LoggingWriter HttpWriter" "{ContentLength}"
  "http_fresh \<circ> lw_ResponseWriter" "hw_handlerHeader \<circ> lw_ResponseWriter" logged_sent
  unfolding logged_sent_def by (rule server.logging)

section \<open>The compressing writer\<close>

text \<open>
  \<open>compress/gzip\<close>: a compressor takes bytes and passes chunks of output on, the rest when it is
  closed; \<open>gunzip\<close> is the client's side.
\<close>

record 'z gzip =
  z_NewWriter :: 'z
  z_Write :: "string \<Rightarrow> 'z \<Rightarrow> string list \<times> 'z"
  z_Close :: "'z \<Rightarrow> string list"

fun z_run :: "'z gzip \<Rightarrow> string list \<Rightarrow> 'z \<Rightarrow> string list" where
  "z_run deflate [] z = z_Close deflate z"
| "z_run deflate (b # bs) z = (case z_Write deflate b z of (out, z) \<Rightarrow> out @ z_run deflate bs z)"

text \<open>The documented behaviour of the library: what was compressed can be read back.\<close>

definition gzip_inverse :: "'z gzip \<Rightarrow> (string \<Rightarrow> string option) \<Rightarrow> bool" where
  "gzip_inverse deflate gunzip \<longleftrightarrow> (\<forall>bs. gunzip (concat (z_run deflate bs (z_NewWriter deflate))) = Some (concat bs))"

record ('w, 'z) GzipWriter =
  gz_ResponseWriter :: 'w
  gz_writer :: "'z option"
  gz_threshold :: int
  gz_buffer :: string
  gz_started :: bool
  gz_status :: nat
  gz_headers :: bool

definition NewGzipWriter :: "'w \<Rightarrow> int \<Rightarrow> ('w, 'z) GzipWriter" where
  "NewGzipWriter w threshold = \<lparr>gz_ResponseWriter = w, gz_writer = None, gz_threshold = threshold,
     gz_buffer = [], gz_started = False, gz_status = 200, gz_headers = False\<rparr>"

definition write_all :: "'w ResponseWriter \<Rightarrow> string list \<Rightarrow> 'w \<Rightarrow> 'w" where
  "write_all rw bs w = fold (\<lambda>b w. snd (rw_Write rw b w)) bs w"

definition gz_compress :: "'w ResponseWriter \<Rightarrow> 'z gzip \<Rightarrow> string \<Rightarrow> ('w, 'z) GzipWriter \<Rightarrow> ('w, 'z) GzipWriter" where
  "gz_compress rw deflate b g = (case gz_writer g of None \<Rightarrow> g
     | Some z \<Rightarrow> (case z_Write deflate b z of
         (out, z) \<Rightarrow> g\<lparr>gz_writer := Some z, gz_ResponseWriter := write_all rw out (gz_ResponseWriter g)\<rparr>))"

definition startGzip :: "'w ResponseWriter \<Rightarrow> 'z gzip \<Rightarrow> ('w, 'z) GzipWriter \<Rightarrow> ('w, 'z) GzipWriter" where
  "startGzip rw deflate g =
     (if gz_started g then g
      else let g = g\<lparr>gz_started := True\<rparr>;
               g = g\<lparr>gz_ResponseWriter := rw_Header rw (Header_Del ContentLength) (gz_ResponseWriter g)\<rparr>;
               g = g\<lparr>gz_ResponseWriter := rw_Header rw (Header_Set ContentEncoding ''gzip'') (gz_ResponseWriter g)\<rparr>;
               g = (if \<not> gz_headers g
                    then g\<lparr>gz_ResponseWriter := rw_WriteHeader rw (gz_status g) (gz_ResponseWriter g), gz_headers := True\<rparr>
                    else g);
               g = g\<lparr>gz_writer := Some (z_NewWriter deflate)\<rparr>
           in if length (gz_buffer g) > 0 then (gz_compress rw deflate (gz_buffer g) g)\<lparr>gz_buffer := []\<rparr> else g)"

definition gz_Write :: "'w ResponseWriter \<Rightarrow> 'z gzip \<Rightarrow> string \<Rightarrow> ('w, 'z) GzipWriter \<Rightarrow>
    (nat \<times> http_error option) \<times> ('w, 'z) GzipWriter" where
  "gz_Write rw deflate b g =
     (if gz_started g then ((length b, None), gz_compress rw deflate b g)
      else let g = g\<lparr>gz_buffer := gz_buffer g @ b\<rparr>
           in ((length b, None), if int (length (gz_buffer g)) > gz_threshold g then startGzip rw deflate g else g))"

definition gz_WriteHeader :: "'w ResponseWriter \<Rightarrow> 'z gzip \<Rightarrow> nat \<Rightarrow> ('w, 'z) GzipWriter \<Rightarrow> ('w, 'z) GzipWriter" where
  "gz_WriteHeader rw deflate statusCode g =
     (if gz_headers g then g
      else let g = g\<lparr>gz_status := statusCode\<rparr>;
               cl = Header_Get ContentLength (rw_GetHeader rw (gz_ResponseWriter g))
           in if cl \<noteq> []
              then (case atoi cl of Inl e \<Rightarrow> g
                | Inr n \<Rightarrow>
                    if sint n > gz_threshold g then startGzip rw deflate g
                    else g\<lparr>gz_headers := True, gz_ResponseWriter := rw_WriteHeader rw (gz_status g) (gz_ResponseWriter g)\<rparr>)
              else g)"

definition gz_Close :: "'w ResponseWriter \<Rightarrow> 'z gzip \<Rightarrow> ('w, 'z) GzipWriter \<Rightarrow> ('w, 'z) GzipWriter" where
  "gz_Close rw deflate g =
     (if gz_started g
      then (case gz_writer g of None \<Rightarrow> g
        | Some z \<Rightarrow> g\<lparr>gz_ResponseWriter := write_all rw (z_Close deflate z) (gz_ResponseWriter g)\<rparr>)
      else let g = (if \<not> gz_headers g
                    then g\<lparr>gz_ResponseWriter := rw_WriteHeader rw (gz_status g) (gz_ResponseWriter g)\<rparr> else g)
           in if length (gz_buffer g) > 0
              then g\<lparr>gz_ResponseWriter := snd (rw_Write rw (gz_buffer g)
                (rw_Header rw (Header_Set ContentLength (itoa (of_nat (length (gz_buffer g))))) (gz_ResponseWriter g)))\<rparr>
              else g)"

definition GzipResponse :: "'w ResponseWriter \<Rightarrow> 'z gzip \<Rightarrow> ('w, 'z) GzipWriter ResponseWriter" where
  "GzipResponse rw deflate = \<lparr>
     rw_GetHeader = (\<lambda>g. rw_GetHeader rw (gz_ResponseWriter g)),
     rw_Header = (\<lambda>f g. g\<lparr>gz_ResponseWriter := rw_Header rw f (gz_ResponseWriter g)\<rparr>),
     rw_WriteHeader = gz_WriteHeader rw deflate,
     rw_Write = gz_Write rw deflate\<rparr>"

text \<open>
  \<open>Compression\<close>: \<open>gunzip\<close> is the reader of a compressed request body. \<open>strings.Contains\<close> is
  \<open>contains\<close>.
\<close>

fun contains :: "string \<Rightarrow> string \<Rightarrow> bool" where
  "contains sub [] = (sub = [])"
| "contains sub (c # s) = (take (length sub) (c # s) = sub \<or> contains sub s)"

definition Compression ::
  "'w ResponseWriter \<Rightarrow> 'z gzip \<Rightarrow> (go_error + string \<Rightarrow> (go_error + string) option) \<Rightarrow> int \<Rightarrow>
   ('w, 's) handler \<Rightarrow> (('w, 'z) GzipWriter, 's) handler \<Rightarrow> ('w, 's) handler" where
  "Compression rw deflate gzip_NewReader threshold next_plain next_gzip r = (\<lambda>(w, s).
     let unpacked = (if contains ''gzip'' (Header_Get ContentEncoding (req_Header r))
                     then map_option (\<lambda>b. r\<lparr>req_Body := b\<rparr>) (gzip_NewReader (req_Body r)) else Some r)
     in case unpacked of
          None \<Rightarrow> (Returns (), http_Error rw ''Failed to read gzip body'' 400 w, s)
        | Some r \<Rightarrow>
            if contains ''gzip'' (Header_Get ''Accept-Encoding'' (req_Header r))
            then (case next_gzip r (NewGzipWriter w threshold, s) of
                    (res, g, s) \<Rightarrow> (res, gz_ResponseWriter (gz_Close rw deflate g), s))
            else next_plain r (w, s))"

text \<open>What a client that undoes the compression sees.\<close>

definition decoded :: "(string \<Rightarrow> string option) \<Rightarrow> response \<Rightarrow> response" where
  "decoded gunzip r =
     (if rsp_Header r ContentEncoding = [''gzip'']
      then (case gunzip (rsp_Body r) of None \<Rightarrow> r
        | Some b \<Rightarrow> r\<lparr>rsp_Header := (rsp_Header r)(ContentEncoding := []), rsp_Body := b\<rparr>)
      else r)"

lemma gzip_inverseD:
  assumes "gzip_inverse deflate gunzip"
  shows "gunzip (concat (z_Close deflate (z_NewWriter deflate))) = Some []"
    and "z_Write deflate b (z_NewWriter deflate) = (out, z) \<Longrightarrow>
      gunzip (concat out @ concat (z_Close deflate z)) = Some b"
proof -
  note a = assms [unfolded gzip_inverse_def, rule_format]
  show "gunzip (concat (z_Close deflate (z_NewWriter deflate))) = Some []" using a [of "[]"] by simp
  show "z_Write deflate b (z_NewWriter deflate) = (out, z) \<Longrightarrow>
      gunzip (concat out @ concat (z_Close deflate z)) = Some b" using a [of "[b]"] by simp
qed

context one_shot_writer
begin

definition gz_fresh :: "('w, 'z) GzipWriter \<Rightarrow> bool" where
  "gz_fresh g \<longleftrightarrow> fresh (gz_ResponseWriter g) \<and> pending (gz_ResponseWriter g) ContentEncoding = [] \<and>
     gz_writer g = None \<and> gz_buffer g = [] \<and> \<not> gz_started g \<and> \<not> gz_headers g \<and> gz_status g = 200"

definition gz_seen :: "'z gzip \<Rightarrow> (string \<Rightarrow> string option) \<Rightarrow> ('w, 'z) GzipWriter \<Rightarrow> response" where
  "gz_seen deflate gunzip g = decoded gunzip (seen (gz_ResponseWriter (gz_Close rw deflate g)))"

lemma gz_fresh_new: "fresh w \<Longrightarrow> pending w ContentEncoding = [] \<Longrightarrow> gz_fresh (NewGzipWriter w n)"
  by (simp add: gz_fresh_def NewGzipWriter_def)

lemma gz_edit:
  assumes "gz_fresh g" "plain_edit (insert ContentEncoding reserved) f"
  shows "gz_fresh (g\<lparr>gz_ResponseWriter := rw_Header rw f (gz_ResponseWriter g)\<rparr>)"
    and "pending (rw_Header rw f (gz_ResponseWriter g))
      = without (insert ContentEncoding reserved) (f (pending (gz_ResponseWriter g)))"
proof -
  have f: "plain_edit reserved f" "f (pending (gz_ResponseWriter g)) ContentEncoding = []"
    using plain_edit_insert [OF assms(2)] assms by (auto simp: plain_edit_def gz_fresh_def)
  have p: "pending (rw_Header rw f (gz_ResponseWriter g)) = without reserved (f (pending (gz_ResponseWriter g)))"
    using edit_pending [OF _ f(1)] assms(1) by (simp add: gz_fresh_def)
  then show "gz_fresh (g\<lparr>gz_ResponseWriter := rw_Header rw f (gz_ResponseWriter g)\<rparr>)"
    using assms(1) edit [OF _ f(1)] f(2) by (simp add: gz_fresh_def without_def)
  show "pending (rw_Header rw f (gz_ResponseWriter g))
      = without (insert ContentEncoding reserved) (f (pending (gz_ResponseWriter g)))"
    using p f(2) by (auto simp: without_def)
qed

text \<open>A status is kept back until there is a body or the writer is closed.\<close>

lemma gz_status_later: "gz_fresh g \<Longrightarrow> gz_WriteHeader rw deflate st g = g\<lparr>gz_status := st\<rparr>"
  by (simp add: gz_WriteHeader_def gz_fresh_def Let_def no_length Header_Get_def)

lemma gz_nothing:
  assumes "gz_fresh g"
  shows "gz_seen deflate gunzip (g\<lparr>gz_status := st\<rparr>)
    = \<lparr>rsp_Status = st, rsp_Header = pending (gz_ResponseWriter g), rsp_Body = []\<rparr>"
  using assms first by (simp add: gz_seen_def gz_Close_def gz_fresh_def Let_def seen_sent [OF first] decoded_def)

lemma gz_small:
  assumes "gz_fresh g" "bodyAllowedForStatus st"
  shows "gz_seen deflate gunzip (g\<lparr>gz_status := st, gz_buffer := b\<rparr>)
    = \<lparr>rsp_Status = st, rsp_Header = pending (gz_ResponseWriter g), rsp_Body = b\<rparr>"
proof (cases "b = []")
  case True
  then have "g\<lparr>gz_status := st, gz_buffer := b\<rparr> = g\<lparr>gz_status := st\<rparr>"
    using assms(1) by (cases g) (simp add: gz_fresh_def)
  then show ?thesis using gz_nothing [OF assms(1)] True by simp
next
  case False
  note s = first [of "gz_ResponseWriter g" st]
  show ?thesis
    using assms False s by (simp add: gz_seen_def gz_Close_def gz_fresh_def Let_def decoded_def
        seen_sent [OF more [OF late_edit [OF s]]])
qed

lemma gz_large:
  assumes "gz_fresh g" "bodyAllowedForStatus st" "ContentEncoding \<notin> reserved" "gzip_inverse deflate gunzip"
  shows "gz_seen deflate gunzip (startGzip rw deflate (g\<lparr>gz_status := st, gz_buffer := b\<rparr>))
    = \<lparr>rsp_Status = st, rsp_Header = pending (gz_ResponseWriter g), rsp_Body = b\<rparr>"
proof -
  let ?w = "rw_Header rw (Header_Del ContentLength) (gz_ResponseWriter g)"
  let ?w2 = "rw_Header rw (Header_Set ContentEncoding ''gzip'') ?w"
  let ?p = "Header_Set ContentEncoding ''gzip'' (pending (gz_ResponseWriter g))"
  have w: "fresh ?w" "pending ?w = pending (gz_ResponseWriter g)"
    using del_length assms(1) by (simp_all add: gz_fresh_def)
  have w2: "fresh ?w2" "pending ?w2 = ?p"
    using plain.set_header(1,2) [OF w(1) assms(3)] w(2) by simp_all
  note s = first [OF w2(1), of st, unfolded w2(2)]
  have p: "?p(ContentEncoding := []) = pending (gz_ResponseWriter g)" "?p ContentEncoding = [''gzip'']"
    using assms(1) by (auto simp: gz_fresh_def Header_Set_def)
  show ?thesis
  proof (cases "b = []")
    case True
    then show ?thesis
      using assms seen_sent [OF writes [OF s]] p gzip_inverseD(1) [OF assms(4)]
      by (simp add: gz_seen_def startGzip_def gz_fresh_def Let_def gz_Close_def write_all_def decoded_def)
  next
    case False
    obtain out z where z: "z_Write deflate b (z_NewWriter deflate) = (out, z)" by fastforce
    note o = writes [OF s, of out]
    show ?thesis
      using assms False z seen_sent [OF writes [OF o]] p gzip_inverseD(2) [OF assms(4) z]
      by (simp add: gz_seen_def startGzip_def gz_fresh_def Let_def gz_Close_def write_all_def decoded_def gz_compress_def)
  qed
qed

theorem compressing:
  assumes "ContentEncoding \<notin> reserved" "gzip_inverse deflate gunzip"
  shows "response_writer (GzipResponse rw deflate) (insert ContentEncoding reserved)
    gz_fresh (pending \<circ> gz_ResponseWriter) (gz_seen deflate gunzip)"
proof
  fix g :: "('w, 'a) GzipWriter" and f :: "header \<Rightarrow> header" and st :: nat and b :: string
  show "ContentType \<notin> insert ContentEncoding reserved" "''Set-Cookie'' \<notin> insert ContentEncoding reserved"
    using free by simp_all
  assume g: "gz_fresh g"
  show "gz_fresh (rw_Header (GzipResponse rw deflate) f g)"
    "(pending \<circ> gz_ResponseWriter) (rw_Header (GzipResponse rw deflate) f g)
       = without (insert ContentEncoding reserved) (f ((pending \<circ> gz_ResponseWriter) g))"
    if "plain_edit (insert ContentEncoding reserved) f"
    using gz_edit [OF g that] by (simp_all add: GzipResponse_def)
  show "without (insert ContentEncoding reserved) ((pending \<circ> gz_ResponseWriter) g) = (pending \<circ> gz_ResponseWriter) g"
    using g pending_plain [of "gz_ResponseWriter g"] by (auto simp: gz_fresh_def without_def fun_eq_iff split: if_splits)
  have "g\<lparr>gz_status := 200\<rparr> = g" using g by (cases g) (simp add: gz_fresh_def)
  then show "gz_seen deflate gunzip g = \<lparr>rsp_Status = 200, rsp_Header = (pending \<circ> gz_ResponseWriter) g, rsp_Body = []\<rparr>"
    using gz_nothing [OF g, of deflate gunzip 200] by simp
  show "gz_seen deflate gunzip (rw_WriteHeader (GzipResponse rw deflate) st g)
      = \<lparr>rsp_Status = st, rsp_Header = (pending \<circ> gz_ResponseWriter) g, rsp_Body = []\<rparr>"
    using gz_nothing [OF g] by (simp add: GzipResponse_def gz_status_later [OF g])
  show "gz_seen deflate gunzip (snd (rw_Write (GzipResponse rw deflate) b (rw_WriteHeader (GzipResponse rw deflate) st g)))
      = \<lparr>rsp_Status = st, rsp_Header = (pending \<circ> gz_ResponseWriter) g, rsp_Body = b\<rparr>"
    if "bodyAllowedForStatus st"
    using g gz_small [OF g that] gz_large [OF g that assms]
    by (simp add: GzipResponse_def gz_status_later [OF g] gz_Write_def gz_fresh_def Let_def)
qed

end

section \<open>The token\<close>

text \<open>The signing methods the key callback tells apart, and the callback itself.\<close>

datatype signing_method = SigningMethodHMAC | OtherMethod string

definition jwt_key :: "string \<Rightarrow> signing_method \<Rightarrow> go_error + string" where
  "jwt_key key m = (case m of SigningMethodHMAC \<Rightarrow> Inr key
     | OtherMethod alg \<Rightarrow> Inl (ErrorString (''unexpected signing method: '' @ alg)))"

text \<open>
  \<open>parse\<close> stands for \<open>jwt.ParseWithClaims\<close>: from the text and the callback to an error or the token's
  \<open>Valid\<close> and the claims.
\<close>

definition JWTAuth ::
  "(string \<Rightarrow> (signing_method \<Rightarrow> go_error + string) \<Rightarrow> go_error + bool \<times> claims) \<Rightarrow> string \<Rightarrow>
   'w ResponseWriter \<Rightarrow> ('w, 's) handler \<Rightarrow> ('w, 's) handler" where
  "JWTAuth parse key rw next r = (\<lambda>(w, s).
     case request_Cookie ''token'' r of
       Inl err \<Rightarrow>
         if err = ErrNoCookie then (Returns (), http_Error rw ''Unauthorized'' 401 w, s)
         else (Returns (), http_Error rw ''Bad request'' 400 w, s)
     | Inr value \<Rightarrow>
         (case parse value (jwt_key key) of
            Inl err \<Rightarrow> (Returns (), http_Error rw ''Unauthorized'' 401 w, s)
          | Inr (valid, claims) \<Rightarrow>
              if \<not> valid then (Returns (), http_Error rw ''Unauthorized'' 401 w, s)
              else next (r\<lparr>req_Claims := Some claims\<rparr>) (w, s)))"

definition GetClaims :: "go_request \<Rightarrow> claims option" where
  "GetClaims r = req_Claims r"

end
