(* ===== verification/JsonText.thy ===== *)
theory JsonText
  imports Json
begin

text \<open>
  The text of JSON documents as \<open>encoding/json\<close> writes and reads it: strings are bytes that should be
  UTF-8, the writer escapes what HTML would take amiss, the reader limits the nesting to 10000.
\<close>

section \<open>UTF-8\<close>

abbreviation byte :: "char \<Rightarrow> nat" where "byte c \<equiv> of_char c"

definition in_range :: "nat \<Rightarrow> nat \<Rightarrow> char \<Rightarrow> bool" where
  "in_range a b c \<longleftrightarrow> a \<le> byte c \<and> byte c \<le> b"

abbreviation cont :: "char \<Rightarrow> bool" where "cont \<equiv> in_range 128 191"

text \<open>The length of the encoded rune at the head of a string, 0 for an invalid one.\<close>

definition lead3 :: "char \<Rightarrow> char \<Rightarrow> bool" where
  "lead3 a b \<longleftrightarrow> byte a = 0xE0 \<and> in_range 0xA0 0xBF b \<or> (in_range 0xE1 0xEC a \<or> in_range 0xEE 0xEF a) \<and> cont b
     \<or> byte a = 0xED \<and> in_range 0x80 0x9F b"

definition lead4 :: "char \<Rightarrow> char \<Rightarrow> bool" where
  "lead4 a b \<longleftrightarrow> byte a = 0xF0 \<and> in_range 0x90 0xBF b \<or> in_range 0xF1 0xF3 a \<and> cont b
     \<or> byte a = 0xF4 \<and> in_range 0x80 0x8F b"

definition utf8_len :: "string \<Rightarrow> nat" where
  "utf8_len s = (case s of [] \<Rightarrow> 0
     | a # t \<Rightarrow>
        if byte a < 128 then 1
        else case t of [] \<Rightarrow> 0
        | b # u \<Rightarrow>
           if in_range 0xC2 0xDF a then (if cont b then 2 else 0)
           else case u of [] \<Rightarrow> 0
           | c # v \<Rightarrow>
              if lead3 a b then (if cont c then 3 else 0)
              else case v of [] \<Rightarrow> 0
              | d # w \<Rightarrow> if lead4 a b \<and> cont c \<and> cont d then 4 else 0)"

definition encode_rune :: "nat \<Rightarrow> string" where
  "encode_rune r =
     (let r = (if 0x10FFFF < r \<or> 0xD800 \<le> r \<and> r \<le> 0xDFFF then 0xFFFD else r)
      in if r < 0x80 then [char_of r]
         else if r < 0x800 then [char_of (0xC0 + r div 64), char_of (0x80 + r mod 64)]
         else if r < 0x10000
         then [char_of (0xE0 + r div 4096), char_of (0x80 + r div 64 mod 64), char_of (0x80 + r mod 64)]
         else [char_of (0xF0 + r div 262144), char_of (0x80 + r div 4096 mod 64),
               char_of (0x80 + r div 64 mod 64), char_of (0x80 + r mod 64)])"

definition RuneError :: nat where "RuneError = 0xFFFD"

section \<open>Writing\<close>

definition hex_char :: "nat \<Rightarrow> char" where
  "hex_char n = (if n < 10 then char_of (48 + n) else char_of (87 + n))"

abbreviation quote :: char where "quote \<equiv> CHR 0x22"
abbreviation backslash :: char where "backslash \<equiv> CHR 0x5C"

definition escape_ascii :: "char \<Rightarrow> string" where
  "escape_ascii c =
     (if c = backslash \<or> c = quote then [backslash, c]
      else if byte c = 8 then [backslash, CHR ''b'']
      else if byte c = 12 then [backslash, CHR ''f'']
      else if byte c = 10 then [backslash, CHR ''n'']
      else if byte c = 13 then [backslash, CHR ''r'']
      else if byte c = 9 then [backslash, CHR ''t'']
      else if byte c < 32 \<or> c = CHR ''<'' \<or> c = CHR ''>'' \<or> c = CHR ''&''
      then [backslash] @ ''u00'' @ [hex_char (byte c div 16), hex_char (byte c mod 16)]
      else [c])"

text \<open>U+2028 and U+2029 would end a line of JavaScript.\<close>

definition line_separator :: "string \<Rightarrow> bool" where
  "line_separator r \<longleftrightarrow> map byte r = [0xE2, 0x80, 0xA8] \<or> map byte r = [0xE2, 0x80, 0xA9]"

function escape :: "string \<Rightarrow> string" where
  "escape [] = []"
| "escape (c # s) =
     (if byte c < 128 then escape_ascii c @ escape s
      else let n = utf8_len (c # s)
           in if n = 0 then [backslash] @ ''ufffd'' @ escape s
              else let r = take n (c # s)
                   in (if line_separator r then [backslash] @ ''u202'' @ [hex_char (byte (last r) mod 16)] else r)
                      @ escape (drop n (c # s)))"
  by pat_completeness auto
termination
  by (relation "measure length") auto

definition string_text :: "string \<Rightarrow> string" where
  "string_text s = [quote] @ escape s @ [quote]"

fun comma_sep :: "string list \<Rightarrow> string" where
  "comma_sep [] = []"
| "comma_sep [x] = x"
| "comma_sep (x # xs) = x @ '','' @ comma_sep xs"

fun json_text :: "json \<Rightarrow> string" where
  "json_text JNull = ''null''"
| "json_text (JBool b) = (if b then ''true'' else ''false'')"
| "json_text (JNum n) = n"
| "json_text (JStr s) = string_text s"
| "json_text (JArr vs) = ''['' @ comma_sep (map json_text vs) @ '']''"
| "json_text (JObj ms) = ''{'' @ comma_sep (map (\<lambda>(k, v). string_text k @ '':'' @ json_text v) ms) @ ''}''"

section \<open>Reading\<close>

definition is_space :: "char \<Rightarrow> bool" where
  "is_space c \<longleftrightarrow> byte c = 32 \<or> byte c = 9 \<or> byte c = 10 \<or> byte c = 13"

abbreviation skip_ws :: "string \<Rightarrow> string" where "skip_ws \<equiv> dropWhile is_space"

definition lex_exp :: "string \<Rightarrow> string option" where
  "lex_exp s = (case s of [] \<Rightarrow> Some s
     | c # t \<Rightarrow>
         if c \<noteq> CHR ''e'' \<and> c \<noteq> CHR ''E'' then Some s
         else let t = (case t of [] \<Rightarrow> t | d # u \<Rightarrow> if d = CHR ''+'' \<or> d = CHR ''-'' then u else t)
              in case t of [] \<Rightarrow> None
                 | d # u \<Rightarrow> if is_digit d then Some (dropWhile is_digit u) else None)"

text \<open>The longest number at the head of a text, and what follows it.\<close>

definition lex_number :: "string \<Rightarrow> (string \<times> string) option" where
  "lex_number s =
     (case num_int (num_sign s) of None \<Rightarrow> None
      | Some r \<Rightarrow> (case lex_exp (num_frac r) of None \<Rightarrow> None
          | Some rest \<Rightarrow> Some (take (length s - length rest) s, rest)))"

definition hex_val :: "char \<Rightarrow> nat option" where
  "hex_val c = (if is_digit c then Some (digit_val c)
     else if in_range 97 102 c then Some (byte c - 87)
     else if in_range 65 70 c then Some (byte c - 55) else None)"

fun getu4 :: "string \<Rightarrow> (nat \<times> string) option" where
  "getu4 (a # b # c # d # s) =
     (case (hex_val a, hex_val b, hex_val c, hex_val d) of
        (Some a, Some b, Some c, Some d) \<Rightarrow> Some (((a * 16 + b) * 16 + c) * 16 + d, s)
      | _ \<Rightarrow> None)"
| "getu4 _ = None"

lemma getu4_shorter: "getu4 s = Some (r, t) \<Longrightarrow> length t < length s"
  by (induction s rule: getu4.induct) (auto split: option.splits)

text \<open>A surrogate that is not followed by its other half becomes U+FFFD.\<close>

definition surrogate_pair :: "nat \<Rightarrow> string \<Rightarrow> nat \<times> string" where
  "surrogate_pair r s =
     (if r < 0xD800 \<or> 0xDFFF < r then (r, s)
      else case s of
        a # b # t \<Rightarrow>
          if a = backslash \<and> b = CHR ''u''
          then (case getu4 t of
                  Some (r2, u) \<Rightarrow>
                    if r \<le> 0xDBFF \<and> 0xDC00 \<le> r2 \<and> r2 \<le> 0xDFFF
                    then ((r - 0xD800) * 1024 + (r2 - 0xDC00) + 0x10000, u) else (RuneError, s)
                | None \<Rightarrow> (RuneError, s))
          else (RuneError, s)
      | _ \<Rightarrow> (RuneError, s))"

lemma surrogate_pair_shorter: "surrogate_pair r s = (r', t) \<Longrightarrow> length t \<le> length s"
  by (auto simp: surrogate_pair_def split: if_splits list.splits option.splits dest!: getu4_shorter)

definition simple_escape :: "char \<Rightarrow> char option" where
  "simple_escape c =
     (if c = quote \<or> c = backslash \<or> c = CHR ''/'' then Some c
      else if c = CHR ''b'' then Some (char_of (8 :: nat))
      else if c = CHR ''f'' then Some (char_of (12 :: nat))
      else if c = CHR ''n'' then Some (char_of (10 :: nat))
      else if c = CHR ''r'' then Some (char_of (13 :: nat))
      else if c = CHR ''t'' then Some (char_of (9 :: nat))
      else None)"

text \<open>The rest of a string after its opening quote: the decoded bytes and what follows the closing one.\<close>

function parse_string :: "string \<Rightarrow> (string \<times> string) option" where
  "parse_string [] = None"
| "parse_string (c # s) =
     (if c = quote then Some ([], s)
      else if c = backslash
      then (case s of [] \<Rightarrow> None
        | e # t \<Rightarrow>
            if e = CHR ''u''
            then (case getu4 t of None \<Rightarrow> None
              | Some (r, u) \<Rightarrow>
                  map_option (apfst ((@) (encode_rune (fst (surrogate_pair r u)))))
                    (parse_string (snd (surrogate_pair r u))))
            else (case simple_escape e of None \<Rightarrow> None
              | Some x \<Rightarrow> map_option (apfst ((#) x)) (parse_string t)))
      else if byte c < 32 then None
      else if byte c < 128 then map_option (apfst ((#) c)) (parse_string s)
      else let n = utf8_len (c # s)
           in if n = 0 then map_option (apfst ((@) (encode_rune RuneError))) (parse_string s)
              else map_option (apfst ((@) (take n (c # s)))) (parse_string (drop n (c # s))))"
  by pat_completeness auto
termination
proof (relation "measure length", goal_cases)
  case (2 c s e t a r u)
  then show ?case
    using getu4_shorter [of t r u] surrogate_pair_shorter [of r u] by (cases "surrogate_pair r u") fastforce
qed auto

definition literal :: "string \<Rightarrow> json \<Rightarrow> string \<Rightarrow> (json \<times> string) option" where
  "literal w v s = (if take (length w) s = w then Some (v, drop (length w) s) else None)"

text \<open>Values, elements and members, with fuel for the recursion and the nesting still allowed.\<close>

fun parse_value :: "nat \<Rightarrow> nat \<Rightarrow> string \<Rightarrow> (json \<times> string) option"
  and parse_elements :: "nat \<Rightarrow> nat \<Rightarrow> string \<Rightarrow> (json list \<times> string) option"
  and parse_members :: "nat \<Rightarrow> nat \<Rightarrow> string \<Rightarrow> ((string \<times> json) list \<times> string) option" where
  "parse_value 0 d s = None"
| "parse_value (Suc f) d s =
     (case skip_ws s of [] \<Rightarrow> None
      | c # t \<Rightarrow>
          if c = CHR ''{''
          then (if d = 0 then None
                else if take 1 (skip_ws t) = ''}'' then Some (JObj [], drop 1 (skip_ws t))
                else map_option (apfst JObj) (parse_members f (d - 1) t))
          else if c = CHR ''[''
          then (if d = 0 then None
                else if take 1 (skip_ws t) = '']'' then Some (JArr [], drop 1 (skip_ws t))
                else map_option (apfst JArr) (parse_elements f (d - 1) t))
          else if c = quote then map_option (apfst JStr) (parse_string t)
          else if c = CHR ''t'' then literal ''true'' (JBool True) (c # t)
          else if c = CHR ''f'' then literal ''false'' (JBool False) (c # t)
          else if c = CHR ''n'' then literal ''null'' JNull (c # t)
          else map_option (apfst JNum) (lex_number (c # t)))"
| "parse_elements 0 d s = None"
| "parse_elements (Suc f) d s =
     (case parse_value f d s of None \<Rightarrow> None
      | Some (v, t) \<Rightarrow>
          (case skip_ws t of [] \<Rightarrow> None
           | c # u \<Rightarrow>
               if c = CHR '']'' then Some ([v], u)
               else if c = CHR '','' then map_option (apfst ((#) v)) (parse_elements f d u)
               else None))"
| "parse_members 0 d s = None"
| "parse_members (Suc f) d s =
     (case skip_ws s of [] \<Rightarrow> None
      | c # t \<Rightarrow>
          if c \<noteq> quote then None
          else case parse_string t of None \<Rightarrow> None
          | Some (k, t) \<Rightarrow>
             (case skip_ws t of [] \<Rightarrow> None
              | c # t \<Rightarrow>
                 if c \<noteq> CHR '':'' then None
                 else case parse_value f d t of None \<Rightarrow> None
                 | Some (v, t) \<Rightarrow>
                    (case skip_ws t of [] \<Rightarrow> None
                     | c # u \<Rightarrow>
                         if c = CHR ''}'' then Some ([(k, v)], u)
                         else if c = CHR '','' then map_option (apfst ((#) (k, v))) (parse_members f d u)
                         else None)))"

text \<open>\<open>json.Unmarshal\<close> up to the values: the whole text is one document.\<close>

definition scan :: "string \<Rightarrow> json option" where
  "scan s = (case parse_value (2 * length s + 1) 10000 s of
       Some (v, t) \<Rightarrow> if skip_ws t = [] then Some v else None
     | None \<Rightarrow> None)"

section \<open>What was written can be read\<close>

function valid_utf8 :: "string \<Rightarrow> bool" where
  "valid_utf8 [] = True"
| "valid_utf8 (c # s) = (utf8_len (c # s) \<noteq> 0 \<and> valid_utf8 (drop (max 1 (utf8_len (c # s))) (c # s)))"
  by pat_completeness auto
termination
  by (relation "measure length") auto

text \<open>Strings that are UTF-8, numbers that are number literals, at most \<open>d\<close> brackets deep.\<close>

fun json_ok :: "nat \<Rightarrow> json \<Rightarrow> bool" where
  "json_ok d JNull = True"
| "json_ok d (JBool b) = True"
| "json_ok d (JNum n) = is_json_number n"
| "json_ok d (JStr s) = valid_utf8 s"
| "json_ok d (JArr vs) = (0 < d \<and> (\<forall>v\<in>set vs. json_ok (d - 1) v))"
| "json_ok d (JObj ms) = (0 < d \<and> (\<forall>(k, v)\<in>set ms. valid_utf8 k \<and> json_ok (d - 1) v))"

subsection \<open>Strings\<close>

lemma utf8_len_prefix:
  assumes "utf8_len s = n" "0 < n"
  shows "utf8_len (take n s @ x) = n" "length (take n s) = n"
proof -
  show "length (take n s) = n"
    using assms by (auto simp: utf8_len_def split: list.splits if_splits)
  obtain a t where s: "s = a # t" using assms by (cases s) (auto simp: utf8_len_def)
  consider "byte a < 128" | b u where "\<not> byte a < 128" "in_range 0xC2 0xDF a" "cont b" "t = b # u"
    | b c v where "\<not> byte a < 128" "\<not> in_range 0xC2 0xDF a" "lead3 a b" "cont c" "t = b # c # v"
    | b c d v where "\<not> byte a < 128" "\<not> in_range 0xC2 0xDF a" "\<not> lead3 a b" "lead4 a b" "cont c" "cont d" "t = b # c # d # v"
    using assms by (auto simp: utf8_len_def s split: list.splits if_splits)
  then show "utf8_len (take n s @ x) = n"
    using assms(1) by cases (auto simp: utf8_len_def s)
qed

lemma utf8_len_ascii: "byte c < 128 \<Longrightarrow> utf8_len (c # s) = 1"
  by (simp add: utf8_len_def)

lemma hex_val_hex_char: "n < 16 \<Longrightarrow> hex_val (hex_char n) = Some n"
  by (cases "n < 10") (simp_all add: hex_val_def hex_char_def is_digit_def digit_val_def in_range_def of_char_of)

lemma hex_val_digits [simp]: "hex_val CHR ''0'' = Some 0" "hex_val CHR ''2'' = Some 2"
  by (simp_all add: hex_val_def is_digit_def digit_val_def)

lemma parse_escape_ascii:
  assumes "byte c < 128"
  shows "parse_string (escape_ascii c @ x) = map_option (apfst ((#) c)) (parse_string x)"
proof -
  have "byte c div 16 < 16" "byte c mod 16 < 16" using assms by auto
  moreover have "encode_rune (byte c) = [c]" using assms by (simp add: encode_rune_def)
  moreover have "byte c = 8 \<Longrightarrow> c = char_of (8 :: nat)" "byte c = 12 \<Longrightarrow> c = char_of (12 :: nat)"
    "byte c = 10 \<Longrightarrow> c = char_of (10 :: nat)" "byte c = 13 \<Longrightarrow> c = char_of (13 :: nat)"
    "byte c = 9 \<Longrightarrow> c = char_of (9 :: nat)" by (metis char_of_char)+
  ultimately show ?thesis
    using assms
    by (auto simp: escape_ascii_def simple_escape_def hex_val_hex_char surrogate_pair_def append_Cons apfst_def map_prod_def)
qed

lemma hex_val_8_9_f [simp]: "hex_val CHR ''8'' = Some 8" "hex_val CHR ''9'' = Some 9"
  by (simp_all add: hex_val_def is_digit_def digit_val_def)

lemma parse_line_separator:
  assumes "line_separator r"
  shows "parse_string ((backslash # ''u202'' @ [hex_char (byte (last r) mod 16)]) @ x)
    = map_option (apfst ((@) r)) (parse_string x)"
proof -
  obtain a b c where r: "r = [a, b, c]" "byte a = 0xE2" "byte b = 0x80" "byte c = 0xA8 \<or> byte c = 0xA9"
    using assms by (auto simp: line_separator_def)
  have ab: "a = char_of (0xE2 :: nat)" "b = char_of (0x80 :: nat)" using r(2,3) by (metis char_of_char)+
  from r(4) show ?thesis
  proof
    assume c: "byte c = 0xA8"
    then have "c = char_of (0xA8 :: nat)" by (metis char_of_char)
    moreover have "hex_char 8 = CHR ''8''" by code_simp
    ultimately show ?thesis
      using c ab by (simp add: r(1) surrogate_pair_def encode_rune_def)
  next
    assume c: "byte c = 0xA9"
    then have "c = char_of (0xA9 :: nat)" by (metis char_of_char)
    moreover have "hex_char 9 = CHR ''9''" by code_simp
    ultimately show ?thesis
      using c ab by (simp add: r(1) surrogate_pair_def encode_rune_def)
  qed
qed

lemma parse_multibyte:
  assumes "utf8_len s = n" "1 < n"
  shows "parse_string (take n s @ x) = map_option (apfst ((@) (take n s))) (parse_string x)"
proof -
  have p: "utf8_len (take n s @ x) = n" "length (take n s) = n"
    using utf8_len_prefix [OF assms(1)] assms(2) by simp_all
  obtain c t where s: "s = c # t" "128 \<le> byte c"
    using assms by (cases s) (auto simp: utf8_len_def split: if_splits)
  obtain m where n: "n = Suc m" using assms(2) by (cases n) auto
  have l: "length (take m t) = m" using p(2) assms(2) by (simp add: s n)
  have h: "\<not> byte c < 128" "\<not> byte c < 32" using s(2) by auto
  have "c \<noteq> quote" "c \<noteq> backslash" using s(2) by auto
  moreover have "utf8_len (c # take m t @ x) = n" using p(1) assms(2) by (simp add: s n)
  ultimately show ?thesis
    using l assms(2) by (simp add: s(1) n h)
qed

lemma parse_escape: "valid_utf8 s \<Longrightarrow> parse_string (escape s @ quote # x) = Some (s, x)"
proof (induction s rule: valid_utf8.induct)
  case 1
  show ?case by simp
next
  case (2 c s)
  define n where "n = utf8_len (c # s)"
  have "n \<noteq> 0 \<and> valid_utf8 (drop (max 1 n) (c # s))"
    using 2(2) unfolding n_def valid_utf8.simps by blast
  then have n: "0 < n" "valid_utf8 (drop (max 1 n) (c # s))" by blast+
  have IH: "parse_string (escape (drop (max 1 n) (c # s)) @ quote # x) = Some (drop (max 1 n) (c # s), x)"
    using 2(1) n unfolding n_def by blast
  show ?case
  proof (cases "byte c < 128")
    case True
    then have "n = 1" by (simp add: n_def utf8_len_ascii)
    with IH True show ?thesis by (simp add: parse_escape_ascii)
  next
    case False
    then have n1: "1 < n" using n(1) by (auto simp: n_def utf8_len_def split: list.splits if_splits)
    then have m: "max 1 n = n" by simp
    have e: "escape (c # s) = (if line_separator (take n (c # s))
        then backslash # ''u202'' @ [hex_char (byte (last (take n (c # s))) mod 16)]
        else take n (c # s)) @ escape (drop n (c # s))"
      using False n1 by (simp add: n_def Let_def)
    show ?thesis
      using IH parse_line_separator parse_multibyte [OF n_def [symmetric] n1]
      by (simp only: e m append_assoc if_distrib [of "\<lambda>y. y @ _"] split: if_split) auto
  qed
qed

subsection \<open>Numbers\<close>

text \<open>What may follow a value: the end, a comma, a closing bracket.\<close>

definition follows :: "string \<Rightarrow> bool" where
  "follows r \<longleftrightarrow> r = [] \<or> hd r \<in> {CHR '','', CHR '']'', CHR ''}''}"

lemma follows_cases:
  assumes "follows r"
  obtains "r = []" | c t where "r = c # t" "\<not> is_digit c" "c \<noteq> CHR ''.''" "c \<noteq> CHR ''e''" "c \<noteq> CHR ''E''" "\<not> is_space c"
  using assms by (cases r) (auto simp: follows_def is_digit_def is_space_def)

lemma follows_digits: "follows r \<Longrightarrow> dropWhile is_digit (t @ r) = dropWhile is_digit t @ r"
  by (erule follows_cases) (auto simp: dropWhile_append)

lemma lex_number_text:
  assumes "is_json_number n" "follows r"
  shows "lex_number (n @ r) = Some (n, r)"
proof -
  obtain m where m: "num_int (num_sign n) = Some m" "num_exp (num_frac m) = Some []"
    using assms(1) by (auto simp: is_json_number_def split: option.splits)
  have ne: "num_sign n \<noteq> []" "n \<noteq> []" using m(1) by (auto simp: num_int_def num_sign_def)
  have "num_sign (n @ r) = num_sign n @ r" using ne by (auto simp: num_sign_def split: list.splits)
  moreover have "num_int (num_sign n @ r) = Some (m @ r)"
    using m(1) ne follows_digits [OF assms(2)] by (auto simp: num_int_def split: list.splits if_splits)
  moreover have "num_frac (m @ r) = num_frac m @ r"
  proof -
    consider "m = []" | c where "m = [c]" | c d t where "m = c # d # t" by (metis neq_Nil_conv)
    then show ?thesis
    proof cases
      case 1
      with assms(2) show ?thesis by (elim follows_cases) (auto simp: num_frac_def split: list.splits)
    next
      case 2
      with m(2) show ?thesis by (simp add: num_frac_def num_exp_def)
    next
      case 3
      with follows_digits [OF assms(2)] show ?thesis by (simp add: num_frac_def)
    qed
  qed
  moreover have "lex_exp (num_frac m @ r) = Some r"
  proof -
    consider "num_frac m = []" | c where "num_frac m = [c]" | c d t where "num_frac m = c # d # t" by (metis neq_Nil_conv)
    then show ?thesis
    proof cases
      case 1
      with assms(2) show ?thesis by (elim follows_cases) (auto simp: lex_exp_def)
    next
      case 2
      with m(2) show ?thesis by (simp add: num_exp_def)
    next
      case 3
      have d: "dropWhile is_digit r = r" using follows_digits [OF assms(2), of "[]"] by simp
      from 3 m(2) show ?thesis
        by (cases t) (auto simp: num_exp_def lex_exp_def d dropWhile_append3 split: if_splits)
    qed
  qed
  ultimately show ?thesis by (simp add: lex_number_def)
qed

subsection \<open>Documents\<close>

definition member_text :: "string \<times> json \<Rightarrow> string" where
  "member_text m = (case m of (k, v) \<Rightarrow> string_text k @ '':'' @ json_text v)"

lemma json_text_JObj: "json_text (JObj ms) = ''{'' @ comma_sep (map member_text ms) @ ''}''"
  by (simp add: member_text_def [abs_def])

lemma json_text_start:
  "json_ok d j \<Longrightarrow> \<exists>c t. json_text j = c # t \<and> \<not> is_space c \<and> c \<notin> {CHR '']'', CHR ''}''} \<and>
    (case j of JObj ms \<Rightarrow> c = CHR ''{'' | JArr vs \<Rightarrow> c = CHR ''['' | JStr s \<Rightarrow> c = quote
     | JNum n \<Rightarrow> c = CHR ''-'' \<or> is_digit c | _ \<Rightarrow> True)"
proof (cases j)
  case (JNum n)
  assume "json_ok d j"
  then have "num_int (num_sign n) \<noteq> None" using JNum by (auto simp: is_json_number_def split: option.splits)
  then obtain c t where n: "n = c # t" "c = CHR ''-'' \<or> is_digit c"
    by (cases n) (auto simp: num_sign_def num_int_def split: list.splits if_splits)
  then have "\<not> is_space c \<and> c \<notin> {CHR '']'', CHR ''}''}" by (auto simp: is_space_def is_digit_def)
  with n JNum show ?thesis by auto
qed (auto simp: is_space_def string_text_def)

lemma skip_ws_text: "json_ok d j \<Longrightarrow> skip_ws (json_text j @ r) = json_text j @ r"
  using json_text_start [of d j] by auto

lemma skip_ws_char [simp]: "\<not> is_space c \<Longrightarrow> skip_ws (c # s) = c # s"
  by simp

lemma not_space [simp]: "\<not> is_space quote" "\<not> is_space CHR '':''" "\<not> is_space CHR '',''"
  "\<not> is_space CHR '']''" "\<not> is_space CHR ''}''" "\<not> is_space CHR ''{''" "\<not> is_space CHR ''[''"
  by (simp_all add: is_space_def)

lemma follows_char [simp]: "follows (CHR '','' # r)" "follows (CHR '']'' # r)" "follows (CHR ''}'' # r)"
  by (simp_all add: follows_def)

text \<open>The text of a value is read back when each part of it is.\<close>

definition reads :: "json \<Rightarrow> bool" where
  "reads v \<longleftrightarrow> (\<forall>f d r. length (json_text v) \<le> f \<longrightarrow> json_ok d v \<longrightarrow> follows r \<longrightarrow>
     parse_value f d (json_text v @ r) = Some (v, r))"

lemma comma_sep_Cons: "xs \<noteq> [] \<Longrightarrow> comma_sep (x # xs) = x @ CHR '','' # comma_sep xs"
  by (cases xs) simp_all

lemma parse_elements_text:
  assumes "\<forall>v\<in>set vs. reads v" "vs \<noteq> []" "length (comma_sep (map json_text vs)) < f" "\<forall>v\<in>set vs. json_ok d v"
  shows "parse_elements f d (comma_sep (map json_text vs) @ CHR '']'' # r) = Some (vs, r)"
  using assms
proof (induction vs arbitrary: f)
  case (Cons v vs)
  obtain g where f: "f = Suc g" using Cons.prems(3) by (cases f) auto
  show ?case
  proof (cases "vs = []")
    case True
    then show ?thesis using Cons.prems by (simp add: f reads_def)
  next
    case False
    then have s: "comma_sep (map json_text (v # vs)) = json_text v @ CHR '','' # comma_sep (map json_text vs)"
      by (simp add: comma_sep_Cons)
    have "parse_value g d (json_text v @ CHR '','' # comma_sep (map json_text vs) @ CHR '']'' # r)
        = Some (v, CHR '','' # comma_sep (map json_text vs) @ CHR '']'' # r)"
      using Cons.prems unfolding s by (simp add: f reads_def)
    moreover have "parse_elements g d (comma_sep (map json_text vs) @ CHR '']'' # r) = Some (vs, r)"
      using Cons.prems False unfolding s by (intro Cons.IH) (simp_all add: f)
    ultimately show ?thesis unfolding s f by (simp add: apfst_def map_prod_def)
  qed
qed simp

lemma parse_members_text:
  assumes "\<forall>(k, v)\<in>set ms. valid_utf8 k \<and> reads v \<and> json_ok d v" "ms \<noteq> []"
    and "length (comma_sep (map member_text ms)) \<le> f"
  shows "parse_members f d (comma_sep (map member_text ms) @ CHR ''}'' # r) = Some (ms, r)"
  using assms
proof (induction ms arbitrary: f)
  case (Cons m ms)
  obtain k v where m: "m = (k, v)" by fastforce
  have kv: "valid_utf8 k" "reads v" "json_ok d v" using Cons.prems(1) by (auto simp: m)
  let ?rest = "\<lambda>x. CHR '':'' # json_text v @ x"
  have key: "member_text m @ x = quote # (escape k @ quote # ?rest x)" for x
    by (simp add: m member_text_def string_text_def)
  have len: "length (json_text v) + 3 \<le> length (member_text m)" by (simp add: m member_text_def string_text_def)
  obtain g where f: "f = Suc g" "length (json_text v) \<le> g"
    using Cons.prems(3) len by (cases f; cases ms) (auto simp: m)
  show ?case
  proof (cases "ms = []")
    case True
    then show ?thesis
      using kv f key [of "CHR ''}'' # r"] by (simp add: parse_escape reads_def m)
  next
    case False
    then have s: "comma_sep (map member_text (m # ms)) = member_text m @ CHR '','' # comma_sep (map member_text ms)"
      by (simp add: comma_sep_Cons)
    have "parse_members g d (comma_sep (map member_text ms) @ CHR ''}'' # r) = Some (ms, r)"
      using Cons.prems False len unfolding s by (intro Cons.IH) (auto simp: f)
    then show ?thesis
      unfolding s append_assoc append_Cons key f
      using kv f(2) by (simp add: parse_escape reads_def m apfst_def map_prod_def)
  qed
qed simp

lemma json_reads: "reads j"
proof (induction j)
  case (JNum n)
  show ?case
    unfolding reads_def
  proof (intro allI impI)
    fix f d r assume *: "length (json_text (JNum n)) \<le> f" "json_ok d (JNum n)" "follows r"
    obtain c t where n: "n = c # t" "\<not> is_space c" "c = CHR ''-'' \<or> is_digit c" using json_text_start [OF *(2)] by auto
    then have "c \<notin> {CHR ''{'', CHR ''['', quote, CHR ''t'', CHR ''f'', CHR ''n''}" by (auto simp: is_digit_def)
    moreover obtain g where "f = Suc g" using *(1) n by (cases f) auto
    moreover have "lex_number ((c # t) @ r) = Some (c # t, r)" using lex_number_text [of n r] *(2,3) n by simp
    ultimately show "parse_value f d (json_text (JNum n) @ r) = Some (JNum n, r)"
      using n by simp
  qed
next
  case (JArr vs)
  show ?case
    unfolding reads_def
  proof (intro allI impI)
    fix f d r assume *: "length (json_text (JArr vs)) \<le> f" "json_ok d (JArr vs)" "follows r"
    then obtain g where f: "f = Suc g" "length (comma_sep (map json_text vs)) < g" by (cases f) auto
    show "parse_value f d (json_text (JArr vs) @ r) = Some (JArr vs, r)"
    proof (cases vs)
      case Nil
      then show ?thesis using *(2) by (simp add: f)
    next
      case (Cons v vs')
      have "json_ok (d - 1) v" using *(2) Cons by simp
      then obtain c t where ct: "json_text v = c # t" "\<not> is_space c" "c \<noteq> CHR '']''" using json_text_start by fastforce
      then obtain t' where s: "comma_sep (map json_text vs) = c # t'" using Cons by (cases vs') auto
      have "parse_elements g (d - 1) (comma_sep (map json_text vs) @ CHR '']'' # r) = Some (vs, r)"
        using JArr *(2) f(2) Cons by (intro parse_elements_text) auto
      then show ?thesis using *(2) ct by (simp add: f s)
    qed
  qed
next
  case (JObj ms)
  show ?case
    unfolding reads_def
  proof (intro allI impI)
    fix f d r assume *: "length (json_text (JObj ms)) \<le> f" "json_ok d (JObj ms)" "follows r"
    then obtain g where f: "f = Suc g" "length (comma_sep (map member_text ms)) \<le> g"
      unfolding json_text_JObj by (cases f) auto
    show "parse_value f d (json_text (JObj ms) @ r) = Some (JObj ms, r)"
    proof (cases ms)
      case Nil
      then show ?thesis using *(2) by (simp add: f)
    next
      case (Cons m ms')
      obtain t where s: "comma_sep (map member_text ms) = quote # t"
        using Cons by (cases m; cases ms') (auto simp: member_text_def string_text_def)
      have "parse_members g (d - 1) (comma_sep (map member_text ms) @ CHR ''}'' # r) = Some (ms, r)"
        using JObj *(2) f(2) Cons by (intro parse_members_text) fastforce+
      then show ?thesis unfolding json_text_JObj using *(2) by (simp add: f s)
    qed
  qed
next
  case (JStr s)
  show ?case
    unfolding reads_def
  proof (intro allI impI)
    fix f d r assume *: "length (json_text (JStr s)) \<le> f" "json_ok d (JStr s)"
    then obtain g where f: "f = Suc g" by (cases f) (auto simp: string_text_def)
    show "parse_value f d (json_text (JStr s) @ r) = Some (JStr s, r)"
      using *(2) by (simp add: f string_text_def parse_escape)
  qed
next
  case (JBool b)
  show ?case
    unfolding reads_def
  proof (intro allI impI)
    fix f d r assume "length (json_text (JBool b)) \<le> f"
    then obtain g where f: "f = Suc g" by (cases f) (auto split: if_splits)
    show "parse_value f d (json_text (JBool b) @ r) = Some (JBool b, r)"
      by (cases b) (simp_all add: f literal_def is_space_def)
  qed
next
  case JNull
  show ?case
    unfolding reads_def
  proof (intro allI impI)
    fix f d r assume "length (json_text JNull) \<le> f"
    then obtain g where f: "f = Suc g" by (cases f) auto
    show "parse_value f d (json_text JNull @ r) = Some (JNull, r)"
      by (simp add: f literal_def is_space_def)
  qed
qed

theorem scan_text: "json_ok 10000 j \<Longrightarrow> scan (json_text j) = Some j"
proof -
  assume ok: "json_ok 10000 j"
  let ?n = "2 * length (json_text j) + 1"
  have "parse_value ?n 10000 (json_text j @ []) = Some (j, [])"
    using json_reads [of j, unfolded reads_def, rule_format, of ?n 10000 "[]"] ok by (simp add: follows_def)
  then show ?thesis by (simp only: scan_def append_Nil2) simp
qed

end
