(* ===== verification/Float64.thy ===== *)
theory Float64
  imports Money Complex_Main "HOL-Library.Log_Nat"
begin

text \<open>
  \<open>Accrual.UnmarshalJSON\<close> of \<open>internal/models/common.go\<close> goes through a \<open>float64\<close>: the literal is read to
  the nearest double, multiplied by 100 and rounded to an integer. A double is modelled as the
  rational it denotes; infinities appear as \<open>None\<close>, and the sign of a zero is lost, which the code
  cannot see. Shown: the two roundings together are harmless for all amounts up to 2^50 kopecks.
\<close>

section \<open>Rounding\<close>

definition pow2 :: "int \<Rightarrow> rat" where
  "pow2 e = (if 0 \<le> e then 2 ^ nat e else 1 / 2 ^ nat (- e))"

text \<open>To the nearest integer, ties to even, and (\<open>math.Round\<close>) ties away from zero.\<close>

definition round_even :: "rat \<Rightarrow> int" where
  "round_even x =
     (let f = floor x; r = x - of_int f
      in if r < 1 / 2 then f else if 1 / 2 < r then f + 1 else if even f then f else f + 1)"

definition math_Round :: "rat \<Rightarrow> int" where
  "math_Round x = (if 0 \<le> x then floor (x + 1 / 2) else - floor (- x + 1 / 2))"

text \<open>The binary logarithm of a positive rational, rounded down.\<close>

definition ilog2 :: "rat \<Rightarrow> int" where
  "ilog2 x = (let (p, q) = quotient_of x; k = bitlen p - bitlen q
              in if pow2 k \<le> x then k else k - 1)"

text \<open>The nearest double: 53 significant bits, no unit below 2^-1074; \<open>None\<close> from 2^1024 on.\<close>

definition float64_round :: "rat \<Rightarrow> rat option" where
  "float64_round x =
     (if x = 0 then Some 0
      else let e = max (- 1074) (ilog2 \<bar>x\<bar> - 52);
               v = of_int (round_even (\<bar>x\<bar> / pow2 e)) * pow2 e
           in if v \<ge> pow2 1024 then None else Some (sgn x * v))"

text \<open>The value of a number literal of JSON, which is what \<open>ParseFloat\<close> rounds.\<close>

definition exp_value :: "string \<Rightarrow> int" where
  "exp_value s = (case s of [] \<Rightarrow> 0
     | c # t \<Rightarrow> (case t of [] \<Rightarrow> 0
        | d # u \<Rightarrow> if d = CHR ''-'' then - int (dec_val 0 u)
                  else if d = CHR ''+'' then int (dec_val 0 u) else int (dec_val 0 t)))"

definition number_value :: "string \<Rightarrow> rat" where
  "number_value s =
     (let t = num_sign s;
          i = takeWhile is_digit t;
          r = dropWhile is_digit t;
          f = (case r of [] \<Rightarrow> [] | c # u \<Rightarrow> if c = CHR ''.'' then takeWhile is_digit u else []);
          e = (case r of [] \<Rightarrow> [] | c # u \<Rightarrow> if c = CHR ''.'' then dropWhile is_digit u else r);
          m = of_nat (dec_val 0 (i @ f));
          x = exp_value e - int (length f);
          v = (if 0 \<le> x then m * 10 ^ nat x else m / 10 ^ nat (- x))
      in if t = s then v else - v)"

text \<open>
  \<open>int(x)\<close> of a float out of range is left to the implementation by the language; the value here is
  the one of amd64.
\<close>

definition float_to_int :: "rat option \<Rightarrow> go_int" where
  "float_to_int r = (case r of None \<Rightarrow> word_of_int int64_min
     | Some g \<Rightarrow> let z = math_Round g
                in if in_int64 z then word_of_int z else word_of_int int64_min)"

text \<open>\<open>None\<close> is an error of the document.\<close>

fun Accrual_UnmarshalJSON :: "json \<Rightarrow> Accrual option" where
  "Accrual_UnmarshalJSON JNull = Some 0"
| "Accrual_UnmarshalJSON (JNum n) =
     (case float64_round (number_value n) of None \<Rightarrow> None
      | Some f \<Rightarrow> Some (float_to_int (float64_round (f * 100))))"
| "Accrual_UnmarshalJSON _ = None"

section \<open>How far rounding goes\<close>

lemma pow2_pos [simp]: "0 < pow2 e"
  by (simp add: pow2_def)

lemma pow2_add: "pow2 (a + b) = pow2 a * pow2 b"
proof -
  have r: "pow2 e = (2 :: rat) powi e" for e
    by (simp add: pow2_def power_int_def divide_simps)
  show ?thesis unfolding r by (rule power_int_add) simp
qed

lemma pow2_nat: "0 \<le> e \<Longrightarrow> pow2 e = of_int (2 ^ nat e)"
  by (simp add: pow2_def)

lemma round_even_error: "\<bar>of_int (round_even x) - x\<bar> \<le> 1 / 2"
proof -
  have "of_int (floor x) \<le> x" "x < of_int (floor x) + 1" by linarith+
  then show ?thesis
    unfolding round_even_def Let_def abs_le_iff by (simp split: if_split) linarith
qed

lemma round_even_scaled: "\<bar>of_int (round_even (y / pow2 e)) * pow2 e - y\<bar> \<le> pow2 e / 2"
proof -
  let ?m = "of_int (round_even (y / pow2 e))"
  have "(?m - y / pow2 e) * pow2 e = ?m * pow2 e - y"
    using pow2_pos [of e] by (simp add: left_diff_distrib del: pow2_pos)
  moreover have "\<bar>pow2 e\<bar> = pow2 e" by (simp add: less_imp_le)
  ultimately have "\<bar>?m * pow2 e - y\<bar> = \<bar>?m - y / pow2 e\<bar> * pow2 e" by (metis abs_mult)
  moreover have "\<bar>?m - y / pow2 e\<bar> * pow2 e \<le> 1 / 2 * pow2 e"
    by (intro mult_right_mono round_even_error) (simp add: less_imp_le)
  ultimately show ?thesis by simp
qed

lemma round_even_nonneg: "0 \<le> x \<Longrightarrow> 0 \<le> round_even x"
proof -
  assume "0 \<le> x"
  then have "0 \<le> floor x" by simp
  then show ?thesis by (auto simp: round_even_def Let_def)
qed

lemma ilog2_le:
  assumes "0 < x"
  shows "pow2 (ilog2 x) \<le> x"
proof -
  obtain p q where pq: "quotient_of x = (p, q)" by fastforce
  have q: "0 < q" "x = of_int p / of_int q"
    using quotient_of_denom_pos [OF pq] quotient_of_div [OF pq] by simp_all
  with assms have p: "0 < p" by (simp add: zero_less_divide_iff)
  let ?k = "bitlen p - bitlen q"
  have b: "2 ^ nat (bitlen p - 1) \<le> p" "q < 2 ^ nat (bitlen q)" "1 \<le> bitlen p" "1 \<le> bitlen q"
    using bitlen_bounds [OF p] bitlen_bounds [OF q(1)] p q(1) bitlen_eq_zero_iff [of p] bitlen_eq_zero_iff [of q]
      bitlen_nonneg [of p] bitlen_nonneg [of q] by linarith+
  have "pow2 (?k - 1) * of_int q \<le> pow2 (?k - 1) * pow2 (bitlen q)"
    using b(2,4) by (intro mult_left_mono) (simp_all add: pow2_nat less_imp_le order.strict_implies_order del: of_int_power)
  also have "\<dots> = pow2 (bitlen p - 1)" by (simp flip: pow2_add)
  also have "\<dots> \<le> of_int p" using b(1,3) by (simp add: pow2_nat del: of_int_power)
  finally have "pow2 (?k - 1) \<le> x" using q by (simp add: pos_le_divide_eq)
  then show ?thesis by (simp add: ilog2_def pq Let_def)
qed

text \<open>The error of rounding to a double: half a unit in the last place, or the least positive double.\<close>

lemma float64_round_error:
  assumes "float64_round x = Some f"
  shows "\<bar>f - x\<bar> \<le> \<bar>x\<bar> * pow2 (- 53) \<or> \<bar>f - x\<bar> \<le> pow2 (- 1075)"
proof (cases "x = 0")
  case False
  define e where "e = max (- 1074) (ilog2 \<bar>x\<bar> - 52)"
  define m where "m = round_even (\<bar>x\<bar> / pow2 e)"
  have f: "f = sgn x * (of_int m * pow2 e)"
    using assms False by (simp add: float64_round_def Let_def e_def m_def split: if_splits)
  have "\<bar>of_int m * pow2 e - \<bar>x\<bar>\<bar> \<le> pow2 e / 2" unfolding m_def by (rule round_even_scaled)
  moreover have "\<bar>f - x\<bar> = \<bar>of_int m * pow2 e - \<bar>x\<bar>\<bar>"
  proof -
    have "f - x = sgn x * (of_int m * pow2 e - \<bar>x\<bar>)"
      by (simp add: f right_diff_distrib mult_sgn_abs)
    then show ?thesis using False by (simp add: abs_mult abs_sgn_eq_1)
  qed
  ultimately have half: "\<bar>f - x\<bar> \<le> pow2 e / 2" by simp
  show ?thesis
  proof (cases "e = - 1074")
    case True
    then have "pow2 e / 2 = pow2 (- 1075)" by (simp add: pow2_def)
    with half show ?thesis by simp
  next
    case False
    then have "e = ilog2 \<bar>x\<bar> - 52" by (simp add: e_def max_def split: if_splits)
    then have "pow2 e = pow2 (ilog2 \<bar>x\<bar>) * pow2 (- 52)" by (simp flip: pow2_add)
    moreover have "pow2 (ilog2 \<bar>x\<bar>) \<le> \<bar>x\<bar>" using \<open>x \<noteq> 0\<close> by (intro ilog2_le) simp
    ultimately have "pow2 e \<le> \<bar>x\<bar> * pow2 (- 52)" by simp
    moreover have "pow2 (- 52) = 2 * pow2 (- 53)" by (simp add: pow2_def)
    ultimately show ?thesis using half by simp
  qed
qed (use assms in \<open>simp add: float64_round_def\<close>)

section \<open>Amounts survive\<close>

lemma float64_round_defined:
  assumes "\<bar>x\<bar> \<le> 2 ^ 60"
  shows "\<exists>f. float64_round x = Some f"
proof (cases "x = 0")
  case False
  define e where "e = max (- 1074) (ilog2 \<bar>x\<bar> - 52)"
  have "pow2 e \<le> 2 ^ 60"
  proof (cases "e = - 1074")
    case True
    have "pow2 (- 1074) \<le> (1 :: rat)" by (simp add: pow2_def)
    with True show ?thesis by simp
  next
    case False
    then have "e = ilog2 \<bar>x\<bar> - 52" by (simp add: e_def max_def split: if_splits)
    then have "pow2 e * pow2 52 = pow2 (ilog2 \<bar>x\<bar>)" by (simp flip: pow2_add)
    moreover have "pow2 (ilog2 \<bar>x\<bar>) \<le> \<bar>x\<bar>" using \<open>x \<noteq> 0\<close> by (intro ilog2_le) simp
    moreover have "pow2 e * 1 \<le> pow2 e * pow2 52" by (intro mult_left_mono) (simp_all add: pow2_def less_imp_le)
    ultimately show ?thesis using assms by simp
  qed
  moreover have "of_int (round_even (\<bar>x\<bar> / pow2 e)) * pow2 e \<le> \<bar>x\<bar> + pow2 e / 2"
    using round_even_scaled [of "\<bar>x\<bar>" e] by linarith
  ultimately have "of_int (round_even (\<bar>x\<bar> / pow2 e)) * pow2 e \<le> 2 ^ 60 + 2 ^ 60 / 2"
    using assms by linarith
  also have "\<dots> < pow2 1024" by (simp add: pow2_def)
  finally show ?thesis
    using False by (simp add: float64_round_def Let_def e_def)
qed (simp add: float64_round_def)

lemma math_Round_near:
  assumes "\<bar>x - of_int z\<bar> < 1 / 2"
  shows "math_Round x = z"
proof -
  have "of_int z \<le> x + 1 / 2" "x + 1 / 2 < of_int z + 1" using assms by linarith+
  then have up: "floor (x + 1 / 2) = z" by (rule floor_unique)
  have "of_int (- z) \<le> - x + 1 / 2" "- x + 1 / 2 < of_int (- z) + 1"
    using assms unfolding of_int_minus by linarith+
  then have down: "floor (- x + 1 / 2) = - z" by (rule floor_unique)
  show ?thesis unfolding math_Round_def up down by simp
qed

text \<open>The two roundings and the multiplication between them give back the count of kopecks.\<close>

lemma two_roundings:
  assumes "\<bar>z\<bar> \<le> 2 ^ 50" "float64_round (of_int z / 100) = Some f"
  shows "\<exists>g. float64_round (f * 100) = Some g \<and> math_Round g = z"
proof -
  let ?u = "pow2 (- 53)" and ?s = "pow2 (- 1075)"
  have u: "0 < ?u" "?u \<le> 1 / 2 ^ 53" and s: "0 < ?s" "?s \<le> 1 / 2 ^ 53"
    by (simp_all add: pow2_def)
  have Z: "\<bar>of_int z\<bar> \<le> (2 :: rat) ^ 50"
  proof -
    have "of_int \<bar>z\<bar> \<le> (of_int (2 ^ 50) :: rat)" using assms(1) by (simp only: of_int_le_iff)
    then show ?thesis by simp
  qed
  have "\<bar>f - of_int z / 100\<bar> \<le> \<bar>of_int z / 100\<bar> * ?u \<or> \<bar>f - of_int z / 100\<bar> \<le> ?s"
    by (rule float64_round_error [OF assms(2)])
  moreover have "\<bar>of_int z / 100\<bar> * ?u \<le> 2 ^ 50 / 100 * (1 / 2 ^ 53)"
    using Z u by (intro mult_mono) (simp_all add: less_imp_le)
  moreover have "2 ^ 50 / 100 * (1 / 2 ^ 53) = 1 / (800 :: rat)" "1 / 2 ^ 53 \<le> 1 / (800 :: rat)" by simp_all
  ultimately have "\<bar>f - of_int z / 100\<bar> \<le> 1 / 800" using s by linarith
  then have f: "\<bar>f * 100 - of_int z\<bar> \<le> 1 / 8" by linarith
  then have F: "\<bar>f * 100\<bar> \<le> 2 ^ 50 + 1" using Z by linarith
  then have "\<bar>f * 100\<bar> \<le> 2 ^ 60" by simp
  then obtain g where g: "float64_round (f * 100) = Some g" using float64_round_defined by blast
  have "\<bar>g - f * 100\<bar> \<le> \<bar>f * 100\<bar> * ?u \<or> \<bar>g - f * 100\<bar> \<le> ?s"
    by (rule float64_round_error [OF g])
  moreover have "\<bar>f * 100\<bar> * ?u \<le> (2 ^ 50 + 1) * (1 / 2 ^ 53)"
    using F u by (intro mult_mono) (simp_all add: less_imp_le)
  moreover have "(2 ^ 50 + 1) * (1 / 2 ^ 53) \<le> 1 / (8 :: rat) + 1 / 2 ^ 53" "1 / 2 ^ 53 < 1 / (8 :: rat)"
    by (simp_all add: field_simps)
  ultimately have "\<bar>g - f * 100\<bar> < 1 / 4" using s by linarith
  moreover have "\<bar>f * 100 - of_int z\<bar> \<le> 1 / 8" by (rule f)
  ultimately have "\<bar>g - of_int z\<bar> < 1 / 2" by linarith
  then show ?thesis using g math_Round_near by blast
qed

lemma number_value_MarshalJSON:
  assumes "a \<noteq> 0" "sint a \<noteq> int64_min"
  shows "number_value (MarshalJSON a) = of_int (sint a) / 100"
proof -
  define n where "n = nat \<bar>sint a\<bar>"
  define body where "body = nat_digits (n div 100) @ CHR ''.'' # two_digits n"
  have n: "sint a = (if sint a < 0 then - int n else int n)" by (simp add: n_def)
  have m: "MarshalJSON a = (if sint a < 0 then ''-'' else '''') @ body"
    using MarshalJSON_eq [OF assms n_def] by (simp add: body_def)
  have digits: "\<forall>c\<in>set (nat_digits k). is_digit c" for k
    using nat_digits_digits [of k] by (simp add: list_all_iff)
  have t: "takeWhile is_digit (two_digits n) = two_digits n" "dropWhile is_digit (two_digits n) = []"
    by (simp_all add: two_digits_def)
  have d: "dec_val (n div 100) (two_digits n) = n"
    using dec_val_shift [of "n div 100" "two_digits n"] by simp
  have p: "\<not> is_digit CHR ''.''" by code_simp
  have nv: "number_value body = of_nat n / 100"
    unfolding number_value_def body_def num_sign_nat_digits
    using digits by (simp add: Let_def takeWhile_append2 dropWhile_append2 exp_value_def t d p)
  have "num_sign (CHR ''-'' # body) = body" by (simp add: num_sign_def)
  moreover have "num_sign body = body" by (simp only: body_def num_sign_nat_digits)
  moreover have "CHR ''-'' # body \<noteq> body" by (simp add: list.size)
  ultimately have "number_value (CHR ''-'' # body) = - number_value body"
    by (simp add: number_value_def Let_def)
  with nv m n show ?thesis by (cases "sint a < 0") simp_all
qed

text \<open>Every literal for a whole number of kopecks, in that range, is read exactly.\<close>

lemma Accrual_of_value:
  assumes "number_value n = of_int z / 100" "\<bar>z\<bar> \<le> 2 ^ 50"
  shows "Accrual_UnmarshalJSON (JNum n) = Some (word_of_int z)"
proof -
  have "of_int \<bar>z\<bar> \<le> (of_int (2 ^ 50) :: rat)" using assms(2) by (simp only: of_int_le_iff)
  then have "\<bar>of_int z / 100\<bar> \<le> (2 :: rat) ^ 60" by simp
  then obtain f where f: "float64_round (of_int z / 100) = Some f"
    using float64_round_defined by blast
  then obtain g where "float64_round (f * 100) = Some g" "math_Round g = z"
    using two_roundings [OF assms(2)] by blast
  moreover have "in_int64 z" using assms(2) by (auto simp: in_int64_def)
  ultimately have "float_to_int (float64_round (f * 100)) = word_of_int z" by (simp add: float_to_int_def)
  then show ?thesis unfolding Accrual_UnmarshalJSON.simps assms(1) f by simp
qed

lemma number_value_accrual:
  assumes "\<bar>sint a\<bar> \<le> 2 ^ 50"
  shows "number_value (MarshalJSON a) = of_int (sint a) / 100"
proof (cases "a = 0")
  case True
  then show ?thesis by (simp add: MarshalJSON_def number_value_def exp_value_def num_sign_def digit_val_def)
next
  case False
  then show ?thesis using assms by (intro number_value_MarshalJSON) auto
qed

text \<open>C28. An amount written by \<open>MarshalJSON\<close> is read back by \<open>UnmarshalJSON\<close> exactly, signs and zero
  included, as long as it is at most 2^50 kopecks (eleven trillion roubles) either way.\<close>

theorem accrual_json_roundtrip:
  assumes "\<bar>sint a\<bar> \<le> 2 ^ 50"
  shows "Accrual_UnmarshalJSON (JNum (MarshalJSON a)) = Some a"
  using Accrual_of_value [OF number_value_accrual [OF assms] assms] by simp

theorem accrual_json_roundtrip_witness:
  "Accrual_UnmarshalJSON (JNum (MarshalJSON (- 57))) = Some (- 57)"
  by (rule accrual_json_roundtrip) code_simp

end
