(* ===== verification/JsonModels.thy ===== *)
theory JsonModels
  imports Models JsonText Float64
begin

text \<open>
  The models as JSON documents, read by \<open>FromJSON\<close> and written by \<open>json.Marshal\<close> with the tags of the
  structs; the texts of times are arguments. What was written can be read back.
\<close>

section \<open>Documents read\<close>

fun decode_int :: "go_int \<Rightarrow> json list \<Rightarrow> go_int option" where
  "decode_int cur [] = Some cur"
| "decode_int cur (JNum n # vs) = (case atoi n of Inl e \<Rightarrow> None | Inr i \<Rightarrow> decode_int i vs)"
| "decode_int cur (JNull # vs) = decode_int cur vs"
| "decode_int cur (_ # vs) = None"

fun decode_time :: "(string \<Rightarrow> time option) \<Rightarrow> time \<Rightarrow> json list \<Rightarrow> time option" where
  "decode_time parse_time cur [] = Some cur"
| "decode_time parse_time cur (JStr s # vs) =
     (case parse_time s of None \<Rightarrow> None | Some t \<Rightarrow> decode_time parse_time t vs)"
| "decode_time parse_time cur (JNull # vs) = decode_time parse_time cur vs"
| "decode_time parse_time cur (_ # vs) = None"

fun decode_accrual :: "Accrual \<Rightarrow> json list \<Rightarrow> Accrual option" where
  "decode_accrual cur [] = Some cur"
| "decode_accrual cur (v # vs) =
     (case Accrual_UnmarshalJSON v of None \<Rightarrow> None | Some a \<Rightarrow> decode_accrual a vs)"

text \<open>\<open>FromJSON[User]\<close> and \<open>FromJSON[Withdrawal]\<close> with the tags of the structs.\<close>

definition FromJSON_User :: "(string \<Rightarrow> time option) \<Rightarrow> string \<Rightarrow> go_error + user" where
  "FromJSON_User parse_time data =
     (case Option.bind (scan data) struct_members of None \<Rightarrow> Inl ErrJson
      | Some ms \<Rightarrow>
          (case (decode_string [] (member_of ''id'' ms), decode_string [] (member_of ''login'' ms),
                 decode_string [] (member_of ''password'' ms), decode_int 0 (member_of ''version'' ms),
                 decode_time parse_time 0 (member_of ''created'' ms)) of
             (Some i, Some l, Some p, Some v, Some c) \<Rightarrow>
               Inr (zero_user\<lparr>user_ID := i, user_Login := l, user_Password := p, user_Version := v, user_CreatedAt := c\<rparr>)
           | _ \<Rightarrow> Inl ErrJson))"

definition FromJSON_Withdrawal :: "(string \<Rightarrow> time option) \<Rightarrow> string \<Rightarrow> go_error + withdrawal" where
  "FromJSON_Withdrawal parse_time data =
     (case Option.bind (scan data) struct_members of None \<Rightarrow> Inl ErrJson
      | Some ms \<Rightarrow>
          (case (decode_string [] (member_of ''order'' ms), decode_accrual 0 (member_of ''sum'' ms),
                 decode_time parse_time 0 (member_of ''processed_at'' ms)) of
             (Some i, Some a, Some t) \<Rightarrow>
               Inr (zero_withdrawal\<lparr>wd_OrderID := i, wd_Sum := a, wd_ProcessedAt := t\<rparr>)
           | _ \<Rightarrow> Inl ErrJson))"

section \<open>Documents written\<close>

text \<open>The encoder checks the text a \<open>MarshalJSON\<close> method gives; a year past 9999 has no text.\<close>

definition accrual_json :: "Accrual \<Rightarrow> json option" where
  "accrual_json a = (if is_json_number (MarshalJSON a) then Some (JNum (MarshalJSON a)) else None)"

definition order_json :: "(time \<Rightarrow> string option) \<Rightarrow> order \<Rightarrow> json option" where
  "order_json time_text m =
     (case (accrual_json (ord_Accrual m), time_text (ord_UploadedAt m)) of
        (Some a, Some t) \<Rightarrow>
          Some (JObj ([(''number'', JStr (ord_ID m)), (''status'', JStr (ord_Status m))] @
            (if ord_Accrual m = 0 then [] else [(''accrual'', a)]) @ [(''uploaded'', JStr t)]))
      | _ \<Rightarrow> None)"

definition balance_json :: "balance \<Rightarrow> json option" where
  "balance_json b =
     (case (accrual_json (bal_Balance b), accrual_json (bal_Withdrawn b)) of
        (Some c, Some w) \<Rightarrow> Some (JObj [(''current'', c), (''withdrawn'', w)])
      | _ \<Rightarrow> None)"

definition withdrawal_json :: "(time \<Rightarrow> string option) \<Rightarrow> withdrawal \<Rightarrow> json option" where
  "withdrawal_json time_text wd =
     (case (accrual_json (wd_Sum wd), time_text (wd_ProcessedAt wd)) of
        (Some a, Some t) \<Rightarrow>
          Some (JObj [(''order'', JStr (wd_OrderID wd)), (''sum'', a), (''processed_at'', JStr t)])
      | _ \<Rightarrow> None)"

definition Marshal_list :: "('a \<Rightarrow> json option) \<Rightarrow> 'a list \<Rightarrow> string option" where
  "Marshal_list f xs = map_option (\<lambda>vs. json_text (JArr vs)) (those (map f xs))"

definition Balance_ToJSON :: "balance \<Rightarrow> string option" where
  "Balance_ToJSON b = map_option json_text (balance_json b)"

definition Order_ToJSON :: "(time \<Rightarrow> string option) \<Rightarrow> order \<Rightarrow> string option" where
  "Order_ToJSON time_text m = map_option json_text (order_json time_text m)"

definition Withdrawal_ToJSON :: "(time \<Rightarrow> string option) \<Rightarrow> withdrawal \<Rightarrow> string option" where
  "Withdrawal_ToJSON time_text wd = map_option json_text (withdrawal_json time_text wd)"

text \<open>A user's document has the password and no hash; \<open>omitempty\<close> never leaves out a struct such as the time.\<close>

definition User_ToJSON :: "(time \<Rightarrow> string option) \<Rightarrow> user \<Rightarrow> string option" where
  "User_ToJSON time_text u = map_option (\<lambda>t. json_text (JObj [(''id'', JStr (user_ID u)), (''login'', JStr (user_Login u)),
     (''password'', JStr (user_Password u)), (''version'', JNum (itoa (user_Version u))), (''created'', JStr t)]))
     (time_text (user_CreatedAt u))"

section \<open>Reading a document back\<close>

lemma accrual_json_eq:
  "accrual_json a = Some v \<Longrightarrow> v = JNum (MarshalJSON a) \<and> is_json_number (MarshalJSON a)"
  by (auto simp: accrual_json_def split: if_splits)

lemma accrual_read:
  "\<bar>sint a\<bar> \<le> 2 ^ 50 \<Longrightarrow> Accrual_UnmarshalJSON (JNum (MarshalJSON a)) = Some a"
  using Accrual_of_value [OF number_value_accrual, of a] by simp

text \<open>What a reader of an order's document finds in it: these members, an accrual of zero left out, with these values.\<close>

definition order_read :: "(string \<Rightarrow> time option) \<Rightarrow> json \<Rightarrow> order \<Rightarrow> bool" where
  "order_read parse_time v m \<longleftrightarrow> (\<exists>ks. struct_members v = Some ks \<and>
     map fst ks = [''number'', ''status''] @ (if ord_Accrual m = 0 then [] else [''accrual'']) @ [''uploaded''] \<and>
     decode_string [] (member_of ''number'' ks) = Some (ord_ID m) \<and>
     decode_string [] (member_of ''status'' ks) = Some (ord_Status m) \<and>
     decode_accrual 0 (member_of ''accrual'' ks) = Some (ord_Accrual m) \<and>
     decode_time parse_time 0 (member_of ''uploaded'' ks) = Some (ord_UploadedAt m))"

lemma order_json_read:
  assumes "order_json tt m = Some v" "\<bar>sint (ord_Accrual m)\<bar> \<le> 2 ^ 50"
    and "\<And>s. tt (ord_UploadedAt m) = Some s \<Longrightarrow> parse_time s = Some (ord_UploadedAt m)"
  shows "order_read parse_time v m"
proof -
  obtain t where t: "tt (ord_UploadedAt m) = Some t" and v: "v = JObj ([(''number'', JStr (ord_ID m)), (''status'', JStr (ord_Status m))] @
      (if ord_Accrual m = 0 then [] else [(''accrual'', JNum (MarshalJSON (ord_Accrual m)))]) @ [(''uploaded'', JStr t)])"
    using assms(1) by (auto simp: order_json_def dest!: accrual_json_eq split: option.splits)
  note a = accrual_read [OF assms(2)] assms(3) [OF t]
  show ?thesis
    unfolding order_read_def v using a
    by (simp add: member_of_def to_lower_def del: Accrual_UnmarshalJSON.simps)
qed

lemma order_json_ok:
  assumes "order_json tt m = Some v" "valid_utf8 (ord_ID m)" "valid_utf8 (ord_Status m)"
    and "\<And>t. tt (ord_UploadedAt m) = Some t \<Longrightarrow> valid_utf8 t"
  shows "json_ok 1 v"
  using assms by (auto simp: order_json_def utf8_len_ascii dest!: accrual_json_eq split: option.splits)

lemma those_map: "those (map f xs) = Some vs \<Longrightarrow> list_all2 (\<lambda>v x. f x = Some v) vs xs"
  by (induction xs arbitrary: vs) (auto split: option.splits)

lemma Marshal_list_rows:
  "Marshal_list f xs = Some b \<Longrightarrow> \<exists>vs. b = json_text (JArr vs) \<and> list_all2 (\<lambda>v x. f x = Some v) vs xs"
  by (auto simp: Marshal_list_def dest: those_map)

lemma json_ok_deeper: "json_ok 1 v \<Longrightarrow> json_ok 9999 v"
proof (cases v)
  case (JArr vs)
  assume "json_ok 1 v"
  then have "\<forall>u\<in>set vs. json_ok 0 u" using JArr by simp
  moreover have "json_ok 0 u \<Longrightarrow> json_ok 9998 u" for u by (cases u) auto
  ultimately show ?thesis using JArr by simp
next
  case (JObj ms)
  assume "json_ok 1 v"
  then have "\<forall>(k, u)\<in>set ms. valid_utf8 k \<and> json_ok 0 u" using JObj by simp
  moreover have "json_ok 0 u \<Longrightarrow> json_ok 9998 u" for u by (cases u) auto
  ultimately show ?thesis using JObj by (auto split: prod.splits)
qed auto

lemma scan_shallow:
  assumes "json_ok 1 j"
  shows "scan (json_text j) = Some j"
proof (rule scan_text)
  have "json_ok 0 v \<Longrightarrow> json_ok 9999 v" for v by (cases v) auto
  then show "json_ok 10000 j" using assms by (cases j) (auto split: prod.splits)
qed

text \<open>A list of orders as a document.\<close>

lemma orders_scanned:
  assumes "Marshal_list (order_json time_text) ms = Some b"
    and "\<forall>m\<in>set ms. valid_utf8 (ord_ID m) \<and> valid_utf8 (ord_Status m) \<and>
      (\<forall>s. time_text (ord_UploadedAt m) = Some s \<longrightarrow> valid_utf8 s)"
  shows "\<exists>vs. scan b = Some (JArr vs) \<and> list_all2 (\<lambda>v m. order_json time_text m = Some v) vs ms"
proof -
  obtain vs where vs: "b = json_text (JArr vs)" "list_all2 (\<lambda>v m. order_json time_text m = Some v) vs ms"
    using Marshal_list_rows [OF assms(1)] by blast
  have "json_ok 1 v" if v: "v \<in> set vs" for v
  proof -
    obtain n where n: "n < length vs" "vs ! n = v" using v by (auto simp: in_set_conv_nth)
    then have "ms ! n \<in> set ms" "order_json time_text (ms ! n) = Some v"
      using vs(2) by (auto simp: list_all2_conv_all_nth)
    then show ?thesis using order_json_ok assms(2) by blast
  qed
  then have "json_ok 10000 (JArr vs)" using json_ok_deeper by simp
  then show ?thesis using scan_text vs by blast
qed

text \<open>A user's document reads back without the hash and the balance, which it does not show.\<close>

lemma num_int_nat_digits_end: "num_int (nat_digits n) = Some []"
proof (cases "n = 0")
  case True
  then show ?thesis by (simp add: nat_digits_small digit_char_0 num_int_def)
next
  case False
  obtain c t where ct: "nat_digits n = c # t" by (cases "nat_digits n") auto
  with False nat_digits_hd [of n] have "c \<noteq> CHR ''0''" by simp
  moreover have "list_all is_digit (c # t)" using nat_digits_digits [of n] ct by simp
  ultimately show ?thesis by (simp add: num_int_def ct list_all_iff dropWhile_eq_Nil_conv)
qed

lemma is_json_number_itoa: "is_json_number (itoa w)"
proof -
  have "num_sign (CHR ''-'' # s) = s" for s by (simp add: num_sign_def)
  then show ?thesis
    using num_sign_nat_digits [of _ "[]"] num_int_nat_digits_end
    by (simp add: itoa_def is_json_number_def num_frac_def num_exp_def)
qed

lemma User_ToJSON_read:
  assumes "User_ToJSON tt u = Some b" "tt (user_CreatedAt u) = Some t" "pt t = Some (user_CreatedAt u)"
    and "valid_utf8 (user_ID u)" "valid_utf8 (user_Login u)" "valid_utf8 (user_Password u)" "valid_utf8 t"
  shows "FromJSON_User pt b = Inr (u\<lparr>user_Hash := [], user_Balance := 0\<rparr>)"
proof -
  let ?j = "JObj [(''id'', JStr (user_ID u)), (''login'', JStr (user_Login u)),
     (''password'', JStr (user_Password u)), (''version'', JNum (itoa (user_Version u))), (''created'', JStr t)]"
  have "b = json_text ?j" using assms(1,2) by (simp add: User_ToJSON_def)
  moreover have "json_ok 1 ?j" using assms(4-7) is_json_number_itoa by (simp add: utf8_len_ascii)
  ultimately have "scan b = Some ?j" using scan_shallow by blast
  then show ?thesis
    using assms(3) by (cases u) (simp add: FromJSON_User_def member_of_def to_lower_def atoi_itoa zero_user_def)
qed

end
