(* ===== verification/Handlers.thy ===== *)
theory Handlers
  imports Middleware JsonModels
begin

text \<open>
  \<open>internal/handlers\<close>: the seven endpoints. A handler takes the writer's methods and the service it
  was constructed with; \<open>time.Time\<close>'s text, read and written, is an argument. A client sees what \<open>response_writer\<close> says.
\<close>

section \<open>The services as interfaces\<close>

record 'x CommonServiceInterface =
  cs_Login :: "user \<Rightarrow> 'x \<Rightarrow> go_error option \<times> 'x"
  cs_Register :: "user \<Rightarrow> 'x \<Rightarrow> (go_error option \<times> user) \<times> 'x"

record 'x OrderServiceInterface =
  ors_Store :: "claims option \<Rightarrow> string \<Rightarrow> 'x \<Rightarrow> go_error option outcome \<times> 'x"
  ors_List :: "claims option \<Rightarrow> 'x \<Rightarrow> (go_error + order list) outcome \<times> 'x"

record 'x BalanceServiceInterface =
  bls_GetBalanceInfo :: "claims option \<Rightarrow> 'x \<Rightarrow> (go_error + balance) outcome \<times> 'x"
  bls_Withdraw :: "claims option \<Rightarrow> withdrawal \<Rightarrow> 'x \<Rightarrow> (go_error option \<times> withdrawal) outcome \<times> 'x"
  bls_ListWithdrawals :: "claims option \<Rightarrow> 'x \<Rightarrow> (go_error + withdrawal list) outcome \<times> 'x"

definition NewCommonService :: "(string \<Rightarrow> string \<Rightarrow> bool) \<Rightarrow> (string \<Rightarrow> go_error + string) \<Rightarrow>
    's SQLStorageInterface \<Rightarrow> 's CommonServiceInterface" where
  "NewCommonService cmp hashPassword db =
     \<lparr>cs_Login = CommonService_Login cmp db, cs_Register = CommonService_Register hashPassword db\<rparr>"

definition NewOrderService :: "'s SQLStorageInterface \<Rightarrow> ('s, 'c) OrderService OrderServiceInterface" where
  "NewOrderService db =
     \<lparr>ors_Store = OrderService_Store db,
      ors_List = (\<lambda>c o'. case OrderService_List db c (os_db o') of (r, s) \<Rightarrow> (r, o'\<lparr>os_db := s\<rparr>))\<rparr>"

definition NewBalanceService :: "'s SQLStorageInterface \<Rightarrow> 's BalanceServiceInterface" where
  "NewBalanceService db =
     \<lparr>bls_GetBalanceInfo = GetBalanceInfo db, bls_Withdraw = Withdraw db,
      bls_ListWithdrawals = BalanceService_ListWithdrawals db\<rparr>"

section \<open>The endpoints\<close>

text \<open>The logger is taken from the context first; without one the handler panics.\<close>

definition with_logger :: "('w, 's) handler \<Rightarrow> ('w, 's) handler" where
  "with_logger h r = (\<lambda>(w, s). if req_Logger r then h r (w, s) else (Panics NilDereference, w, s))"

definition send_status :: "'w ResponseWriter \<Rightarrow> nat \<Rightarrow> 'w \<times> 's \<Rightarrow> unit outcome \<times> 'w \<times> 's" where
  "send_status rw st = (\<lambda>(w, s). (Returns (), rw_WriteHeader rw st w, s))"

definition send_json :: "'w ResponseWriter \<Rightarrow> string \<Rightarrow> 'w \<times> 's \<Rightarrow> unit outcome \<times> 'w \<times> 's" where
  "send_json rw body = (\<lambda>(w, s).
     let w = rw_Header rw (Header_Set ContentType AppJSONContentType) w;
         w = rw_WriteHeader rw 200 w
     in (Returns (), snd (rw_Write rw body w), s))"

subsection \<open>Orders\<close>

definition orders_status :: "go_error \<Rightarrow> nat" where
  "orders_status err =
     (if errors_Is err (OrderErr ErrOrderNotFound) then 204
      else if errors_Is err (OrderErr ErrOrderWrongFormat) then 422
      else if errors_Is err (OrderErr ErrOrderExists) then 200
      else if errors_Is err (OrderErr ErrOrderBelongsToOtherUser) then 409
      else 500)"

definition handle_AddOrder :: "'w ResponseWriter \<Rightarrow> 's OrderServiceInterface \<Rightarrow> ('w, 's) handler" where
  "handle_AddOrder rw orderService = with_logger (\<lambda>r (w, s).
     if Header_Get ContentType (req_Header r) \<noteq> TextPlainContentType then send_status rw 400 (w, s)
     else case req_Body r of
       Inl err \<Rightarrow> send_status rw 400 (w, s)
     | Inr body \<Rightarrow>
         (case ors_Store orderService (GetClaims r) body s of
            (Panics p, s) \<Rightarrow> (Panics p, w, s)
          | (Returns (Some err), s) \<Rightarrow> send_status rw (orders_status err) (w, s)
          | (Returns None, s) \<Rightarrow>
              send_status rw 202 (rw_Header rw (Header_Set ContentType TextPlainContentType) w, s)))"

definition handle_ListOrders :: "'w ResponseWriter \<Rightarrow> (time \<Rightarrow> string option) \<Rightarrow> 's OrderServiceInterface \<Rightarrow>
    ('w, 's) handler" where
  "handle_ListOrders rw time_text orderService = with_logger (\<lambda>r (w, s).
     case ors_List orderService (GetClaims r) s of
       (Panics p, s) \<Rightarrow> (Panics p, w, s)
     | (Returns (Inl err), s) \<Rightarrow> send_status rw (orders_status err) (w, s)
     | (Returns (Inr ms), s) \<Rightarrow>
         (case Marshal_list (order_json time_text) ms of
            None \<Rightarrow> send_status rw 500 (w, s)
          | Some body \<Rightarrow> send_json rw body (w, s)))"

subsection \<open>Registration and login\<close>

definition common_status :: "go_error \<Rightarrow> nat" where
  "common_status err =
     (if errors_Is err (UserErr ErrUserWrongLoginLength) then 400
      else if errors_Is err (UserErr ErrUserWrongPasswordLength) then 400
      else if errors_Is err (UserErr ErrUserNotFound) then 401
      else if errors_Is err (UserErr ErrWrongPassword) then 401
      else if errors_Is err (UserErr ErrUserExists) then 409
      else 500)"

text \<open>The user of the request, or the writer with the status 400 sent.\<close>

definition commonChecks :: "'w ResponseWriter \<Rightarrow> (string \<Rightarrow> time option) \<Rightarrow> go_request \<Rightarrow> 'w \<Rightarrow>
    (go_error + user) \<times> 'w" where
  "commonChecks rw parse_time r w =
     (if Header_Get ContentType (req_Header r) \<noteq> AppJSONContentType
      then (Inl (ErrorString ''bad request: wrong content-type''), rw_WriteHeader rw 400 w)
      else case req_Body r of
        Inl err \<Rightarrow> (Inl (Wrapf ''bad request: '' err), rw_WriteHeader rw 400 w)
      | Inr body \<Rightarrow>
          (case FromJSON_User parse_time body of
             Inl err \<Rightarrow> (Inl (Wrapf ''can't parse request body: '' err), rw_WriteHeader rw 400 w)
           | Inr u \<Rightarrow> (Inr u, w)))"

definition TokenExpiration :: int where "TokenExpiration = 3 * 3600 * 1000000000"
definition CookieTokenName :: string where "CookieTokenName = ''token''"
definition ParentPath :: string where "ParentPath = ''/api/user/''"

definition auth_cookie :: "string \<Rightarrow> time \<Rightarrow> cookie" where
  "auth_cookie tokenString expireAt =
     \<lparr>ck_Name = CookieTokenName, ck_Value = tokenString, ck_Path = ParentPath, ck_Expires = expireAt,
      ck_HttpOnly = True, ck_Secure = False, ck_SameSiteLax = True\<rparr>"

definition setAuthCookie :: "'w ResponseWriter \<Rightarrow> (int \<Rightarrow> string) \<Rightarrow> (user \<Rightarrow> time \<Rightarrow> go_error + string) \<Rightarrow>
    go_request \<Rightarrow> user \<Rightarrow> 'w \<Rightarrow> go_error option \<times> 'w" where
  "setAuthCookie rw http_date authService r u w =
     (let expireAt = req_Now r + TokenExpiration
      in case authService u expireAt of
           Inl err \<Rightarrow> (Some (Wrapf ''token generation failed: '' err), w)
         | Inr tokenString \<Rightarrow> (None, SetCookie http_date rw (auth_cookie tokenString expireAt) w))"

text \<open>The end of both endpoints: the cookie and 200, or 500.\<close>

definition issue_token :: "'w ResponseWriter \<Rightarrow> (int \<Rightarrow> string) \<Rightarrow> (user \<Rightarrow> time \<Rightarrow> go_error + string) \<Rightarrow>
    go_request \<Rightarrow> user \<Rightarrow> 'w \<times> 's \<Rightarrow> unit outcome \<times> 'w \<times> 's" where
  "issue_token rw http_date authService r u = (\<lambda>(w, s).
     case setAuthCookie rw http_date authService r u w of
       (Some err, w) \<Rightarrow> send_status rw 500 (w, s)
     | (None, w) \<Rightarrow> send_status rw 200 (w, s))"

definition handle_Login :: "'w ResponseWriter \<Rightarrow> (string \<Rightarrow> time option) \<Rightarrow> (int \<Rightarrow> string) \<Rightarrow>
    (user \<Rightarrow> time \<Rightarrow> go_error + string) \<Rightarrow> 's CommonServiceInterface \<Rightarrow> ('w, 's) handler" where
  "handle_Login rw parse_time http_date authService commonService = with_logger (\<lambda>r (w, s).
     case commonChecks rw parse_time r w of
       (Inl err, w) \<Rightarrow> (Returns (), w, s)
     | (Inr u, w) \<Rightarrow>
         (case cs_Login commonService u s of
            (Some err, s) \<Rightarrow> send_status rw (common_status err) (w, s)
          | (None, s) \<Rightarrow> issue_token rw http_date authService r u (w, s)))"

definition handle_Register :: "'w ResponseWriter \<Rightarrow> (string \<Rightarrow> time option) \<Rightarrow> (int \<Rightarrow> string) \<Rightarrow>
    (user \<Rightarrow> time \<Rightarrow> go_error + string) \<Rightarrow> 's CommonServiceInterface \<Rightarrow> ('w, 's) handler" where
  "handle_Register rw parse_time http_date authService commonService = with_logger (\<lambda>r (w, s).
     case commonChecks rw parse_time r w of
       (Inl err, w) \<Rightarrow> (Returns (), w, s)
     | (Inr u, w) \<Rightarrow>
         (case cs_Register commonService u s of
            ((Some err, u), s) \<Rightarrow> send_status rw (common_status err) (w, s)
          | ((None, u), s) \<Rightarrow> issue_token rw http_date authService r u (w, s)))"

subsection \<open>Balances\<close>

definition balance_status :: "go_error \<Rightarrow> nat" where
  "balance_status err =
     (if errors_Is err (OrderErr ErrOrderWrongFormat) then 422
      else if errors_Is err (UserErr ErrUserBalanceIsNotEnough) then 402
      else 500)"

definition handle_GetLoyalityBalance :: "'w ResponseWriter \<Rightarrow> 's BalanceServiceInterface \<Rightarrow> ('w, 's) handler" where
  "handle_GetLoyalityBalance rw balanceService = with_logger (\<lambda>r (w, s).
     case bls_GetBalanceInfo balanceService (GetClaims r) s of
       (Panics p, s) \<Rightarrow> (Panics p, w, s)
     | (Returns (Inl err), s) \<Rightarrow> send_status rw (balance_status err) (w, s)
     | (Returns (Inr b), s) \<Rightarrow>
         (case Balance_ToJSON b of
            None \<Rightarrow> send_status rw 500 (w, s)
          | Some body \<Rightarrow> send_json rw body (w, s)))"

definition handle_WithdrawBalance :: "'w ResponseWriter \<Rightarrow> (string \<Rightarrow> time option) \<Rightarrow> 's BalanceServiceInterface \<Rightarrow>
    ('w, 's) handler" where
  "handle_WithdrawBalance rw parse_time balanceService = with_logger (\<lambda>r (w, s).
     if Header_Get ContentType (req_Header r) \<noteq> AppJSONContentType then send_status rw 400 (w, s)
     else case req_Body r of
       Inl err \<Rightarrow> send_status rw 400 (w, s)
     | Inr body \<Rightarrow>
         (case FromJSON_Withdrawal parse_time body of
            Inl err \<Rightarrow> send_status rw 500 (w, s)
          | Inr withdrawn \<Rightarrow>
              (case bls_Withdraw balanceService (GetClaims r) withdrawn s of
                 (Panics p, s) \<Rightarrow> (Panics p, w, s)
               | (Returns (Some err, _), s) \<Rightarrow> send_status rw (balance_status err) (w, s)
               | (Returns (None, _), s) \<Rightarrow>
                   send_status rw 200 (rw_Header rw (Header_Set ContentType AppJSONContentType) w, s))))"

definition handle_ListWithdrawals :: "'w ResponseWriter \<Rightarrow> (time \<Rightarrow> string option) \<Rightarrow> 's BalanceServiceInterface \<Rightarrow>
    ('w, 's) handler" where
  "handle_ListWithdrawals rw time_text balanceService = with_logger (\<lambda>r (w, s).
     case bls_ListWithdrawals balanceService (GetClaims r) s of
       (Panics p, s) \<Rightarrow> (Panics p, w, s)
     | (Returns (Inl err), s) \<Rightarrow> send_status rw (balance_status err) (w, s)
     | (Returns (Inr list), s) \<Rightarrow>
         if length list = 0 then send_status rw 204 (w, s)
         else (case Marshal_list (withdrawal_json time_text) list of
                 None \<Rightarrow> send_status rw 500 (w, s)
               | Some body \<Rightarrow> send_json rw body (w, s)))"

end
