(* ===== verification/Endpoints.thy ===== *)
theory Endpoints
  imports Handlers
begin

text \<open>
  What the client of an endpoint sees, as a function of what the service answered, for every writer
  that keeps the contract \<open>response_writer\<close>: the plain one, the logging one, the compressing one. On
  top of it the endpoints over the repository.
\<close>

section \<open>Replies\<close>

text \<open>A status, the header lines added, the body.\<close>

type_synonym reply = "nat \<times> (header \<Rightarrow> header) \<times> string"

definition as_seen :: "header \<Rightarrow> reply \<Rightarrow> response" where
  "as_seen h p = (case p of (st, f, b) \<Rightarrow> \<lparr>rsp_Status = st, rsp_Header = f h, rsp_Body = b\<rparr>)"

definition status_only :: "nat \<Rightarrow> reply" where
  "status_only st = (st, \<lambda>h. h, [])"

definition typed :: "string \<Rightarrow> nat \<Rightarrow> string \<Rightarrow> reply" where
  "typed ct st b = (st, Header_Set ContentType ct, b)"

definition add_order_reply :: "go_error option \<Rightarrow> reply" where
  "add_order_reply e = (case e of None \<Rightarrow> typed TextPlainContentType 202 [] | Some err \<Rightarrow> status_only (orders_status err))"

definition json_reply :: "string option \<Rightarrow> reply" where
  "json_reply body = (case body of None \<Rightarrow> status_only 500 | Some b \<Rightarrow> typed AppJSONContentType 200 b)"

definition list_orders_reply :: "(time \<Rightarrow> string option) \<Rightarrow> go_error + order list \<Rightarrow> reply" where
  "list_orders_reply time_text x = (case x of Inl err \<Rightarrow> status_only (orders_status err)
     | Inr ms \<Rightarrow> json_reply (Marshal_list (order_json time_text) ms))"

definition balance_reply :: "go_error + balance \<Rightarrow> reply" where
  "balance_reply x = (case x of Inl err \<Rightarrow> status_only (balance_status err) | Inr b \<Rightarrow> json_reply (Balance_ToJSON b))"

definition withdraw_reply :: "go_error option \<times> withdrawal \<Rightarrow> reply" where
  "withdraw_reply x = (case fst x of None \<Rightarrow> typed AppJSONContentType 200 [] | Some err \<Rightarrow> status_only (balance_status err))"

definition list_withdrawals_reply :: "(time \<Rightarrow> string option) \<Rightarrow> go_error + withdrawal list \<Rightarrow> reply" where
  "list_withdrawals_reply time_text x = (case x of Inl err \<Rightarrow> status_only (balance_status err)
     | Inr [] \<Rightarrow> status_only 204
     | Inr list \<Rightarrow> json_reply (Marshal_list (withdrawal_json time_text) list))"

text \<open>Registration and login end with a cookie that carries a token for the user.\<close>

definition login_reply :: "(int \<Rightarrow> string) \<Rightarrow> (user \<Rightarrow> time \<Rightarrow> go_error + string) \<Rightarrow> time \<Rightarrow> go_error option \<times> user \<Rightarrow> reply" where
  "login_reply http_date authService tm x = (case x of
     (Some err, u) \<Rightarrow> status_only (common_status err)
   | (None, u) \<Rightarrow>
       (case authService u (tm + TokenExpiration) of Inl err \<Rightarrow> status_only 500
        | Inr tok \<Rightarrow> (200, Header_Add ''Set-Cookie'' (cookie_String http_date (auth_cookie tok (tm + TokenExpiration))), [])))"

text \<open>The end of a handler that called its service once.\<close>

definition answers :: "('w \<Rightarrow> response) \<Rightarrow> header \<Rightarrow> ('x \<Rightarrow> reply) \<Rightarrow> 'x outcome \<times> 's \<Rightarrow>
    unit outcome \<times> 'w \<times> 's \<Rightarrow> bool" where
  "answers seen h f served res \<longleftrightarrow> snd (snd res) = snd served \<and>
     (case fst served of Panics p \<Rightarrow> fst res = Panics p
      | Returns x \<Rightarrow> fst res = Returns () \<and> seen (fst (snd res)) = as_seen h (f x))"

lemmas reply_defs = as_seen_def status_only_def typed_def add_order_reply_def json_reply_def
  list_orders_reply_def balance_reply_def withdraw_reply_def list_withdrawals_reply_def

context response_writer
begin

lemma sends:
  assumes "fresh w"
  shows "seen (rw_WriteHeader rw st w) = as_seen (pending w) (status_only st)"
    and "seen (rw_WriteHeader rw st (rw_Header rw (Header_Set ContentType ct) w)) = as_seen (pending w) (typed ct st [])"
    and "seen (snd (rw_Write rw b (rw_WriteHeader rw 200 (rw_Header rw (Header_Set ContentType ct) w))))
      = as_seen (pending w) (typed ct 200 b)"
  using assms content_type(1,2) [OF assms]
  by (simp_all add: status body as_seen_def status_only_def typed_def bodyAllowedForStatus_def)

lemmas handler_defs = with_logger_def send_status_def send_json_def Let_def answers_def GetClaims_def

lemma AddOrder_seen:
  assumes "fresh w" "req_Logger r" "Header_Get ContentType (req_Header r) = TextPlainContentType" "req_Body r = Inr i"
  shows "answers seen (pending w) add_order_reply (ors_Store svc (req_Claims r) i s) (handle_AddOrder rw svc r (w, s))"
  using assms by (auto simp: handle_AddOrder_def handler_defs sends add_order_reply_def
      split: outcome.split option.split prod.split)

lemma ListOrders_seen:
  assumes "fresh w" "req_Logger r"
  shows "answers seen (pending w) (list_orders_reply tt) (ors_List svc (req_Claims r) s) (handle_ListOrders rw tt svc r (w, s))"
  using assms by (auto simp: handle_ListOrders_def handler_defs sends list_orders_reply_def json_reply_def
      split: outcome.split option.split prod.split sum.split)

lemma GetLoyalityBalance_seen:
  assumes "fresh w" "req_Logger r"
  shows "answers seen (pending w) balance_reply (bls_GetBalanceInfo svc (req_Claims r) s)
    (handle_GetLoyalityBalance rw svc r (w, s))"
  using assms by (auto simp: handle_GetLoyalityBalance_def handler_defs sends balance_reply_def json_reply_def
      split: outcome.split option.split prod.split sum.split)

lemma WithdrawBalance_seen:
  assumes "fresh w" "req_Logger r" "Header_Get ContentType (req_Header r) = AppJSONContentType" "req_Body r = Inr b"
    and "FromJSON_Withdrawal pt b = Inr wd"
  shows "answers seen (pending w) withdraw_reply (bls_Withdraw svc (req_Claims r) wd s)
    (handle_WithdrawBalance rw pt svc r (w, s))"
  using assms by (auto simp: handle_WithdrawBalance_def handler_defs sends withdraw_reply_def
      split: outcome.split option.split prod.split sum.split)

lemma ListWithdrawals_seen:
  assumes "fresh w" "req_Logger r"
  shows "answers seen (pending w) (list_withdrawals_reply tt) (bls_ListWithdrawals svc (req_Claims r) s)
    (handle_ListWithdrawals rw tt svc r (w, s))"
  using assms by (auto simp: handle_ListWithdrawals_def handler_defs sends list_withdrawals_reply_def json_reply_def
      split: outcome.split option.split prod.split sum.split list.split)

lemma Login_seen:
  assumes "fresh w" "req_Logger r" "Header_Get ContentType (req_Header r) = AppJSONContentType" "req_Body r = Inr b"
    and "FromJSON_User pt b = Inr u"
  shows "answers seen (pending w) (login_reply hd' auth (req_Now r))
    (case cs_Login svc u s of (x, s) \<Rightarrow> (Returns (x, u), s)) (handle_Login rw pt hd' auth svc r (w, s))"
    and "answers seen (pending w) (login_reply hd' auth (req_Now r))
    (case cs_Register svc u s of (x, s) \<Rightarrow> (Returns x, s)) (handle_Register rw pt hd' auth svc r (w, s))"
  using assms by (auto simp: handle_Login_def handle_Register_def handler_defs commonChecks_def issue_token_def
      setAuthCookie_def login_reply_def SetCookie_def sends set_cookie status as_seen_def status_only_def
      split: option.split prod.split sum.split)

text \<open>Requests that do not reach the service.\<close>

lemma refused:
  assumes "fresh w" "req_Logger r"
  shows "Header_Get ContentType (req_Header r) \<noteq> TextPlainContentType \<or> req_Body r = Inl e \<Longrightarrow>
      \<exists>w'. handle_AddOrder rw os r (w, s) = (Returns (), w', s) \<and> seen w' = as_seen (pending w) (status_only 400)"
    and "Header_Get ContentType (req_Header r) \<noteq> AppJSONContentType \<or> req_Body r = Inl e \<Longrightarrow>
      \<exists>w'. handle_WithdrawBalance rw pt bs r (w, s') = (Returns (), w', s') \<and> seen w' = as_seen (pending w) (status_only 400)"
    and "Header_Get ContentType (req_Header r) = AppJSONContentType \<Longrightarrow> req_Body r = Inr b \<Longrightarrow>
      FromJSON_Withdrawal pt b = Inl e \<Longrightarrow>
      \<exists>w'. handle_WithdrawBalance rw pt bs r (w, s') = (Returns (), w', s') \<and> seen w' = as_seen (pending w) (status_only 500)"
  using assms by (auto simp: handle_AddOrder_def handle_WithdrawBalance_def handler_defs sends)

end

end
