(* ===== verification/Server.thy ===== *)
theory Server
  imports Endpoints
begin

text \<open>
  The router of \<open>internal/gophermart/gophermart.go\<close>: which handler with which middleware serves a
  method and a path, all on the one state that the services share. The libraries the services and
  the middleware call are the fields of a record. \<open>RequestID\<close>, \<open>Recoverer\<close> and \<open>Timeout\<close> of chi are
  not part of it: a panic stays a panic here, and no request is cut off.
\<close>

record ('s, 'z) env =
  e_parse_time :: "string \<Rightarrow> time option"
  e_time_text :: "time \<Rightarrow> string option"
  e_http_date :: "int \<Rightarrow> string"
  e_compare :: "string \<Rightarrow> string \<Rightarrow> bool"
  e_hash :: "string \<Rightarrow> go_error + string"
  e_SignedString :: "claims \<Rightarrow> go_error + string"
  e_ParseWithClaims :: "string \<Rightarrow> (signing_method \<Rightarrow> go_error + string) \<Rightarrow> go_error + bool \<times> claims"
  e_EncryptionKey :: string
  e_gzip :: "'z gzip"
  e_gzip_NewReader :: "go_error + string \<Rightarrow> (go_error + string) option"
  e_CompressionThreshold :: int
  e_db :: "'s SQLStorageInterface"

text \<open>A service that only has the database, run on the whole state.\<close>

definition on_db :: "('w, 's) handler \<Rightarrow> ('w, ('s, 'c) OrderService) handler" where
  "on_db h r = (\<lambda>(w, o'). case h r (w, os_db o') of (res, w, s) \<Rightarrow> (res, w, o'\<lparr>os_db := s\<rparr>))"

definition authService :: "('s, 'z) env \<Rightarrow> go_request \<Rightarrow> user \<Rightarrow> time \<Rightarrow> go_error + string" where
  "authService e r = GenerateToken (e_SignedString e) (req_Now r)"

definition protected :: "('s, 'z) env \<Rightarrow> 'w ResponseWriter \<Rightarrow> ('w, 'x) handler \<Rightarrow> ('w, 'x) handler" where
  "protected e rw h = JWTAuth (e_ParseWithClaims e) (e_EncryptionKey e) rw h"

definition compressed :: "('s, 'z) env \<Rightarrow> 'w ResponseWriter \<Rightarrow> ('w, 'x) handler \<Rightarrow>
    (('w, 'z) GzipWriter, 'x) handler \<Rightarrow> ('w, 'x) handler" where
  "compressed e rw h hz = Compression rw (e_gzip e) (e_gzip_NewReader e) (e_CompressionThreshold e) h hz"

definition route :: "('s, 'z) env \<Rightarrow> 'w ResponseWriter \<Rightarrow> string \<Rightarrow> string \<Rightarrow>
    ('w, ('s, 'c) OrderService) handler option" where
  "route e rw meth path =
     (let common = NewCommonService (e_compare e) (e_hash e) (e_db e);
          bal = NewBalanceService (e_db e);
          ord = NewOrderService (e_db e);
          gz = GzipResponse rw (e_gzip e)
      in if meth = ''POST'' \<and> path = ''/api/user/login''
         then Some (on_db (\<lambda>r. handle_Login rw (e_parse_time e) (e_http_date e) (authService e r) common r))
         else if meth = ''POST'' \<and> path = ''/api/user/register''
         then Some (on_db (\<lambda>r. handle_Register rw (e_parse_time e) (e_http_date e) (authService e r) common r))
         else if meth = ''POST'' \<and> path = ''/api/user/orders''
         then Some (protected e rw (handle_AddOrder rw ord))
         else if meth = ''GET'' \<and> path = ''/api/user/balance''
         then Some (protected e rw (on_db (handle_GetLoyalityBalance rw bal)))
         else if meth = ''POST'' \<and> path = ''/api/user/balance/withdraw''
         then Some (protected e rw (on_db (handle_WithdrawBalance rw (e_parse_time e) bal)))
         else if meth = ''GET'' \<and> path = ''/api/user/orders''
         then Some (protected e rw (compressed e rw (handle_ListOrders rw (e_time_text e) ord)
                (handle_ListOrders gz (e_time_text e) ord)))
         else if meth = ''GET'' \<and> path = ''/api/user/withdrawals''
         then Some (protected e rw (compressed e rw (on_db (handle_ListWithdrawals rw (e_time_text e) bal))
                (on_db (handle_ListWithdrawals gz (e_time_text e) bal))))
         else None)"

text \<open>A request on a new connection: the logger around the route, then the server's last word.\<close>

definition serve :: "('s, 'z) env \<Rightarrow> string \<Rightarrow> string \<Rightarrow> go_request \<Rightarrow> ('s, 'c) OrderService \<Rightarrow>
    (unit outcome \<times> response \<times> ('s, 'c) OrderService) option" where
  "serve e meth path r o' =
     (case route e (LoggingWriter HttpWriter) meth path of None \<Rightarrow> None
      | Some h \<Rightarrow> (case Logger HttpWriter h (r\<lparr>req_Claims := None\<rparr>) (new_http_writer, o') of
          ((res, w, o'), _) \<Rightarrow> Some (res, server.seen w, o')))"

section \<open>From the client to the service\<close>

abbreviation "LW \<equiv> LoggingWriter HttpWriter"

definition new_logged :: "http_writer loggingResponseWriter" where
  "new_logged = \<lparr>lw_ResponseWriter = new_http_writer, lw_status = 0, lw_size = 0\<rparr>"

lemma new_logged [simp]:
  "http_fresh (lw_ResponseWriter new_logged)" "hw_handlerHeader (lw_ResponseWriter new_logged) = (\<lambda>k. [])"
  by (simp_all add: new_logged_def) (simp add: new_http_writer_def)

lemma logged_seen: "logged.seen l = server.seen (lw_ResponseWriter l)"
  unfolding logged.seen_def server.seen_def by (simp add: logged_sent_def split: option.split)

lemma serve_route:
  assumes "route e LW m p = Some h"
  shows "serve e m p r o' = Some (case h (r\<lparr>req_Claims := None, req_Logger := True\<rparr>) (new_logged, o') of
    (res, l, t) \<Rightarrow> (res, logged.seen l, t))"
  using assms
  by (simp add: serve_def Logger_def logged_seen new_logged_def split: prod.splits outcome.splits)

definition token_of :: "('s, 'z) env \<Rightarrow> go_request \<Rightarrow> claims option" where
  "token_of e r = (case request_Cookie ''token'' r of Inl err \<Rightarrow> None
     | Inr v \<Rightarrow> (case e_ParseWithClaims e v (jwt_key (e_EncryptionKey e)) of
          Inr (True, c) \<Rightarrow> Some c | _ \<Rightarrow> None))"

lemma request_Cookie_context [simp]:
  "request_Cookie k (r\<lparr>req_Claims := x, req_Logger := y\<rparr>) = request_Cookie k r"
  by (simp add: request_Cookie_def)

lemma protected_with_token:
  "token_of e r = Some c \<Longrightarrow> protected e rw h (r\<lparr>req_Claims := x, req_Logger := y\<rparr>) ws
    = h (r\<lparr>req_Logger := y, req_Claims := Some c\<rparr>) ws"
  by (cases ws) (auto simp: protected_def JWTAuth_def token_of_def split: sum.splits prod.splits bool.splits)

lemma request_Cookie_errors: "request_Cookie k r = Inl x \<Longrightarrow> x = ErrNoCookie"
  by (auto simp: request_Cookie_def split: option.splits)

lemma protected_without_token:
  "token_of e r = None \<Longrightarrow> protected e rw h (r\<lparr>req_Claims := x, req_Logger := y\<rparr>) (w, s)
    = (Returns (), http_Error rw ''Unauthorized'' 401 w, s)"
  by (auto simp: protected_def JWTAuth_def token_of_def dest: request_Cookie_errors split: sum.splits prod.splits bool.splits)

lemma http_Error_seen: "rsp_Status (logged.seen (http_Error LW msg 401 new_logged)) = 401"
proof -
  let ?f = "\<lambda>h. Header_Set ''X-Content-Type-Options'' ''nosniff''
    (Header_Set ContentType ''text/plain; charset=utf-8'' (Header_Del ContentLength h))"
  show ?thesis
    by (simp add: http_Error_def Let_def LoggingWriter_def HttpWriter_def new_logged_def new_http_writer_def
        http_WriteHeader_def http_Write_def logged_seen server.seen_def http_sent_def bodyAllowedForStatus_def
        declared_length_def Header_Get_def Header_Set_def Header_Del_def)
qed

definition is_protected :: "string \<Rightarrow> string \<Rightarrow> bool" where
  "is_protected m p \<longleftrightarrow> p \<noteq> ''/api/user/login'' \<and> p \<noteq> ''/api/user/register''"

lemma route_protected:
  assumes "is_protected m p" "route e rw m p = Some h"
  shows "\<exists>h'. h = protected e rw h'"
  using assms by (auto simp: route_def is_protected_def Let_def split: if_splits)

text \<open>C10. Without a token that the library accepts as valid under the server's key every endpoint but
registration and login answers 401 and touches nothing.\<close>
theorem serve_unauthorized:
  fixes o' :: "('s, 'c) OrderService" and e :: "('s, 'z) env"
  assumes "is_protected m p" "token_of e r = None" "serve e m p r o' = Some (res, resp, t)"
  shows "res = Returns () \<and> rsp_Status resp = 401 \<and> t = o'"
proof -
  obtain h :: "(_, ('s, 'c) OrderService) handler" where h: "route e LW m p = Some h"
    using assms(3) by (auto simp: serve_def split: option.splits)
  from route_protected [OF assms(1) h] obtain h' where "h = protected e LW h'" by (elim exE)
  with h have h': "route e LW m p = Some (protected e LW h')" by simp
  show ?thesis
    using assms(3) http_Error_seen by (auto simp add: serve_route [OF h'] protected_without_token [OF assms(2)])
qed

section \<open>The endpoints over the repository\<close>

text \<open>A request that passed \<open>JWTAuth\<close> reaches its handler with the claims of its token.\<close>

lemma serve_with_token:
  assumes "route e LW m p = Some (protected e LW h)" "token_of e r = Some c"
  shows "serve e m p r o' = Some (case h (r\<lparr>req_Logger := True, req_Claims := Some c\<rparr>) (new_logged, o') of
    (res, l, t) \<Rightarrow> (res, logged.seen l, t))"
  by (simp add: serve_route [OF assms(1)] protected_with_token [OF assms(2)])

text \<open>What a handler that answers with its service's result gives.\<close>

lemma serve_answers:
  assumes "answers logged.seen (\<lambda>k. []) f served x"
    and "(case x of (res, l, t) \<Rightarrow> (res, logged.seen l, t)) = (res, resp, t)"
  shows "t = snd served \<and> (case fst served of Panics p \<Rightarrow> res = Panics p
    | Returns x \<Rightarrow> res = Returns () \<and> resp = as_seen (\<lambda>k. []) (f x))"
  using assms by (cases x) (auto simp: answers_def split: outcome.splits)

lemma on_db_answers:
  "answers seen h f served (hd' r (w, os_db o')) \<Longrightarrow>
   answers seen h f (case served of (x, s) \<Rightarrow> (x, o'\<lparr>os_db := s\<rparr>)) (on_db hd' r (w, o'))"
  by (auto simp: answers_def on_db_def split: prod.splits outcome.splits)

lemmas logged_fresh = new_logged(1) [folded comp_apply [of http_fresh lw_ResponseWriter]]

lemma routes:
  "route e rw ''POST'' ''/api/user/orders'' = Some (protected e rw (handle_AddOrder rw (NewOrderService (e_db e))))"
  "route e rw ''GET'' ''/api/user/balance'' =
     Some (protected e rw (on_db (handle_GetLoyalityBalance rw (NewBalanceService (e_db e)))))"
  "route e rw ''POST'' ''/api/user/balance/withdraw'' =
     Some (protected e rw (on_db (handle_WithdrawBalance rw (e_parse_time e) (NewBalanceService (e_db e)))))"
  by (simp_all add: route_def Let_def)

lemma serve_AddOrder:
  assumes "token_of e r = Some c" "Header_Get ContentType (req_Header r) = TextPlainContentType" "req_Body r = Inr i"
    and "serve e ''POST'' ''/api/user/orders'' r o' = Some (res, resp, t)"
  shows "t = snd (OrderService_Store (e_db e) (Some c) i o') \<and>
    (case fst (OrderService_Store (e_db e) (Some c) i o') of Panics p \<Rightarrow> res = Panics p
     | Returns x \<Rightarrow> res = Returns () \<and> resp = as_seen (\<lambda>k. []) (add_order_reply x))"
proof -
  let ?r = "r\<lparr>req_Logger := True, req_Claims := Some c\<rparr>"
  have "answers logged.seen (\<lambda>k. []) add_order_reply (OrderService_Store (e_db e) (Some c) i o')
      (handle_AddOrder LW (NewOrderService (e_db e)) ?r (new_logged, o'))"
    using logged.plain.AddOrder_seen [of new_logged ?r i "NewOrderService (e_db e)" o'] assms(2,3)
    by (simp add: NewOrderService_def)
  from serve_answers [OF this] show ?thesis
    using assms(4) by (simp add: serve_with_token [OF routes(1) assms(1)])
qed

lemma serve_WithdrawBalance:
  assumes "token_of e r = Some c" "Header_Get ContentType (req_Header r) = AppJSONContentType" "req_Body r = Inr b"
    and "FromJSON_Withdrawal (e_parse_time e) b = Inr wd"
    and "serve e ''POST'' ''/api/user/balance/withdraw'' r o' = Some (res, resp, t)"
  shows "os_db t = snd (Withdraw (e_db e) (Some c) wd (os_db o')) \<and>
    (case fst (Withdraw (e_db e) (Some c) wd (os_db o')) of Panics p \<Rightarrow> res = Panics p
     | Returns x \<Rightarrow> res = Returns () \<and> resp = as_seen (\<lambda>k. []) (withdraw_reply x))"
proof -
  let ?r = "r\<lparr>req_Logger := True, req_Claims := Some c\<rparr>"
  have "answers logged.seen (\<lambda>k. []) withdraw_reply (Withdraw (e_db e) (Some c) wd (os_db o'))
      (handle_WithdrawBalance LW (e_parse_time e) (NewBalanceService (e_db e)) ?r (new_logged, os_db o'))"
    using logged.plain.WithdrawBalance_seen [of new_logged ?r b "e_parse_time e" wd "NewBalanceService (e_db e)" "os_db o'"]
      assms(2-4) by (simp add: NewBalanceService_def)
  from serve_answers [OF on_db_answers [where r = ?r and
      hd' = "handle_WithdrawBalance LW (e_parse_time e) (NewBalanceService (e_db e))", OF this]] show ?thesis
    using assms(5) by (auto simp: serve_with_token [OF routes(3) assms(1)] split: prod.splits outcome.splits)
qed

lemma serve_GetLoyalityBalance:
  assumes "token_of e r = Some c" "serve e ''GET'' ''/api/user/balance'' r o' = Some (res, resp, t)"
  shows "os_db t = snd (GetBalanceInfo (e_db e) (Some c) (os_db o')) \<and>
    (case fst (GetBalanceInfo (e_db e) (Some c) (os_db o')) of Panics p \<Rightarrow> res = Panics p
     | Returns x \<Rightarrow> res = Returns () \<and> resp = as_seen (\<lambda>k. []) (balance_reply x))"
proof -
  let ?r = "r\<lparr>req_Logger := True, req_Claims := Some c\<rparr>"
  have "answers logged.seen (\<lambda>k. []) balance_reply (GetBalanceInfo (e_db e) (Some c) (os_db o'))
      (handle_GetLoyalityBalance LW (NewBalanceService (e_db e)) ?r (new_logged, os_db o'))"
    using logged.plain.GetLoyalityBalance_seen [of new_logged ?r "NewBalanceService (e_db e)" "os_db o'"]
    by (simp add: NewBalanceService_def)
  from serve_answers [OF on_db_answers [where r = ?r and
      hd' = "handle_GetLoyalityBalance LW (NewBalanceService (e_db e))", OF this]] show ?thesis
    using assms(2) by (auto simp: serve_with_token [OF routes(2) assms(1)] split: prod.splits outcome.splits)
qed

text \<open>The errors of the services are told apart by their status.\<close>

lemma orders_status_simps [simp]:
  "orders_status (OrderErr x) = (case x of ErrOrderNotFound \<Rightarrow> 204 | ErrOrderWrongFormat \<Rightarrow> 422 | ErrOrderExists \<Rightarrow> 200
     | ErrOrderBelongsToOtherUser \<Rightarrow> 409 | ErrORderWrongStatus \<Rightarrow> 500)"
  "orders_status (DriverErr d) = 500" "orders_status (ErrorString s) = 500"
  by (cases x) (simp_all add: orders_status_def)

lemma balance_status_simps [simp]:
  "balance_status (OrderErr ErrOrderWrongFormat) = 422" "balance_status (UserErr ErrUserBalanceIsNotEnough) = 402"
  "balance_status (DriverErr d) = 500" "balance_status (ErrorString s) = 500"
  by (simp_all add: balance_status_def)

text \<open>C15. \<open>POST /api/user/orders\<close> over the database: 422 exactly for a number that fails the checksum;
202 only when the number was nobody's and is now this user's; 200 only when it was this user's
already; 409 only when it is somebody else's; every other answer is 500.\<close>
theorem AddOrder_endpoint:
  assumes "e_db e = NewSQLStorage" "healthy (os_db o')" "token_of e r = Some c"
    and "Header_Get ContentType (req_Header r) = TextPlainContentType" "req_Body r = Inr i"
    and "serve e ''POST'' ''/api/user/orders'' r o' = Some (Returns (), resp, t)"
  shows "healthy (os_db t) \<and> rsp_Status resp \<in> {200, 202, 409, 422, 500} \<and>
    (rsp_Status resp = 422 \<longleftrightarrow> \<not> IsValidLuhn i) \<and>
    (rsp_Status resp = 202 \<longrightarrow> order_owner (os_db o') i = None \<and> uuid_in (os_db o') (cl_UserID c) \<noteq> None \<and>
       order_owner (os_db t) = (order_owner (os_db o'))(i := uuid_in (os_db o') (cl_UserID c))) \<and>
    (rsp_Status resp = 200 \<longrightarrow> order_owner (os_db o') i \<noteq> None \<and>
       order_owner (os_db o') i = uuid_in (os_db o') (cl_UserID c) \<and> order_owner (os_db t) = order_owner (os_db o')) \<and>
    (rsp_Status resp = 409 \<longrightarrow> order_owner (os_db o') i \<noteq> None \<and>
       order_owner (os_db o') i \<noteq> uuid_in (os_db o') (cl_UserID c) \<and> order_owner (os_db t) = order_owner (os_db o'))"
proof -
  obtain x where x: "OrderService_Store NewSQLStorage (Some c) i o' = (Returns x, t)"
    "rsp_Status resp = fst (add_order_reply x)"
    using serve_AddOrder [OF assms(3-6)] assms(1)
    by (cases "OrderService_Store NewSQLStorage (Some c) i o'")
      (auto simp: as_seen_def split: outcome.splits prod.splits)
  note answers = sql_orders.Store_answers [OF assms(2) x(1)]
  from sql_orders.Store_range [OF assms(2) x(1)] consider "x = None" | "x = Some (OrderErr ErrOrderWrongFormat)"
    | "x = Some (OrderErr ErrOrderExists)" | "x = Some (OrderErr ErrOrderBelongsToOtherUser)"
    | d where "x = Some (DriverErr d)" | m where "x = Some (ErrorString m)" by auto
  then show ?thesis
    using answers sql_orders.Store_range [OF assms(2) x(1)] x(2)
    by cases (auto simp: add_order_reply_def typed_def status_only_def)
qed

text \<open>C14. \<open>POST /api/user/balance/withdraw\<close> over the database: 200 only when the sum left the points of
the token's user, which stay positive; 402 only when nothing was moved; 422 exactly for an order
number that fails the checksum; every other answer is 500.\<close>
theorem WithdrawBalance_endpoint:
  assumes "e_db e = NewSQLStorage" "healthy (os_db o')" "token_of e r = Some c"
    and "Header_Get ContentType (req_Header r) = AppJSONContentType" "req_Body r = Inr b"
    and "FromJSON_Withdrawal (e_parse_time e) b = Inr wd"
    and "serve e ''POST'' ''/api/user/balance/withdraw'' r o' = Some (Returns (), resp, t)"
  shows "healthy (os_db t) \<and> rsp_Status resp \<in> {200, 402, 422, 500} \<and>
    (rsp_Status resp = 422 \<longleftrightarrow> \<not> IsValidLuhn (wd_OrderID wd)) \<and>
    (rsp_Status resp = 200 \<longrightarrow> (\<exists>uid. uuid_in (os_db o') (cl_UserID c) = Some uid \<and>
       points_of (os_db t) = (points_of (os_db o'))(uid := points_of (os_db o') uid - sint (wd_Sum wd)) \<and>
       spent_by (os_db t) = (spent_by (os_db o'))(uid := spent_by (os_db o') uid + sint (wd_Sum wd)) \<and>
       0 < points_of (os_db t) uid)) \<and>
    (rsp_Status resp = 402 \<longrightarrow> points_of (os_db t) = points_of (os_db o') \<and> spent_by (os_db t) = spent_by (os_db o'))"
proof -
  obtain err wd' where x: "Withdraw NewSQLStorage (Some c) wd (os_db o') = (Returns (err, wd'), os_db t)"
    "rsp_Status resp = fst (withdraw_reply (err, wd'))"
    using serve_WithdrawBalance [OF assms(3-7)] assms(1)
    by (cases "Withdraw NewSQLStorage (Some c) wd (os_db o')")
      (auto simp: as_seen_def split: outcome.splits prod.splits)
  note answers = sql_balances.Withdraw_answers [OF assms(2) x(1)]
  note range = sql_balances.Withdraw_range [OF assms(2) x(1)]
  then consider "err = None" | "err = Some (OrderErr ErrOrderWrongFormat)"
    | "err = Some (UserErr ErrUserBalanceIsNotEnough)" | d where "err = Some (DriverErr d)" by auto
  then show ?thesis
    using answers range x(2) by cases (simp_all add: withdraw_reply_def typed_def status_only_def)
qed

section \<open>Witnesses\<close>

text \<open>Libraries for concrete runs: one valid token, times are one letter, no compression.\<close>

definition demo_gzip :: "unit gzip" where
  "demo_gzip = \<lparr>z_NewWriter = (), z_Write = (\<lambda>b z. ([b], z)), z_Close = (\<lambda>z. [])\<rparr>"

definition demo_env :: "(server, unit) env" where
  "demo_env = \<lparr>e_parse_time = (\<lambda>s. None), e_time_text = (\<lambda>t. Some ''T''), e_http_date = (\<lambda>t. ''D''),
     e_compare = (\<lambda>h p. h = ''hash'' \<and> p = ''password''), e_hash = Inr, e_SignedString = (\<lambda>c. Inr (cl_UserID c)),
     e_ParseWithClaims = (\<lambda>s f. if s = ''good'' then Inr (True, demo_claims) else Inl ErrToken),
     e_EncryptionKey = ''key'', e_gzip = demo_gzip, e_gzip_NewReader = Some, e_CompressionThreshold = 10,
     e_db = NewSQLStorage\<rparr>"

definition demo_request :: "string \<Rightarrow> string \<Rightarrow> string \<Rightarrow> go_request" where
  "demo_request ct b token = \<lparr>req_Header = (\<lambda>k. if k = ContentType then [ct] else []),
     req_Cookies = [(''token'', token)], req_Body = Inr b, req_Logger = False, req_Claims = None, req_Now = 0\<rparr>"

lemma demo_token [simp]:
  "token_of demo_env (demo_request ct b ''good'') = Some demo_claims"
  "token_of demo_env (demo_request ct b ''bad'') = None"
  by (simp_all add: token_of_def demo_env_def demo_request_def request_Cookie_def)

lemma demo_request_simps [simp]:
  "Header_Get ContentType (req_Header (demo_request ct b tok)) = ct" "req_Body (demo_request ct b tok) = Inr b"
  "e_db demo_env = NewSQLStorage" "req_Now (demo_request ct b tok) = 0"
  by (simp_all add: demo_request_def Header_Get_def demo_env_def)

lemma serve_some:
  fixes o' :: "('s, 'c) OrderService" and h :: "(_, ('s, 'c) OrderService) handler"
  shows "route e LW m p = Some h \<Longrightarrow> \<exists>res resp t. serve e m p r o' = Some (res, resp, t)"
  using serve_route [of e m p h r o'] by (cases "h (r\<lparr>req_Claims := None, req_Logger := True\<rparr>) (new_logged, o')") auto

lemma serve_unauthorized_witness:
  "\<exists>resp. serve demo_env ''POST'' ''/api/user/orders'' (demo_request TextPlainContentType ''0'' ''bad'') (demo_orders demo_server)
    = Some (Returns (), resp, demo_orders demo_server) \<and> rsp_Status resp = 401"
proof -
  obtain res resp t where s: "serve demo_env ''POST'' ''/api/user/orders''
      (demo_request TextPlainContentType ''0'' ''bad'') (demo_orders demo_server) = Some (res, resp, t)"
    using serve_some [OF routes(1)] by blast
  show ?thesis using serve_unauthorized [OF _ _ s] s by (simp add: is_protected_def)
qed

lemma AddOrder_endpoint_witness:
  "\<exists>resp t. serve demo_env ''POST'' ''/api/user/orders'' (demo_request TextPlainContentType ''79927398713'' ''good'')
      (demo_orders (perform (CallAddUser demo_user) demo_server)) = Some (Returns (), resp, t) \<and>
    rsp_Status resp = 202 \<and> order_owner (os_db t) ''79927398713'' = Some ''u''"
proof -
  let ?r = "demo_request TextPlainContentType ''79927398713'' ''good''"
  let ?o = "demo_orders (perform (CallAddUser demo_user) demo_server)"
  have luhn: "IsValidLuhn ''79927398713''" by code_simp
  have store: "fst (OrderService_Store NewSQLStorage (Some demo_claims) ''79927398713'' ?o) = Returns None"
    unfolding demo_registered using luhn
    by (simp add: OrderService_Store_def demo_claims_def demo_orders_def make_chan_def NewOrder_def Order_Validate_def
        validStatuses_def sendOrderToProcessor_def try_send_def NewSQLStorage_def run_defs demo_defs)
  obtain res resp t where s: "serve demo_env ''POST'' ''/api/user/orders'' ?r ?o = Some (res, resp, t)"
    using serve_some [OF routes(1)] by blast
  have a: "res = Returns ()" "rsp_Status resp = 202"
    using serve_AddOrder [OF _ _ _ s, of demo_claims "''79927398713''"] store
    by (simp_all add: as_seen_def add_order_reply_def typed_def)
  have u: "uuid_in (perform (CallAddUser demo_user) demo_server) ''u'' = Some ''u''"
    unfolding demo_registered by (simp add: demo_server_def)
  show ?thesis
    using AddOrder_endpoint [of demo_env ?o ?r demo_claims "''79927398713''" resp t] s a u healthy_demo_registered
    by (simp add: demo_orders_def demo_claims_def del: perform.simps)
qed

definition demo_document :: string where
  "demo_document = json_text (JObj [(''order'', JStr ''0''), (''sum'', JNum ''2'')])"

lemma demo_withdrawal_text:
  "FromJSON_Withdrawal (e_parse_time demo_env) demo_document = Inr (zero_withdrawal\<lparr>wd_OrderID := ''0'', wd_Sum := 200\<rparr>)"
proof -
  have "scan demo_document = Some (JObj [(''order'', JStr ''0''), (''sum'', JNum ''2'')])"
    unfolding demo_document_def
    by (rule scan_text) (simp add: utf8_len_ascii is_json_number_def num_sign_def num_int_def num_frac_def num_exp_def is_digit_def)
  moreover have "Accrual_UnmarshalJSON (JNum ''2'') = Some 200"
    using Accrual_of_value [of "''2''" 200]
    by (simp add: number_value_def exp_value_def num_sign_def is_digit_def digit_val_def)
  moreover have "map to_lower ''order'' = ''order''" "map to_lower ''sum'' = ''sum''"
    "map to_lower ''processed_at'' = ''processed_at''"
    by (simp_all add: to_lower_def)
  ultimately show ?thesis by (simp add: FromJSON_Withdrawal_def member_of_def zero_withdrawal_def)
qed

lemma WithdrawBalance_endpoint_witness:
  "\<exists>resp t. serve demo_env ''POST'' ''/api/user/balance/withdraw''
      (demo_request AppJSONContentType demo_document ''good'') (demo_orders (demo_credited 500)) = Some (Returns (), resp, t) \<and>
    rsp_Status resp = 200 \<and> points_of (os_db t) ''u'' = 300"
proof -
  let ?r = "demo_request AppJSONContentType demo_document ''good''"
  let ?o = "demo_orders (demo_credited 500)" and ?wd = "zero_withdrawal\<lparr>wd_OrderID := ''0'', wd_Sum := 200\<rparr>"
  have luhn: "IsValidLuhn ''0''" by code_simp
  have "\<exists>wd'. fst (Withdraw NewSQLStorage (Some demo_claims) ?wd (demo_credited 500)) = Returns (None, wd')"
    unfolding demo_credited_500 using luhn
    by (simp add: demo_claims_def NewSQLStorage_def run_defs demo_defs Withdraw_def in_int64_def retriable_codes)
  then obtain wd' where w: "fst (Withdraw NewSQLStorage (Some demo_claims) ?wd (demo_credited 500)) = Returns (None, wd')" by blast
  obtain res resp t where s: "serve demo_env ''POST'' ''/api/user/balance/withdraw'' ?r ?o = Some (res, resp, t)"
    using serve_some [OF routes(3)] by blast
  have a: "res = Returns ()" "rsp_Status resp = 200"
    using serve_WithdrawBalance [OF _ _ _ demo_withdrawal_text s, of demo_claims] w
    by (simp_all add: demo_orders_def as_seen_def withdraw_reply_def typed_def)
  have u: "uuid_in (demo_credited 500) ''u'' = Some ''u''" "points_of (demo_credited 500) ''u'' = 500"
    unfolding demo_credited_500 by (simp_all add: demo_server_def points_of_def balance_of_def)
  have h: "healthy (os_db ?o)" using healthy_demo_credited by (simp add: demo_orders_def)
  show ?thesis
    using WithdrawBalance_endpoint [OF _ h _ _ _ demo_withdrawal_text, of ?r demo_claims resp t] s a u
    by (simp add: demo_orders_def demo_claims_def)
qed

end
