(* ===== verification/Tokens.thy ===== *)
theory Tokens
  imports Server
begin

text \<open>
  Registration and login from the request to the cookie: which status they answer with, what they
  leave in the database, and whose identifier the token carries.
\<close>

lemma login_routes:
  "route e rw ''POST'' ''/api/user/login'' = Some (on_db (\<lambda>r. handle_Login rw (e_parse_time e) (e_http_date e)
     (authService e r) (NewCommonService (e_compare e) (e_hash e) (e_db e)) r))"
  "route e rw ''POST'' ''/api/user/register'' = Some (on_db (\<lambda>r. handle_Register rw (e_parse_time e) (e_http_date e)
     (authService e r) (NewCommonService (e_compare e) (e_hash e) (e_db e)) r))"
  by (simp_all add: route_def Let_def)

lemma serve_Login:
  assumes "Header_Get ContentType (req_Header r) = AppJSONContentType" "req_Body r = Inr b"
    and "FromJSON_User (e_parse_time e) b = Inr u"
    and "serve e ''POST'' ''/api/user/login'' r o' = Some (res, resp, t)"
  shows "\<exists>x. CommonService_Login (e_compare e) (e_db e) u (os_db o') = (x, os_db t) \<and> res = Returns () \<and>
    resp = as_seen (\<lambda>k. []) (login_reply (e_http_date e) (authService e r) (req_Now r) (x, u))"
proof -
  let ?r = "r\<lparr>req_Claims := None, req_Logger := True\<rparr>"
  have auth: "authService e ?r = authService e r" by (simp add: authService_def)
  have "answers logged.seen (\<lambda>k. []) (login_reply (e_http_date e) (authService e r) (req_Now r))
      (case CommonService_Login (e_compare e) (e_db e) u (os_db o') of (x, s) \<Rightarrow> (Returns (x, u), s))
      (handle_Login LW (e_parse_time e) (e_http_date e) (authService e ?r)
        (NewCommonService (e_compare e) (e_hash e) (e_db e)) ?r (new_logged, os_db o'))"
    using logged.plain.Login_seen(1) [of new_logged ?r b "e_parse_time e" u "e_http_date e" "authService e r"
        "NewCommonService (e_compare e) (e_hash e) (e_db e)" "os_db o'"] assms(1-3) auth
    by (simp add: NewCommonService_def)
  from serve_answers [OF on_db_answers [where r = ?r and hd' = "\<lambda>r. handle_Login LW (e_parse_time e) (e_http_date e)
      (authService e r) (NewCommonService (e_compare e) (e_hash e) (e_db e)) r", OF this]] show ?thesis
    using assms(4) by (auto simp: serve_route [OF login_routes(1)] split: prod.splits)
qed

lemma serve_Register:
  assumes "Header_Get ContentType (req_Header r) = AppJSONContentType" "req_Body r = Inr b"
    and "FromJSON_User (e_parse_time e) b = Inr u"
    and "serve e ''POST'' ''/api/user/register'' r o' = Some (res, resp, t)"
  shows "\<exists>x. CommonService_Register (e_hash e) (e_db e) u (os_db o') = (x, os_db t) \<and> res = Returns () \<and>
    resp = as_seen (\<lambda>k. []) (login_reply (e_http_date e) (authService e r) (req_Now r) x)"
proof -
  let ?r = "r\<lparr>req_Claims := None, req_Logger := True\<rparr>"
  have auth: "authService e ?r = authService e r" by (simp add: authService_def)
  have "answers logged.seen (\<lambda>k. []) (login_reply (e_http_date e) (authService e r) (req_Now r))
      (case CommonService_Register (e_hash e) (e_db e) u (os_db o') of (x, s) \<Rightarrow> (Returns x, s))
      (handle_Register LW (e_parse_time e) (e_http_date e) (authService e ?r)
        (NewCommonService (e_compare e) (e_hash e) (e_db e)) ?r (new_logged, os_db o'))"
    using logged.plain.Login_seen(2) [of new_logged ?r b "e_parse_time e" u "e_http_date e" "authService e r"
        "NewCommonService (e_compare e) (e_hash e) (e_db e)" "os_db o'"] assms(1-3) auth
    by (simp add: NewCommonService_def)
  from serve_answers [OF on_db_answers [where r = ?r and hd' = "\<lambda>r. handle_Register LW (e_parse_time e) (e_http_date e)
      (authService e r) (NewCommonService (e_compare e) (e_hash e) (e_db e)) r", OF this]] show ?thesis
    using assms(4) by (auto simp: serve_route [OF login_routes(2)] split: prod.splits)
qed

lemma common_status_simps [simp]:
  "common_status (UserErr x) = (case x of ErrUserWrongLoginLength \<Rightarrow> 400 | ErrUserWrongPasswordLength \<Rightarrow> 400
     | ErrUserNotFound \<Rightarrow> 401 | ErrWrongPassword \<Rightarrow> 401 | ErrUserExists \<Rightarrow> 409 | ErrUserBalanceIsNotEnough \<Rightarrow> 500)"
  "common_status (DriverErr d) = 500" "common_status ErrBcrypt = 500"
  by (cases x) (simp_all add: common_status_def)

lemma User_Validate_status: "User_Validate u = Some err \<Longrightarrow> common_status err = 400"
  by (auto simp: User_Validate_def split: if_splits)

text \<open>The claims in the token that \<open>issue_token\<close> signs.\<close>

definition token_claims :: "user \<Rightarrow> time \<Rightarrow> claims" where
  "token_claims u tm = \<lparr>cl_UserID = user_ID u, cl_Login = user_Login u, cl_ExpiresAt = tm + TokenExpiration, cl_IssuedAt = tm\<rparr>"

definition token_cookie :: "('s, 'z) env \<Rightarrow> string \<Rightarrow> time \<Rightarrow> string" where
  "token_cookie e tok tm = cookie_String (e_http_date e) (auth_cookie tok (tm + TokenExpiration))"

lemma login_reply_ok:
  "login_reply (e_http_date e) (authService e r) (req_Now r) (None, u) =
    (case e_SignedString e (token_claims u (req_Now r)) of Inl err \<Rightarrow> status_only 500
     | Inr tok \<Rightarrow> (200, Header_Add ''Set-Cookie'' (token_cookie e tok (req_Now r)), []))"
  by (simp add: login_reply_def authService_def GenerateToken_def token_claims_def token_cookie_def split: sum.split)

lemma login_reply_err: "login_reply hd' auth tm (Some err, u) = status_only (common_status err)"
  by (simp add: login_reply_def)

text \<open>C16. \<open>POST /api/user/login\<close> changes no user. It answers 200 only for a stored login with its
password, and then the cookie's token names the identifier that came in the request document, not the
stored one; 401 means that there is no such login or the password is wrong; 400 exactly that login or
password are too short; anything else is 500.\<close>
theorem Login_endpoint:
  assumes "e_db e = NewSQLStorage" "healthy (os_db o')"
    and "Header_Get ContentType (req_Header r) = AppJSONContentType" "req_Body r = Inr b"
    and "FromJSON_User (e_parse_time e) b = Inr u"
    and "serve e ''POST'' ''/api/user/login'' r o' = Some (Returns (), resp, t)"
  shows "healthy (os_db t) \<and> stored_user (os_db t) = stored_user (os_db o') \<and>
    rsp_Status resp \<in> {200, 400, 401, 500} \<and> (rsp_Status resp = 400 \<longleftrightarrow> User_Validate u \<noteq> None) \<and>
    (rsp_Status resp = 200 \<longrightarrow> (\<exists>i h tok. stored_user (os_db o') (user_Login u) = Some (i, h) \<and>
       e_compare e h (user_Password u) \<and> e_SignedString e (token_claims u (req_Now r)) = Inr tok \<and>
       rsp_Header resp ''Set-Cookie'' = [token_cookie e tok (req_Now r)])) \<and>
    (rsp_Status resp = 401 \<longrightarrow> stored_user (os_db o') (user_Login u) = None \<or>
       (\<exists>i h. stored_user (os_db o') (user_Login u) = Some (i, h) \<and> \<not> e_compare e h (user_Password u)))"
proof -
  obtain x where x: "CommonService_Login (e_compare e) NewSQLStorage u (os_db o') = (x, os_db t)"
    "resp = as_seen (\<lambda>k. []) (login_reply (e_http_date e) (authService e r) (req_Now r) (x, u))"
    using serve_Login [OF assms(3-6)] assms(1) by auto
  note l = sql_users.Login_answers [OF assms(2) x(1)]
  show ?thesis
  proof (cases "User_Validate u")
    case (Some err)
    then have "x = Some err" using x(1) by (simp add: CommonService_Login_def)
    then show ?thesis
      using l(1,2) x(2) Some User_Validate_status [OF Some] by (simp add: as_seen_def login_reply_def status_only_def)
  next
    case None
    from l(6) [OF None] consider "x = None" | "x = Some (UserErr ErrWrongPassword)" | "x = Some (UserErr ErrUserNotFound)"
      | d where "x = Some (DriverErr d)" by auto
    then show ?thesis
      using l(1-5) x(2) None
      by cases (auto simp: as_seen_def login_reply_ok login_reply_err status_only_def Header_Add_def split: sum.splits)
  qed
qed

text \<open>C17. \<open>POST /api/user/register\<close> answers 200 only when the login was free and is now stored with the
hash of the password, and then the cookie's token names the new user; 409 only when the login was
taken, and then nothing changed; 400 exactly when login or password are too short; else 500.\<close>
theorem Register_endpoint:
  assumes "e_db e = NewSQLStorage" "healthy (os_db o')" "\<forall>p err. e_hash e p = Inl err \<longrightarrow> err = ErrBcrypt"
    and "Header_Get ContentType (req_Header r) = AppJSONContentType" "req_Body r = Inr b"
    and "FromJSON_User (e_parse_time e) b = Inr u"
    and "serve e ''POST'' ''/api/user/register'' r o' = Some (Returns (), resp, t)"
  shows "healthy (os_db t) \<and> rsp_Status resp \<in> {200, 400, 409, 500} \<and>
    (rsp_Status resp = 400 \<longleftrightarrow> User_Validate u \<noteq> None) \<and>
    (rsp_Status resp = 200 \<longrightarrow> (\<exists>u' h tok. e_hash e (user_Password u) = Inr h \<and>
       stored_user (os_db o') (user_Login u) = None \<and>
       stored_user (os_db t) = (stored_user (os_db o'))(user_Login u \<mapsto> (user_ID u', h)) \<and>
       user_Login u' = user_Login u \<and> e_SignedString e (token_claims u' (req_Now r)) = Inr tok \<and>
       rsp_Header resp ''Set-Cookie'' = [token_cookie e tok (req_Now r)])) \<and>
    (rsp_Status resp = 409 \<longrightarrow> stored_user (os_db o') (user_Login u) \<noteq> None \<and>
       stored_user (os_db t) = stored_user (os_db o'))"
proof -
  obtain x u' where x: "CommonService_Register (e_hash e) NewSQLStorage u (os_db o') = ((x, u'), os_db t)"
    "resp = as_seen (\<lambda>k. []) (login_reply (e_http_date e) (authService e r) (req_Now r) (x, u'))"
    using serve_Register [OF assms(4-7)] assms(1) by fastforce
  have h: "user_Hash u = []"
    using assms(6) by (auto simp: FromJSON_User_def zero_user_def split: option.splits)
  have l: "healthy (os_db t)"
    "x = None \<Longrightarrow> \<exists>h. e_hash e (user_Password u) = Inr h \<and> stored_user (os_db o') (user_Login u) = None \<and>
      stored_user (os_db t) = (stored_user (os_db o'))(user_Login u \<mapsto> (user_ID u', h)) \<and> user_Login u' = user_Login u"
    "x = Some (UserErr ErrUserExists) \<Longrightarrow> stored_user (os_db o') (user_Login u) \<noteq> None \<and>
      stored_user (os_db t) = stored_user (os_db o')"
    "x \<in> {None, Some (UserErr ErrUserExists), Some ErrBcrypt} \<or> x = User_Validate u \<or> (\<exists>d. x = Some (DriverErr d))"
    "User_Validate u \<noteq> None \<Longrightarrow> x = User_Validate u"
    using sql_users.Register_answers [OF assms(2) x(1) h assms(3)] by blast+
  show ?thesis
  proof (cases "User_Validate u")
    case (Some err)
    then have "x = Some err" using l(5) by simp
    then show ?thesis
      using l(1) x(2) Some User_Validate_status [OF Some] by (simp add: as_seen_def login_reply_def status_only_def)
  next
    case None
    with l(4) x(1) consider "x = None" | "x = Some (UserErr ErrUserExists)" | "x = Some ErrBcrypt"
      | d where "x = Some (DriverErr d)" by auto
    then show ?thesis
      using l(1-3) x(2) None
      by cases (auto simp: as_seen_def login_reply_ok login_reply_err status_only_def Header_Add_def split: sum.splits)
  qed
qed

section \<open>Witnesses\<close>

definition user_document :: "string \<Rightarrow> string \<Rightarrow> string \<Rightarrow> string" where
  "user_document i l p = json_text (JObj [(''id'', JStr i), (''login'', JStr l), (''password'', JStr p)])"

lemma user_document_read:
  assumes "valid_utf8 i" "valid_utf8 l" "valid_utf8 p"
  shows "FromJSON_User pt (user_document i l p) = Inr (zero_user\<lparr>user_ID := i, user_Login := l, user_Password := p\<rparr>)"
proof -
  have "scan (user_document i l p) = Some (JObj [(''id'', JStr i), (''login'', JStr l), (''password'', JStr p)])"
    unfolding user_document_def using assms by (intro scan_text) (simp add: utf8_len_ascii)
  moreover have "map to_lower ''id'' = ''id''" "map to_lower ''login'' = ''login''" "map to_lower ''password'' = ''password''"
    "map to_lower ''version'' = ''version''" "map to_lower ''created'' = ''created''"
    by (simp_all add: to_lower_def)
  ultimately show ?thesis by (simp add: FromJSON_User_def member_of_def zero_user_def)
qed

lemma demo_document_read:
  "FromJSON_User pt (user_document ''boss'' ''anna'' ''password'') =
     Inr (zero_user\<lparr>user_ID := ''boss'', user_Login := ''anna'', user_Password := ''password''\<rparr>)"
  by (rule user_document_read) (simp_all add: utf8_len_ascii)

lemma demo_env_login [simp]:
  "e_compare demo_env h p \<longleftrightarrow> h = ''hash'' \<and> p = ''password''" "e_hash demo_env = Inr"
  "e_SignedString demo_env c = Inr (cl_UserID c)"
  by (simp_all add: demo_env_def)

text \<open>Anna logs in and gets a token for the identifier she asked for.\<close>

lemma Login_endpoint_witness:
  "\<exists>resp t. serve demo_env ''POST'' ''/api/user/login''
      (demo_request AppJSONContentType (user_document ''boss'' ''anna'' ''password'') [])
      (demo_orders (perform (CallAddUser demo_user) demo_server)) = Some (Returns (), resp, t) \<and>
    rsp_Status resp = 200 \<and> rsp_Header resp ''Set-Cookie'' = [token_cookie demo_env ''boss'' 0] \<and>
    stored_user (os_db t) ''anna'' = Some (''u'', ''hash'')"
proof -
  let ?r = "demo_request AppJSONContentType (user_document ''boss'' ''anna'' ''password'') []"
  let ?o = "demo_orders (perform (CallAddUser demo_user) demo_server)"
  let ?u = "zero_user\<lparr>user_ID := ''boss'', user_Login := ''anna'', user_Password := ''password''\<rparr>"
  obtain res resp t where s: "serve demo_env ''POST'' ''/api/user/login'' ?r ?o = Some (res, resp, t)"
    using serve_some [OF login_routes(1)] by blast
  have c: "fst (CommonService_Login (e_compare demo_env) NewSQLStorage ?u (os_db ?o)) = None"
    unfolding demo_registered
    by (simp add: CommonService_Login_def User_Validate_def MinLoginLength_def MinPasswordLength_def
        NewSQLStorage_def GetUser_def withRetry_def select_user_def RetryingAttempts_def numeral_3_eq_3 run_stmt_def
        pop_fault_def QuerySelectUserByLogin_def first_row_def scan_user_def demo_orders_def demo_defs in_int64_def)
  have h: "healthy (os_db ?o)" using healthy_demo_registered by (simp add: demo_orders_def del: perform.simps)
  have st: "stored_user (os_db ?o) ''anna'' = Some (''u'', ''hash'')"
    unfolding demo_registered by (simp add: stored_user_def demo_orders_def)
  have a: "res = Returns ()" "rsp_Status resp = 200"
    using serve_Login [OF _ _ demo_document_read s] c
    by (auto simp: as_seen_def login_reply_def authService_def GenerateToken_def)
  show ?thesis
    using Login_endpoint [where e = demo_env and r = ?r and resp = resp and t = t, OF _ h _ _ demo_document_read] s a st
    by (auto simp: token_claims_def simp del: perform.simps)
qed

lemma Register_endpoint_witness:
  "\<exists>resp t. serve demo_env ''POST'' ''/api/user/register''
      (demo_request AppJSONContentType (user_document ''boss'' ''anna'' ''password'') [])
      (demo_orders demo_server) = Some (Returns (), resp, t) \<and>
    rsp_Status resp = 200 \<and> stored_user (os_db t) ''anna'' \<noteq> None"
proof -
  let ?r = "demo_request AppJSONContentType (user_document ''boss'' ''anna'' ''password'') []"
  let ?o = "demo_orders demo_server"
  let ?u = "zero_user\<lparr>user_ID := ''boss'', user_Login := ''anna'', user_Password := ''password''\<rparr>"
  obtain res resp t where s: "serve demo_env ''POST'' ''/api/user/register'' ?r ?o = Some (res, resp, t)"
    using serve_some [OF login_routes(2)] by blast
  have c: "fst (fst (CommonService_Register (e_hash demo_env) NewSQLStorage ?u (os_db ?o))) = None"
    by (simp add: CommonService_Register_def fillUserIfRequired_def User_Validate_def MinLoginLength_def
        MinPasswordLength_def NewSQLStorage_def run_defs demo_orders_def demo_defs)
  have h: "healthy (os_db ?o)" using healthy_demo_empty by (simp add: demo_orders_def)
  have a: "res = Returns ()" "rsp_Status resp = 200"
    using serve_Register [OF _ _ demo_document_read s] c
    by (auto simp: as_seen_def login_reply_def authService_def GenerateToken_def)
  show ?thesis
    using Register_endpoint [where e = demo_env and r = ?r and resp = resp and t = t, OF _ h _ _ _ demo_document_read] s a by auto
qed

end
