(* ===== verification/Documents.thy ===== *)
theory Documents
  imports Tokens
begin

text \<open>
  What comes out of the endpoints that list and show: the documents can be read back to the values they
  were made of, and a client that asks for compression gets the same response as one that does not.
\<close>

section \<open>The balance\<close>

definition balance_read :: "string \<Rightarrow> Accrual \<Rightarrow> Accrual \<Rightarrow> bool" where
  "balance_read b cur wd \<longleftrightarrow> (\<exists>ks. scan b = Some (JObj ks) \<and>
     decode_accrual 0 (member_of ''current'' ks) = Some cur \<and> decode_accrual 0 (member_of ''withdrawn'' ks) = Some wd)"

lemma Balance_ToJSON_read:
  assumes "Balance_ToJSON bal = Some b" "\<bar>sint (bal_Balance bal)\<bar> \<le> 2 ^ 50" "\<bar>sint (bal_Withdrawn bal)\<bar> \<le> 2 ^ 50"
  shows "balance_read b (bal_Balance bal) (bal_Withdrawn bal)"
proof -
  let ?ks = "[(''current'', JNum (MarshalJSON (bal_Balance bal))), (''withdrawn'', JNum (MarshalJSON (bal_Withdrawn bal)))]"
  have "b = json_text (JObj ?ks)" "json_ok 1 (JObj ?ks)"
    using assms(1) by (auto simp: Balance_ToJSON_def balance_json_def utf8_len_ascii dest!: accrual_json_eq split: option.splits)
  then have "scan b = Some (JObj ?ks)" using scan_shallow by blast
  then show ?thesis
    using accrual_read [OF assms(2)] accrual_read [OF assms(3)]
    by (simp add: balance_read_def member_of_def to_lower_def del: Accrual_UnmarshalJSON.simps)
qed

lemma balance_shown:
  assumes "e_db e = NewSQLStorage" "healthy (os_db o')" "token_of e r = Some c"
    and "uuid_in (os_db o') (cl_UserID c) = Some uid"
    and "\<bar>points_of (os_db o') uid\<bar> \<le> 2 ^ 50" "\<bar>spent_by (os_db o') uid\<bar> \<le> 2 ^ 50"
    and "serve e ''GET'' ''/api/user/balance'' r o' = Some (Returns (), resp, t)" "rsp_Status resp = 200"
  shows "points_of (os_db t) = points_of (os_db o') \<and> spent_by (os_db t) = spent_by (os_db o') \<and>
    (\<exists>cur wd. balance_read (rsp_Body resp) cur wd \<and> sint cur = points_of (os_db o') uid \<and> sint wd = spent_by (os_db o') uid)"
proof -
  obtain x where x: "GetBalanceInfo NewSQLStorage (Some c) (os_db o') = (Returns x, os_db t)"
    "resp = as_seen (\<lambda>k. []) (balance_reply x)"
    using serve_GetLoyalityBalance [OF assms(3,7)] assms(1)
    by (cases "GetBalanceInfo NewSQLStorage (Some c) (os_db o')") (auto split: outcome.splits)
  have never: "balance_status err \<noteq> 200" for err by (simp add: balance_status_def)
  obtain bal b where b: "x = Inr bal" "Balance_ToJSON bal = Some b" "rsp_Body resp = b"
    using x(2) assms(8) never
    by (cases x) (auto simp: balance_reply_def as_seen_def status_only_def json_reply_def typed_def split: option.splits)
  note answers = sql_balances.GetBalanceInfo_answers(2) [OF assms(2) x(1) b(1)]
  then have v: "sint (bal_Balance bal) = points_of (os_db o') uid" "sint (bal_Withdrawn bal) = spent_by (os_db o') uid"
    using assms(4) by auto
  have "balance_read b (bal_Balance bal) (bal_Withdrawn bal)"
    using Balance_ToJSON_read [OF b(2)] assms(5,6) v by simp
  then show ?thesis using answers v b(3) by blast
qed

text \<open>C25. When \<open>GET /api/user/balance\<close> answers 200, the document can be read and shows exactly the
points the token's user has and has spent (up to 2^50 kopecks each); nothing is changed.\<close>
theorem Balance_endpoint:
  assumes "e_db e = NewSQLStorage" "healthy (os_db o')" "token_of e r = Some c"
    and "uuid_in (os_db o') (cl_UserID c) = Some uid"
    and "\<bar>points_of (os_db o') uid\<bar> \<le> 2 ^ 50" "\<bar>spent_by (os_db o') uid\<bar> \<le> 2 ^ 50"
    and "serve e ''GET'' ''/api/user/balance'' r o' = Some (Returns (), resp, t)" "rsp_Status resp = 200"
  shows "points_of (os_db t) = points_of (os_db o') \<and> spent_by (os_db t) = spent_by (os_db o') \<and>
    (\<exists>cur wd. balance_read (rsp_Body resp) cur wd \<and> sint cur = points_of (os_db o') uid \<and> sint wd = spent_by (os_db o') uid)"
  by (rule balance_shown [OF assms])

lemma Balance_endpoint_witness:
  "\<exists>resp t cur wd. serve demo_env ''GET'' ''/api/user/balance'' (demo_request [] [] ''good'') (demo_orders (demo_credited 500))
      = Some (Returns (), resp, t) \<and> balance_read (rsp_Body resp) cur wd \<and> sint cur = 500 \<and> sint wd = 0"
proof -
  let ?r = "demo_request [] [] ''good''" and ?o = "demo_orders (demo_credited 500)"
  obtain res resp t where s: "serve demo_env ''GET'' ''/api/user/balance'' ?r ?o = Some (res, resp, t)"
    using serve_some [OF routes(2)] by blast
  note b = demo_balance
  have "Balance_ToJSON (NewBalanceItem 500 0) \<noteq> None"
    using MarshalJSON_number [of 500] MarshalJSON_number [of 0]
    by (simp add: Balance_ToJSON_def balance_json_def NewBalanceItem_def accrual_json_def)
  then have a: "res = Returns ()" "rsp_Status resp = 200"
    using serve_GetLoyalityBalance [OF _ s, of demo_claims] b
    by (auto simp: demo_orders_def as_seen_def balance_reply_def json_reply_def typed_def)
  have h: "healthy (os_db ?o)" using healthy_demo_credited by (simp add: demo_orders_def)
  have u: "uuid_in (demo_credited 500) ''u'' = Some ''u''" "points_of (demo_credited 500) ''u'' = 500"
    "spent_by (demo_credited 500) ''u'' = 0"
    unfolding demo_credited_500
    by (simp_all add: demo_server_def points_of_def balance_of_def spent_by_def withdrawn_sum_def)
  show ?thesis
    using Balance_endpoint [OF _ h _ _ _ _ _ a(2), of demo_env ?r demo_claims "''u''" t] s a u
    by (simp add: demo_orders_def demo_claims_def)
qed

section \<open>Compression\<close>

lemma list_routes:
  "route e rw ''GET'' ''/api/user/orders'' = Some (protected e rw (compressed e rw
     (handle_ListOrders rw (e_time_text e) (NewOrderService (e_db e)))
     (handle_ListOrders (GzipResponse rw (e_gzip e)) (e_time_text e) (NewOrderService (e_db e)))))"
  "route e rw ''GET'' ''/api/user/withdrawals'' = Some (protected e rw (compressed e rw
     (on_db (handle_ListWithdrawals rw (e_time_text e) (NewBalanceService (e_db e))))
     (on_db (handle_ListWithdrawals (GzipResponse rw (e_gzip e)) (e_time_text e) (NewBalanceService (e_db e))))))"
  by (simp_all add: route_def Let_def)

text \<open>A client that accepts gzip and one that does not see the same, if the handler answers alike on both writers.\<close>

lemma compressed_seen:
  fixes e :: "('s, 'z) env" and hz :: "((http_writer loggingResponseWriter, 'z) GzipWriter, 'x) handler"
  assumes "gzip_inverse (e_gzip e) gunzip" "Header_Get ContentEncoding (req_Header r) = []"
    and "answers logged.seen (\<lambda>k. []) f served (h r (new_logged, s))"
    and "\<And>g :: (http_writer loggingResponseWriter, 'z) GzipWriter. logged.gz_fresh g \<Longrightarrow> hw_handlerHeader (lw_ResponseWriter (gz_ResponseWriter g)) = (\<lambda>k. []) \<Longrightarrow>
      answers (logged.gz_seen (e_gzip e) gunzip) (\<lambda>k. []) f served (hz r (g, s))"
    and "\<And>x. rsp_Header (as_seen (\<lambda>k. []) (f x)) ContentEncoding = []"
    and "compressed e LW h hz r (new_logged, s) = (res, l, t)"
  shows "t = snd served \<and> (case fst served of Panics p \<Rightarrow> res = Panics p
    | Returns x \<Rightarrow> res = Returns () \<and> decoded gunzip (logged.seen l) = as_seen (\<lambda>k. []) (f x) \<and>
        (contains ''gzip'' (Header_Get ''Accept-Encoding'' (req_Header r)) \<or> logged.seen l = decoded gunzip (logged.seen l)))"
proof (cases "contains ''gzip'' (Header_Get ''Accept-Encoding'' (req_Header r))")
  case False
  then have "h r (new_logged, s) = (res, l, t)"
    using assms(2,6) by (simp add: compressed_def Compression_def Let_def)
  then show ?thesis
    using assms(3,5) by (cases served) (auto simp: answers_def decoded_def split: outcome.splits)
next
  case True
  define g :: "(http_writer loggingResponseWriter, 'z) GzipWriter" where
    "g = NewGzipWriter new_logged (e_CompressionThreshold e)"
  obtain res' g' t' where hz: "hz r (g, s) = (res', g', t')" by (cases "hz r (g, s)") auto
  have out: "res = res'" "t = t'" "l = gz_ResponseWriter (gz_Close LW (e_gzip e) g')"
    using assms(2,6) True hz by (simp_all add: compressed_def Compression_def Let_def g_def)
  have "logged.gz_fresh g" unfolding g_def by (rule logged.gz_fresh_new) simp_all
  then have "answers (logged.gz_seen (e_gzip e) gunzip) (\<lambda>k. []) f served (res', g', t')"
    using assms(4) [of g] hz by (simp add: g_def NewGzipWriter_def)
  then show ?thesis
    using True by (auto simp: answers_def logged.gz_seen_def out split: outcome.splits)
qed

lemma serve_with_tokenE:
  fixes o' :: "('s, 'c) OrderService" and h :: "(_, ('s, 'c) OrderService) handler"
  assumes "route e LW m p = Some (protected e LW h)" "token_of e r = Some c" "serve e m p r o' = Some (res, resp, t)"
  obtains l where "h (r\<lparr>req_Logger := True, req_Claims := Some c\<rparr>) (new_logged, o') = (res, l, t)" "resp = logged.seen l"
  using assms(3) unfolding serve_with_token [OF assms(1,2)]
  by (cases "h (r\<lparr>req_Logger := True, req_Claims := Some c\<rparr>) (new_logged, o')") simp

lemma replies_uncompressed:
  "rsp_Header (as_seen (\<lambda>k. []) (list_orders_reply tt x)) ContentEncoding = []"
  "rsp_Header (as_seen (\<lambda>k. []) (list_withdrawals_reply tt y)) ContentEncoding = []"
  by (auto simp: reply_defs Header_Set_def split: sum.split option.split list.split)

lemma on_gzip:
  assumes "gzip_inverse deflate gunzip" "logged.gz_fresh g"
    and "hw_handlerHeader (lw_ResponseWriter (gz_ResponseWriter g)) = (\<lambda>k. [])" "req_Logger r"
  shows "answers (logged.gz_seen deflate gunzip) (\<lambda>k. []) (list_orders_reply tt) (ors_List svc (req_Claims r) s)
      (handle_ListOrders (GzipResponse LW deflate) tt svc r (g, s))"
    and "answers (logged.gz_seen deflate gunzip) (\<lambda>k. []) (list_withdrawals_reply tt) (bls_ListWithdrawals bsvc (req_Claims r) s')
      (handle_ListWithdrawals (GzipResponse LW deflate) tt bsvc r (g, s'))"
proof -
  have rw: "response_writer (GzipResponse LW deflate) (insert ContentEncoding {ContentLength}) logged.gz_fresh
      ((hw_handlerHeader \<circ> lw_ResponseWriter) \<circ> gz_ResponseWriter) (logged.gz_seen deflate gunzip)"
    using logged.compressing [OF _ assms(1)] by simp
  show "answers (logged.gz_seen deflate gunzip) (\<lambda>k. []) (list_orders_reply tt) (ors_List svc (req_Claims r) s)
      (handle_ListOrders (GzipResponse LW deflate) tt svc r (g, s))"
    using response_writer.ListOrders_seen [OF rw assms(2,4), of tt svc s] assms(3) by (simp add: comp_def)
  show "answers (logged.gz_seen deflate gunzip) (\<lambda>k. []) (list_withdrawals_reply tt) (bls_ListWithdrawals bsvc (req_Claims r) s')
      (handle_ListWithdrawals (GzipResponse LW deflate) tt bsvc r (g, s'))"
    using response_writer.ListWithdrawals_seen [OF rw assms(2,4), of tt bsvc s'] assms(3) by (simp add: comp_def)
qed

text \<open>What the two listing endpoints answer, compression undone.\<close>

lemma serve_ListOrders:
  assumes "gzip_inverse (e_gzip e) gunzip" "Header_Get ContentEncoding (req_Header r) = []" "token_of e r = Some c"
    and "serve e ''GET'' ''/api/user/orders'' r o' = Some (res, resp, t)"
  shows "t = snd (ors_List (NewOrderService (e_db e)) (Some c) o') \<and>
    (case fst (ors_List (NewOrderService (e_db e)) (Some c) o') of Panics p \<Rightarrow> res = Panics p
     | Returns x \<Rightarrow> res = Returns () \<and> decoded gunzip resp = as_seen (\<lambda>k. []) (list_orders_reply (e_time_text e) x) \<and>
        (contains ''gzip'' (Header_Get ''Accept-Encoding'' (req_Header r)) \<or> resp = decoded gunzip resp))"
proof -
  let ?r = "r\<lparr>req_Logger := True, req_Claims := Some c\<rparr>" and ?svc = "NewOrderService (e_db e)"
  obtain l where l: "compressed e LW (handle_ListOrders LW (e_time_text e) ?svc)
      (handle_ListOrders (GzipResponse LW (e_gzip e)) (e_time_text e) ?svc) ?r (new_logged, o') = (res, l, t)"
    "resp = logged.seen l"
    by (rule serve_with_tokenE [OF list_routes(1) assms(3,4)])
  have plain: "answers logged.seen (\<lambda>k. []) (list_orders_reply (e_time_text e)) (ors_List ?svc (Some c) o')
      (handle_ListOrders LW (e_time_text e) ?svc ?r (new_logged, o'))"
    using logged.plain.ListOrders_seen [of new_logged ?r "e_time_text e" ?svc o'] by simp
  have gz: "answers (logged.gz_seen (e_gzip e) gunzip) (\<lambda>k. []) (list_orders_reply (e_time_text e)) (ors_List ?svc (Some c) o')
      (handle_ListOrders (GzipResponse LW (e_gzip e)) (e_time_text e) ?svc ?r (g, o'))"
    if "logged.gz_fresh g" "hw_handlerHeader (lw_ResponseWriter (gz_ResponseWriter g)) = (\<lambda>k. [])" for g
    using on_gzip(1) [OF assms(1) that, of ?r "e_time_text e" ?svc o'] by simp
  have "Header_Get ContentEncoding (req_Header ?r) = []" "req_Header ?r = req_Header r" using assms(2) by simp_all
  from compressed_seen [OF assms(1) this(1) plain gz replies_uncompressed(1) l(1)] this(2) show ?thesis
    unfolding l(2) by (simp only:)
qed









lemma serve_ListWithdrawals:
  assumes "gzip_inverse (e_gzip e) gunzip" "Header_Get ContentEncoding (req_Header r) = []" "token_of e r = Some c"
    and "serve e ''GET'' ''/api/user/withdrawals'' r o' = Some (res, resp, t)"
  defines "served \<equiv> case bls_ListWithdrawals (NewBalanceService (e_db e)) (Some c) (os_db o') of (x, s) \<Rightarrow> (x, o'\<lparr>os_db := s\<rparr>)"
  shows "t = snd served \<and> (case fst served of Panics p \<Rightarrow> res = Panics p
     | Returns x \<Rightarrow> res = Returns () \<and> decoded gunzip resp = as_seen (\<lambda>k. []) (list_withdrawals_reply (e_time_text e) x) \<and>
        (contains ''gzip'' (Header_Get ''Accept-Encoding'' (req_Header r)) \<or> resp = decoded gunzip resp))"
proof -
  let ?r = "r\<lparr>req_Logger := True, req_Claims := Some c\<rparr>" and ?svc = "NewBalanceService (e_db e)"
  let ?h = "\<lambda>rw. handle_ListWithdrawals rw (e_time_text e) ?svc"
  obtain l where l: "compressed e LW (on_db (?h LW))
      (on_db (handle_ListWithdrawals (GzipResponse LW (e_gzip e)) (e_time_text e) ?svc)) ?r (new_logged, o') = (res, l, t)"
    "resp = logged.seen l"
    by (rule serve_with_tokenE [OF list_routes(2) assms(3,4)])
  have plain: "answers logged.seen (\<lambda>k. []) (list_withdrawals_reply (e_time_text e)) served (on_db (?h LW) ?r (new_logged, o'))"
    using logged.plain.ListWithdrawals_seen [of new_logged ?r "e_time_text e" ?svc "os_db o'"]
    unfolding served_def by (intro on_db_answers) simp
  have gz: "answers (logged.gz_seen (e_gzip e) gunzip) (\<lambda>k. []) (list_withdrawals_reply (e_time_text e)) served
      (on_db (handle_ListWithdrawals (GzipResponse LW (e_gzip e)) (e_time_text e) ?svc) ?r (g, o'))"
    if "logged.gz_fresh g" "hw_handlerHeader (lw_ResponseWriter (gz_ResponseWriter g)) = (\<lambda>k. [])" for g
    using on_gzip(2) [OF assms(1) that, of ?r "e_time_text e" ?svc "os_db o'"]
    unfolding served_def by (intro on_db_answers) simp
  have "Header_Get ContentEncoding (req_Header ?r) = []" "req_Header ?r = req_Header r" using assms(2) by simp_all
  from compressed_seen [OF assms(1) this(1) plain gz replies_uncompressed(2) l(1)] this(2) show ?thesis
    unfolding l(2) by (simp only:)
qed

text \<open>C23. On the two listing endpoints a client that offers gzip and undoes it gets the same status,
headers and body as a client that does not offer it, and leaves the same state, whatever the
compression threshold is.\<close>
theorem compression_transparent:
  assumes "gzip_inverse (e_gzip e) gunzip" "path \<in> {''/api/user/orders'', ''/api/user/withdrawals''}"
    and "Header_Get ContentEncoding (req_Header r) = []" "token_of e r = Some c"
    and "Header_Get ContentEncoding (req_Header r') = []" "token_of e r' = Some c"
    and "\<not> contains ''gzip'' (Header_Get ''Accept-Encoding'' (req_Header r'))"
    and "serve e ''GET'' path r o' = Some (res, resp, t)" "serve e ''GET'' path r' o' = Some (res', resp', t')"
  shows "res = res' \<and> t = t' \<and> (res = Returns () \<longrightarrow> decoded gunzip resp = resp')"
  using assms(2)
proof (elim insertE emptyE)
  assume p: "path = ''/api/user/orders''"
  note a = serve_ListOrders [OF assms(1,3,4) assms(8) [unfolded p]]
    and b = serve_ListOrders [OF assms(1,5,6) assms(9) [unfolded p]]
  show ?thesis
  proof (cases "fst (ors_List (NewOrderService (e_db e)) (Some c) o')")
    case (Returns x)
    then show ?thesis using a b assms(7) by simp metis
  next
    case (Panics x)
    then show ?thesis using a b by simp
  qed
next
  assume p: "path = ''/api/user/withdrawals''"
  note a = serve_ListWithdrawals [OF assms(1,3,4) assms(8) [unfolded p]]
    and b = serve_ListWithdrawals [OF assms(1,5,6) assms(9) [unfolded p]]
  show ?thesis
  proof (cases "fst (case bls_ListWithdrawals (NewBalanceService (e_db e)) (Some c) (os_db o') of (x, s) \<Rightarrow> (x, o'\<lparr>os_db := s\<rparr>))")
    case (Returns x)
    then show ?thesis using a b assms(7) by simp metis
  next
    case (Panics x)
    then show ?thesis using a b by simp
  qed
qed

definition accepting_gzip :: "go_request \<Rightarrow> go_request" where
  "accepting_gzip r = r\<lparr>req_Header := (req_Header r)(''Accept-Encoding'' := [''gzip''])\<rparr>"

lemma compression_transparent_witness:
  "\<exists>res resp t resp'. serve demo_env ''GET'' ''/api/user/orders'' (accepting_gzip (demo_request [] [] ''good''))
      (demo_orders (demo_credited 500)) = Some (res, resp, t) \<and>
    serve demo_env ''GET'' ''/api/user/orders'' (demo_request [] [] ''good'') (demo_orders (demo_credited 500)) = Some (res, resp', t) \<and>
    (res = Returns () \<longrightarrow> decoded Some resp = resp')"
proof -
  let ?r' = "demo_request [] [] ''good''" and ?o = "demo_orders (demo_credited 500)"
  let ?r = "accepting_gzip ?r'"
  have z: "z_run demo_gzip bs () = bs" for bs by (induction bs) (simp_all add: demo_gzip_def)
  have g: "gzip_inverse (e_gzip demo_env) Some"
    using z by (simp add: gzip_inverse_def demo_env_def demo_gzip_def)
  have tok: "token_of demo_env ?r = Some demo_claims"
    by (simp add: token_of_def accepting_gzip_def demo_env_def demo_request_def request_Cookie_def)
  have h: "Header_Get ContentEncoding (req_Header ?r) = []" "Header_Get ContentEncoding (req_Header ?r') = []"
    "\<not> contains ''gzip'' (Header_Get ''Accept-Encoding'' (req_Header ?r'))"
    by (simp_all add: accepting_gzip_def demo_request_def Header_Get_def)
  obtain res resp t where s: "serve demo_env ''GET'' ''/api/user/orders'' ?r ?o = Some (res, resp, t)"
    using serve_some [OF list_routes(1)] by blast
  obtain res' resp' t' where s': "serve demo_env ''GET'' ''/api/user/orders'' ?r' ?o = Some (res', resp', t')"
    using serve_some [OF list_routes(1)] by blast
  show ?thesis
    using compression_transparent [OF g _ h(1) tok h(2) demo_token(1) h(3) s s'] s s' by auto
qed


end
