(* ===== verification/AccrualClient.thy ===== *)
theory AccrualClient
  imports Models JsonText
begin

text \<open>
  The client of the accrual service, \<open>internal/clients\<close>: the request with its retries, the reading of
  the answers, the signal that the service is busy. The HTTP library and its timer are arguments
  that work on a state \<open>'c\<close>; so is the check of a URL.
\<close>

section \<open>The code\<close>

definition client_RetryingAttempts :: nat where "client_RetryingAttempts = 3"
definition client_RetryingDelay :: go_int where "client_RetryingDelay = 100000"
definition client_RetryingDelayStep :: go_int where "client_RetryingDelayStep = 200000"
definition DefaultDelay :: go_int where "DefaultDelay = 10"
definition time_Second :: go_int where "time_Second = 1000000000"

record http_request =
  rq_URL :: string
  rq_RequestID :: string
  rq_Accept :: string

text \<open>A response; reading its body may fail.\<close>

record http_response =
  rs_StatusCode :: go_int
  rs_Status :: string
  rs_RetryAfter :: string
  rs_Body :: "go_error + string"

fun do_loop ::
  "(http_request \<Rightarrow> 'c \<Rightarrow> (go_error + http_response) \<times> 'c) \<Rightarrow>
   (go_int \<Rightarrow> 'c \<Rightarrow> go_error option \<times> 'c) \<Rightarrow> http_request \<Rightarrow> nat \<Rightarrow> go_int \<Rightarrow> 'c \<Rightarrow>
   (go_error + http_response) \<times> 'c" where
  "do_loop Do wait req 0 delay c = (Inl (ErrorString ''no response''), c)"
| "do_loop Do wait req (Suc attempts) delay c =
     (case Do req c of
        (Inr response, c) \<Rightarrow> (Inr response, c)
      | (Inl err, c) \<Rightarrow>
          if attempts = 0 then (Inl err, c)
          else (case wait delay c of
                  (Some e, c) \<Rightarrow> (Inl e, c)
                | (None, c) \<Rightarrow>
                    do_loop Do wait req attempts (delay + client_RetryingDelayStep) c))"

text \<open>\<open>AccrualClient.do\<close>.\<close>

definition client_do ::
  "(http_request \<Rightarrow> 'c \<Rightarrow> (go_error + http_response) \<times> 'c) \<Rightarrow>
   (go_int \<Rightarrow> 'c \<Rightarrow> go_error option \<times> 'c) \<Rightarrow> http_request \<Rightarrow> 'c \<Rightarrow> (go_error + http_response) \<times> 'c" where
  "client_do Do wait req c = do_loop Do wait req client_RetryingAttempts client_RetryingDelay c"

text \<open>\<open>NewErrServiceIsBusy\<close>, \<open>GetDelay\<close> and \<open>Unwrap\<close> of \<open>ServiceIsBusyError\<close>.\<close>

definition NewErrServiceIsBusy :: "go_int \<Rightarrow> go_error \<Rightarrow> go_error" where
  "NewErrServiceIsBusy delay cause = ServiceIsBusyError delay cause"

fun GetDelay :: "go_error \<Rightarrow> go_int" where
  "GetDelay (ServiceIsBusyError delay cause) = delay"
| "GetDelay _ = 0"

fun Unwrap :: "go_error \<Rightarrow> go_error option" where
  "Unwrap (ServiceIsBusyError delay cause) = Some cause"
| "Unwrap (Wrapf m e) = Some e"
| "Unwrap _ = None"

definition prepareRequest :: "(string \<Rightarrow> go_error option) \<Rightarrow> string \<Rightarrow> string \<Rightarrow> go_error + http_request" where
  "prepareRequest check_url requestID url =
     (case check_url url of
        Some err \<Rightarrow> Inl (Wrapf ''failed to create request: '' err)
      | None \<Rightarrow> Inr \<lparr>rq_URL = url, rq_RequestID = requestID, rq_Accept = ''application/json''\<rparr>)"

text \<open>\<open>FromJSON[AccrualResponse]\<close>.\<close>

definition FromJSON_AccrualResponse :: "string \<Rightarrow> go_error + accrual_response" where
  "FromJSON_AccrualResponse data =
     (case Option.bind (scan data) struct_members of
        None \<Rightarrow> Inl ErrJson
      | Some ms \<Rightarrow>
          (case (decode_string [] (member_of ''order'' ms), decode_string [] (member_of ''status'' ms),
                 decode_number [] (member_of ''accrual'' ms)) of
             (Some o', Some st, Some a) \<Rightarrow> Inr \<lparr>ar_Order = o', ar_Status = st, ar_Accrual = a\<rparr>
           | _ \<Rightarrow> Inl ErrJson))"

definition parseAccrualResponse :: "http_response \<Rightarrow> go_error + accrual_response" where
  "parseAccrualResponse resp =
     (case rs_Body resp of
        Inl err \<Rightarrow> Inl (Wrapf ''can't read a response body: '' err)
      | Inr body \<Rightarrow>
          (case FromJSON_AccrualResponse body of
             Inl err \<Rightarrow> Inl (Wrapf ''can't parse a response body: '' err)
           | Inr r \<Rightarrow> Inr r))"

text \<open>The delay of an answer 429: its \<open>Retry-After\<close> in seconds, 10 when that is missing or no number.\<close>

definition busy_delay :: "http_response \<Rightarrow> go_int" where
  "busy_delay resp =
     (let retryAfter = rs_RetryAfter resp;
          parsed = (if retryAfter \<noteq> [] then atoi retryAfter else Inr 0);
          delay = (case parsed of Inl err \<Rightarrow> DefaultDelay
                   | Inr delay \<Rightarrow> if delay = 0 then DefaultDelay else delay)
      in delay * time_Second)"

definition answer_of :: "http_response \<Rightarrow> go_error + accrual_response" where
  "answer_of resp =
     (if rs_StatusCode resp = 200 then parseAccrualResponse resp
      else if rs_StatusCode resp = 204 then Inl ErrAccrualOrderNotFound
      else if rs_StatusCode resp = 429
      then Inl (NewErrServiceIsBusy (busy_delay resp) (ErrorString (rs_Status resp)))
      else Inl (ErrorString (''unexpected status code: '' @ itoa (rs_StatusCode resp))))"

definition GetOrderAccrual ::
  "(string \<Rightarrow> go_error option) \<Rightarrow> (http_request \<Rightarrow> 'c \<Rightarrow> (go_error + http_response) \<times> 'c) \<Rightarrow>
   (go_int \<Rightarrow> 'c \<Rightarrow> go_error option \<times> 'c) \<Rightarrow> string \<Rightarrow> string \<Rightarrow> string \<Rightarrow>
   'c \<Rightarrow> (go_error + accrual_response) \<times> 'c" where
  "GetOrderAccrual check_url Do wait BaseURL requestID orderID c =
     (case prepareRequest check_url requestID (BaseURL @ ''/api/orders/'' @ orderID) of
        Inl err \<Rightarrow> (Inl (Wrapf ''failed to create request: '' err), c)
      | Inr req \<Rightarrow>
          (case client_do Do wait req c of
             (Inl err, c) \<Rightarrow> (Inl (Wrapf ''request failed: '' err), c)
           | (Inr resp, c) \<Rightarrow> (answer_of resp, c)))"

section \<open>Retries\<close>

text \<open>A scripted network: the answer to the n-th request, the context's error in the n-th wait.\<close>

definition scripted_Do :: "(nat \<Rightarrow> go_error + http_response) \<Rightarrow> http_request \<Rightarrow> nat \<times> go_int list \<Rightarrow>
    (go_error + http_response) \<times> nat \<times> go_int list" where
  "scripted_Do answers req c = (answers (fst c), Suc (fst c), snd c)"

definition scripted_wait :: "(nat \<Rightarrow> go_error option) \<Rightarrow> go_int \<Rightarrow> nat \<times> go_int list \<Rightarrow>
    go_error option \<times> nat \<times> go_int list" where
  "scripted_wait cancel delay c = (cancel (length (snd c)), fst c, snd c @ [delay])"

text \<open>C35. The request is sent at most three times, with waits of 100 and 300 microseconds between
the attempts, and the first answer that is no error is returned; after three errors, or when the
context ends in a wait, the caller gets an error.\<close>
theorem do_sends_at_most_three:
  "client_do (scripted_Do answers) (scripted_wait cancel) req (0, []) =
     (case answers 0 of Inr r \<Rightarrow> (Inr r, 1, [])
      | Inl _ \<Rightarrow> (case cancel 0 of Some e \<Rightarrow> (Inl e, 1, [100000])
      | None \<Rightarrow> (case answers 1 of Inr r \<Rightarrow> (Inr r, 2, [100000])
      | Inl _ \<Rightarrow> (case cancel 1 of Some e \<Rightarrow> (Inl e, 2, [100000, 300000])
      | None \<Rightarrow> (answers 2, 3, [100000, 300000])))))"
  by (simp add: client_do_def client_RetryingAttempts_def client_RetryingDelay_def
      client_RetryingDelayStep_def scripted_Do_def scripted_wait_def numeral_3_eq_3 numeral_2_eq_2
      split: sum.splits option.splits)

section \<open>The busy signal\<close>

lemma sint_seconds:
  "\<bar>sint d\<bar> \<le> 9223372036 \<Longrightarrow> sint (d * time_Second) = sint d * 1000000000"
proof -
  assume d: "\<bar>sint d\<bar> \<le> 9223372036"
  have "in_int64 (sint d * 1000000000)" using d by (auto simp: in_int64_def abs_le_iff)
  moreover have "d * time_Second = word_of_int (sint d * 1000000000)"
    by (simp add: time_Second_def)
  ultimately show ?thesis by (simp only: sint_of_int64)
qed

text \<open>C36. After an answer 429 the dispatcher is asked to pause for the number of seconds in
\<open>Retry-After\<close> as far as that is a number of at most 292 years, and for ten seconds when it is missing,
zero or no number. A negative number is passed on as it is.\<close>
theorem busy_delay_seconds:
  assumes "rs_StatusCode resp = 429"
    and "\<And>n. atoi (rs_RetryAfter resp) = Inr n \<Longrightarrow> \<bar>sint n\<bar> \<le> 9223372036"
  shows "\<exists>d. answer_of resp = Inl (ServiceIsBusyError d (ErrorString (rs_Status resp))) \<and>
    sint d = (case atoi (rs_RetryAfter resp) of Inl _ \<Rightarrow> 10000000000
              | Inr n \<Rightarrow> if n = 0 then 10000000000 else sint n * 1000000000)"
proof -
  have ten: "sint (DefaultDelay * time_Second) = 10000000000"
    using sint_seconds [of DefaultDelay] by (simp add: DefaultDelay_def)
  have empty: "atoi [] = Inl ErrSyntax" by simp
  have "sint (busy_delay resp) = (case atoi (rs_RetryAfter resp) of Inl _ \<Rightarrow> 10000000000
              | Inr n \<Rightarrow> if n = 0 then 10000000000 else sint n * 1000000000)"
  proof (cases "atoi (rs_RetryAfter resp)")
    case (Inl e)
    then show ?thesis using ten by (simp add: busy_delay_def Let_def)
  next
    case (Inr m)
    then have "rs_RetryAfter resp \<noteq> []" by auto
    then show ?thesis
      using Inr ten sint_seconds [of m] assms(2) by (auto simp: busy_delay_def Let_def)
  qed
  then show ?thesis using assms(1) by (simp add: answer_of_def NewErrServiceIsBusy_def)
qed

text \<open>Every answer of the client that has an accrual has a number the parser can take.\<close>

lemma GetOrderAccrual_number:
  assumes "GetOrderAccrual check_url Do wait url rid oid c = (Inr resp, c')"
  shows "ar_Accrual resp = [] \<or> is_json_number (ar_Accrual resp)"
  using assms
  by (auto simp: GetOrderAccrual_def answer_of_def parseAccrualResponse_def FromJSON_AccrualResponse_def
      split: sum.splits prod.splits option.splits if_splits dest: decode_number_valid)

definition busy_response :: "string \<Rightarrow> http_response" where
  "busy_response retry = \<lparr>rs_StatusCode = 429, rs_Status = ''429 Too Many Requests'',
     rs_RetryAfter = retry, rs_Body = Inr []\<rparr>"

lemma busy_delay_seconds_witness:
  "(\<exists>d. answer_of (busy_response ''60'') =
      Inl (ServiceIsBusyError d (ErrorString ''429 Too Many Requests'')) \<and> sint d = 60000000000) \<and>
   (\<exists>d. answer_of (busy_response ''-5'') =
      Inl (ServiceIsBusyError d (ErrorString ''429 Too Many Requests'')) \<and> sint d = - 5000000000)"
proof -
  have a: "atoi ''60'' = Inr 60" "atoi ''-5'' = Inr (- 5)"
    by (simp_all add: atoi_signed_def is_digit_def digit_val_def)
  show ?thesis
    using busy_delay_seconds [of "busy_response ''60''"]
      busy_delay_seconds [of "busy_response ''-5''"] a
    by (simp add: busy_response_def del: atoi.simps)
qed

end
