(* ===== verification/AccrualTasks.thy ===== *)
theory AccrualTasks
  imports Services AccrualClient
begin

text \<open>
  What becomes of an accrual task: \<open>OrderService.ProcessAccrualTask\<close> over the accrual client and the
  PostgreSQL repository. Which answers send the task back to the queue, which ones credit the user,
  what the busy signal does, and that no answer of the client makes the worker panic.
\<close>

section \<open>Sending back\<close>

lemma send_then_open:
  assumes "\<not> chan_closed (os_reports o')"
  shows "send_then r m o' = (Returns r, o'\<lparr>os_reports := (os_reports o')\<lparr>chan_buf :=
    chan_buf (os_reports o') @ (if length (chan_buf (os_reports o')) < chan_cap (os_reports o') then [m] else [])\<rparr>\<rparr>)"
  using assms by (simp add: send_then_def sendOrderToProcessor_def try_send_def)

lemma SetStatus_fields:
  "SetStatus x m = (None, m1) \<Longrightarrow> m1 = m\<lparr>ord_Status := x\<rparr>"
  by (auto simp: SetStatus_def split: if_splits)

lemma SetAccrual_fields:
  "SetAccrual x m = Returns (None, m1) \<Longrightarrow>
   \<exists>a. converStringAccrualToInt x = Returns (Inr a) \<and> m1 = m\<lparr>ord_Accrual := a\<rparr>"
  by (cases "converStringAccrualToInt x") (auto simp: SetAccrual_def split: sum.splits)

text \<open>The status that is stored for an answer, and the order that is stored.\<close>

definition target_status :: "accrual_response \<Rightarrow> string" where
  "target_status resp = (if ar_Status resp = OrderRegisteredStatus then OrderNewStatus else ar_Status resp)"

definition answered :: "accrual_response \<Rightarrow> Accrual \<Rightarrow> order \<Rightarrow> order" where
  "answered resp a m = m\<lparr>ord_Status := target_status resp, ord_Accrual := a\<rparr>"

lemma answered_fields [simp]:
  "ord_ID (answered resp a m) = ord_ID m" "ord_UserID (answered resp a m) = ord_UserID m"
  "ord_Accrual (answered resp a m) = a" "ord_Status (answered resp a m) = target_status resp"
  by (simp_all add: answered_def)

lemma target_in_process: "target_status resp = OrderInProcessStatus \<longleftrightarrow> ar_Status resp = OrderInProcessStatus"
  by (auto simp: target_status_def status_defs)

lemma take_answer_fields:
  assumes "take_answer resp m = Returns (None, m1)"
  shows "\<exists>a. m1 = answered resp a m \<and> (ar_Accrual resp = [] \<longrightarrow> a = ord_Accrual m) \<and>
    (ar_Accrual resp \<noteq> [] \<longrightarrow> converStringAccrualToInt (ar_Accrual resp) = Returns (Inr a))"
proof -
  obtain x m0 where s: "SetStatus (target_status resp) m = (x, m0)" by fastforce
  then have x: "x = None" "m0 = m\<lparr>ord_Status := target_status resp\<rparr>"
    using assms SetStatus_fields [of "target_status resp" m m0]
    by (auto simp: take_answer_def target_status_def [symmetric] split: option.splits)
  then have a: "(if ar_Accrual resp \<noteq> [] then SetAccrual (ar_Accrual resp) m0 else Returns (None, m0)) = Returns (None, m1)"
    using assms s by (auto simp: take_answer_def target_status_def [symmetric])
  show ?thesis
  proof (cases "ar_Accrual resp = []")
    case True
    then show ?thesis using a x by (intro exI [of _ "ord_Accrual m"]) (auto simp: answered_def)
  next
    case False
    then show ?thesis using a x SetAccrual_fields [of "ar_Accrual resp" m0 m1] by (auto simp: answered_def)
  qed
qed

lemma record_answer_cases:
  assumes "record_answer NewSQLStorage resp m o' = (Returns r, t)"
  obtains (refused) "t = o'" "r \<noteq> None"
  | (stored) a s1 where "UpdateOrder (answered resp a m) (os_db o') = ((r, answered resp a m), s1)"
      "ar_Accrual resp = [] \<longrightarrow> a = ord_Accrual m"
      "ar_Accrual resp \<noteq> [] \<longrightarrow> converStringAccrualToInt (ar_Accrual resp) = Returns (Inr a)"
      "ar_Status resp \<noteq> OrderInProcessStatus \<or> r \<noteq> None" "t = o'\<lparr>os_db := s1\<rparr>"
  | (again) a s1 where "UpdateOrder (answered resp a m) (os_db o') = ((None, answered resp a m), s1)"
      "r = None" "ar_Status resp = OrderInProcessStatus"
      "send_then None (answered resp a m) (o'\<lparr>os_db := s1\<rparr>) = (Returns r, t)"
      "ar_Accrual resp = [] \<longrightarrow> a = ord_Accrual m"
      "ar_Accrual resp \<noteq> [] \<longrightarrow> converStringAccrualToInt (ar_Accrual resp) = Returns (Inr a)"
proof (cases "take_answer resp m")
  case (Panics p)
  then show thesis using assms by (simp add: record_answer_def)
next
  case (Returns y)
  obtain x m1 where y: "y = (x, m1)" by fastforce
  show thesis
  proof (cases x)
    case (Some err)
    then show thesis using assms Returns y refused by (auto simp: record_answer_def)
  next
    case None
    obtain a where a: "m1 = answered resp a m" "ar_Accrual resp = [] \<longrightarrow> a = ord_Accrual m"
      "ar_Accrual resp \<noteq> [] \<longrightarrow> converStringAccrualToInt (ar_Accrual resp) = Returns (Inr a)"
      using take_answer_fields Returns y None by blast
    obtain e m2 s1 where u: "UpdateOrder m1 (os_db o') = ((e, m2), s1)" by (metis prod.collapse)
    have m2: "m2 = m1" by (rule UpdateOrder_spec(3) [OF u])
    have res: "(case e of Some err \<Rightarrow> (Returns (Some err), o'\<lparr>os_db := s1\<rparr>)
        | None \<Rightarrow> if ar_Status resp = OrderInProcessStatus
                  then send_then None m1 (o'\<lparr>os_db := s1\<rparr>)
                  else (Returns None, o'\<lparr>os_db := s1\<rparr>)) = (Returns r, t)"
      using assms Returns y None u m2 a(1) target_in_process [of resp]
      by (auto simp: record_answer_def NewSQLStorage_def split: option.splits)
    have "r = e" using res by (auto simp: send_then_def split: option.splits if_splits prod.splits outcome.splits)
    then show thesis
      using stored [of a s1] again [of a s1] res u m2 a by (cases e) (auto split: if_splits)
  qed
qed

lemma requeued:
  assumes "ProcessAccrualTask NewSQLStorage client task o' = (Returns r, t)"
    and "client (ord_ID task) (os_client o') = (answer, c)"
    and "\<not> chan_closed (os_reports o')" "length (chan_buf (os_reports o')) < chan_cap (os_reports o')"
  shows "\<exists>new. chan_buf (os_reports t) = chan_buf (os_reports o') @ new \<and>
    (new = [] \<or> (\<exists>m. new = [m] \<and> ord_ID m = ord_ID task \<and> ord_UserID m = ord_UserID task)) \<and>
    (new \<noteq> [] \<longleftrightarrow> (\<exists>d cause. answer = Inl (ServiceIsBusyError d cause)) \<or>
       (\<exists>resp. answer = Inr resp \<and> ar_Status resp = OrderInProcessStatus \<and> r = None))"
proof (cases answer)
  case (Inl err)
  show ?thesis
  proof (cases "\<exists>d cause. err = ServiceIsBusyError d cause")
    case True
    then obtain d cause where d: "err = ServiceIsBusyError d cause" by blast
    then show ?thesis
      using assms Inl
      by (intro exI [of _ "[task]"])
         (auto simp: ProcessAccrualTask_def busy_def send_then_open Let_def split: outcome.splits)
  next
    case False
    then have "as_AccrualError err = None" by (cases err) auto
    then show ?thesis
      using assms Inl False
      by (intro exI [of _ "[]"]) (auto simp: ProcessAccrualTask_def busy_def Let_def split: if_splits)
  qed
next
  case (Inr resp)
  show ?thesis
  proof (cases "ar_Status resp = OrderInProcessStatus \<and> ord_Status task = ar_Status resp")
    case True
    then show ?thesis
      using assms Inr
      by (intro exI [of _ "[task]"]) (auto simp: ProcessAccrualTask_def send_then_open)
  next
    case False
    then have ra: "record_answer NewSQLStorage resp task (o'\<lparr>os_client := c\<rparr>) = (Returns r, t)"
      using assms(1,2) Inr by (auto simp: ProcessAccrualTask_def Let_def split: if_splits)
    then show ?thesis
    proof (cases rule: record_answer_cases)
      case refused
      then show ?thesis using Inr by (intro exI [of _ "[]"]) auto
    next
      case (stored a s1)
      then show ?thesis using Inr by (intro exI [of _ "[]"]) auto
    next
      case (again a s1)
      then show ?thesis
        using Inr assms(3,4) send_then_open [of "o'\<lparr>os_client := c, os_db := s1\<rparr>" "None :: go_error option"]
        by (intro exI [of _ "[answered resp a task]"]) auto
    qed
  qed
qed

text \<open>The pause an answer asks for.\<close>

fun asked_pause :: "go_error + accrual_response \<Rightarrow> go_int list" where
  "asked_pause (Inl (ServiceIsBusyError d cause)) = [d]"
| "asked_pause _ = []"

lemma asked_pause_error: "asked_pause (Inl err) = (case as_AccrualError err of Some d \<Rightarrow> [d] | None \<Rightarrow> [])"
  by (cases err) auto

lemma send_then_pause: "send_then x m o' = (r, t) \<Longrightarrow> os_pause t = os_pause o'"
  by (auto simp: send_then_def sendOrderToProcessor_def split: outcome.splits prod.splits)

lemma record_answer_pause: "record_answer db resp m o' = (r, t) \<Longrightarrow> os_pause t = os_pause o'"
  by (auto simp: record_answer_def split: outcome.splits prod.splits option.splits if_splits dest!: send_then_pause)

lemma ProcessAccrualTask_pauses:
  assumes "ProcessAccrualTask db client task o' = (Returns r, t)" "client (ord_ID task) (os_client o') = (answer, c)"
  shows "chan_buf (os_pause t) = chan_buf (os_pause o') @
    (if length (chan_buf (os_pause o')) < chan_cap (os_pause o') then asked_pause answer else [])"
proof (cases answer)
  case (Inl err)
  show ?thesis
  proof (cases "\<exists>d cause. err = ServiceIsBusyError d cause")
    case True
    then show ?thesis
      using assms Inl by (auto simp: ProcessAccrualTask_def busy_def try_send_def Let_def split: if_splits dest!: send_then_pause)
  next
    case False
    then have "as_AccrualError err = None" by (cases err) auto
    then show ?thesis
      using assms Inl by (auto simp: ProcessAccrualTask_def busy_def asked_pause_error Let_def split: if_splits)
  qed
next
  case (Inr resp)
  then show ?thesis
    using assms by (auto simp: ProcessAccrualTask_def Let_def split: if_splits dest!: send_then_pause record_answer_pause)
qed

text \<open>C37. A worker puts a task back into the queue exactly when the accrual service asked for a pause,
or said that the order is being processed and that was stored. Every other answer ends the
polling of the order: REGISTERED and 204, a failed request, a failed update. The pause that was asked for,
and no other, is passed on to the dispatcher, with the delay of the answer, unless one is waiting already.\<close>
theorem ProcessAccrualTask_requeues:
  assumes "ProcessAccrualTask NewSQLStorage client task o' = (Returns r, t)"
    and "client (ord_ID task) (os_client o') = (answer, c)"
    and "\<not> chan_closed (os_reports o')" "length (chan_buf (os_reports o')) < chan_cap (os_reports o')"
  shows "(\<exists>new. chan_buf (os_reports t) = chan_buf (os_reports o') @ new \<and>
    (new = [] \<or> (\<exists>m. new = [m] \<and> ord_ID m = ord_ID task \<and> ord_UserID m = ord_UserID task)) \<and>
    (new \<noteq> [] \<longleftrightarrow> (\<exists>d cause. answer = Inl (ServiceIsBusyError d cause)) \<or>
       (\<exists>resp. answer = Inr resp \<and> ar_Status resp = OrderInProcessStatus \<and> r = None))) \<and>
    chan_buf (os_pause t) = chan_buf (os_pause o') @
      (if length (chan_buf (os_pause o')) < chan_cap (os_pause o') then asked_pause answer else [])"
  by (rule conjI [OF requeued [OF assms] ProcessAccrualTask_pauses [OF assms(1,2)]])

text \<open>When the service is busy the worker tells the dispatcher how long to pause, unless a signal
is already waiting, gives the task back unless the queue is full, touches no table and reports
the error.\<close>
lemma ProcessAccrualTask_busy:
  assumes "client (ord_ID task) (os_client o') = (Inl (ServiceIsBusyError d cause), c)"
    and "\<not> chan_closed (os_reports o')" "\<not> chan_closed (os_pause o')"
  shows "\<exists>t. ProcessAccrualTask db client task o' = (Returns (Some (ServiceIsBusyError d cause)), t) \<and>
    os_db t = os_db o' \<and>
    chan_buf (os_pause t) = chan_buf (os_pause o') @
      (if length (chan_buf (os_pause o')) < chan_cap (os_pause o') then [d] else []) \<and>
    chan_buf (os_reports t) = chan_buf (os_reports o') @
      (if length (chan_buf (os_reports o')) < chan_cap (os_reports o') then [task] else [])"
  using assms
  by (simp add: ProcessAccrualTask_def busy_def send_then_open try_send_def)

section \<open>Crediting\<close>

text \<open>A task whose answer is PROCESSED with a positive accrual, once it is recorded, has added
exactly that accrual to the points of the order's user and to nobody else's.\<close>
lemma ProcessAccrualTask_credits:
  assumes "ProcessAccrualTask NewSQLStorage client task o' = (Returns None, t)"
    and "client (ord_ID task) (os_client o') = (Inr resp, c)"
    and "ar_Status resp = OrderProcessedStatus"
    and "converStringAccrualToInt (ar_Accrual resp) = Returns (Inr a)" "0 < sint a" "ar_Accrual resp \<noteq> []"
    and "healthy (os_db o')"
  shows "\<exists>uid. uuid_in (os_db o') (ord_UserID task) = Some uid \<and>
    points_of (os_db t) = (points_of (os_db o'))(uid := points_of (os_db o') uid + sint a) \<and>
    spent_by (os_db t) = spent_by (os_db o')"
proof -
  have "record_answer NewSQLStorage resp task (o'\<lparr>os_client := c\<rparr>) = (Returns None, t)"
    using assms(1-3) by (auto simp: ProcessAccrualTask_def Let_def status_defs)
  then show ?thesis
  proof (cases rule: record_answer_cases)
    case (stored a1 s1)
    then have u: "UpdateOrder (answered resp a task) (os_db o') = ((None, answered resp a task), s1)" "os_db t = s1"
      using assms(3,4,6) by (auto simp: status_defs)
    have "keys_ok (tables (os_db o'))" using assms(7) by (simp add: healthy_def)
    from order_update_credits [OF u(1) this] obtain uid where uid: "uuid_in (os_db o') (ord_UserID task) = Some uid"
      "withdrawals (tables s1) = withdrawals (tables (os_db o'))"
      "\<forall>x. balance_of x (tables s1) = balance_of x (tables (os_db o')) + (if x = uid then sint a else 0)"
      using assms(3,5) by (auto simp: target_status_def status_defs)
    then show ?thesis
      using u(2) books_congs(4) [OF uid(2)] by (auto simp: points_of_def spent_by_def)
  qed (use assms(3) in \<open>simp_all add: status_defs\<close>)
qed

section \<open>No panic\<close>

text \<open>An amount the parser can slice.\<close>

definition sliceable :: "accrual_response \<Rightarrow> bool" where
  "sliceable resp \<longleftrightarrow> ar_Accrual resp = [] \<or> returns (converStringAccrualToInt (ar_Accrual resp))"

lemma take_answer_returns: "sliceable resp \<Longrightarrow> returns (take_answer resp m)"
  by (cases "converStringAccrualToInt (ar_Accrual resp)")
    (auto simp: sliceable_def take_answer_def SetAccrual_def Let_def split: option.splits prod.splits sum.splits)

lemma GetOrderAccrual_sliceable:
  "GetOrderAccrual check_url Do wait url requestID i c = (Inr resp, c') \<Longrightarrow> sliceable resp"
  unfolding sliceable_def using GetOrderAccrual_number conver_number_returns by fastforce

text \<open>While the two channels are open no answer of the accrual service makes a worker panic: what
the client decodes as an accrual is a number the parser can slice.\<close>
lemma ProcessAccrualTask_never_panics:
  assumes "\<not> chan_closed (os_reports o')" "\<not> chan_closed (os_pause o')"
  shows "returns (fst (ProcessAccrualTask db (GetOrderAccrual check_url Do wait url requestID) task o'))"
proof -
  obtain r c where r: "GetOrderAccrual check_url Do wait url requestID (ord_ID task) (os_client o') = (r, c)"
    by fastforce
  show ?thesis
  proof (cases r)
    case (Inl err)
    then show ?thesis
      using r assms by (auto simp: ProcessAccrualTask_def busy_def send_then_open try_send_def Let_def split: option.splits)
  next
    case (Inr resp)
    have "returns (take_answer resp task)"
      using GetOrderAccrual_sliceable r Inr take_answer_returns by fastforce
    then obtain y where "take_answer resp task = Returns y" by (cases "take_answer resp task") auto
    then have "returns (fst (record_answer db resp task (o'\<lparr>os_client := c\<rparr>)))"
      using assms(1) by (auto simp: record_answer_def send_then_open split: option.splits prod.splits)
    then show ?thesis
      using r Inr assms(1) by (auto simp: ProcessAccrualTask_def send_then_open Let_def)
  qed
qed

section \<open>Witnesses\<close>

text \<open>A client that always gives the same answer.\<close>

definition fixed_client :: "go_error + accrual_response \<Rightarrow> string \<Rightarrow> unit \<Rightarrow> (go_error + accrual_response) \<times> unit" where
  "fixed_client answer orderID c = (answer, c)"

definition demo_task :: task where
  "demo_task = zero_order\<lparr>ord_ID := ''79927398713'', ord_UserID := ''u'', ord_Status := ''NEW''\<rparr>"

definition demo_answer :: "string \<Rightarrow> string \<Rightarrow> accrual_response" where
  "demo_answer st a = \<lparr>ar_Order = ''79927398713'', ar_Status = st, ar_Accrual = a\<rparr>"

lemma demo_conver: "converStringAccrualToInt ''729.98'' = Returns (Inr 72998)"
  by (simp add: converStringAccrualToInt_def pad_fraction_def atoi_signed_def is_digit_def digit_val_def sless_zero_iff)

lemma ProcessAccrualTask_requeues_witness:
  "\<exists>t. ProcessAccrualTask NewSQLStorage (fixed_client (Inl (ServiceIsBusyError 7 (ErrorString ''429''))))
      demo_task (demo_orders demo_server) = (Returns (Some (ServiceIsBusyError 7 (ErrorString ''429''))), t) \<and>
    chan_buf (os_pause t) = [7] \<and> (\<exists>m. chan_buf (os_reports t) = [m] \<and> ord_ID m = ''79927398713'')"
proof -
  let ?busy = "ServiceIsBusyError 7 (ErrorString ''429'')" and ?o = "demo_orders demo_server"
  obtain t where r: "ProcessAccrualTask NewSQLStorage (fixed_client (Inl ?busy)) demo_task ?o = (Returns (Some ?busy), t)"
    by (simp add: ProcessAccrualTask_def busy_def send_then_open try_send_def fixed_client_def demo_orders_def make_chan_def)
  show ?thesis
    using r ProcessAccrualTask_requeues [OF r, of "Inl ?busy" "()"]
    by (auto simp: fixed_client_def demo_orders_def make_chan_def demo_task_def)
qed

lemma ProcessAccrualTask_busy_witness:
  "\<exists>t. ProcessAccrualTask NewSQLStorage (fixed_client (Inl (ServiceIsBusyError 7 (ErrorString ''429''))))
      demo_task (demo_orders demo_server) = (Returns (Some (ServiceIsBusyError 7 (ErrorString ''429''))), t) \<and>
    chan_buf (os_pause t) = [7] \<and> chan_buf (os_reports t) = [demo_task]"
  using ProcessAccrualTask_busy [of "fixed_client (Inl (ServiceIsBusyError 7 (ErrorString ''429'')))" demo_task
      "demo_orders demo_server" 7 "ErrorString ''429''" "()" NewSQLStorage]
  by (auto simp: fixed_client_def demo_orders_def make_chan_def)

lemma demo_task_credits:
  "points_of (os_db (snd (ProcessAccrualTask NewSQLStorage (fixed_client (Inr (demo_answer ''PROCESSED'' ''729.98'')))
      demo_task (demo_orders (perform (CallAddUser demo_user) demo_server))))) ''u'' = 72998"
proof -
  let ?o = "demo_orders (perform (CallAddUser demo_user) demo_server)"
  obtain t where r: "ProcessAccrualTask NewSQLStorage (fixed_client (Inr (demo_answer ''PROCESSED'' ''729.98''))) demo_task ?o
      = (Returns None, t)"
    unfolding demo_registered
    by (simp add: ProcessAccrualTask_def fixed_client_def demo_answer_def demo_task_def demo_orders_def
        record_answer_def take_answer_def SetStatus_def SetAccrual_def demo_conver validStatuses_def
        NewSQLStorage_def run_defs demo_defs zero_sless_iff in_int64_def)
  have "uuid_in (perform (CallAddUser demo_user) demo_server) ''u'' = Some ''u''"
    "points_of (perform (CallAddUser demo_user) demo_server) ''u'' = 0"
    unfolding demo_registered by (simp_all add: demo_server_def points_of_def balance_of_def empty_db_def)
  then show ?thesis
    unfolding r using ProcessAccrualTask_credits [OF r _ _ _ _ _ _, of "demo_answer ''PROCESSED'' ''729.98''" "()" 72998]
      healthy_demo_registered demo_conver
    by (auto simp: fixed_client_def demo_answer_def demo_orders_def demo_task_def zero_order_def
        OrderProcessedStatus_def simp del: perform.simps)
qed

end
