(* ===== verification/Journey.thy ===== *)
theory Journey
  imports Documents AccrualTasks
begin

text \<open>
  The way of an order through the whole program: handed in by a request, put into the link channel,
  taken to the accrual service by a worker, credited, and seen in the next answer about the balance.
\<close>

section \<open>Handing in\<close>

text \<open>What a stored order leaves behind: a task in the channel, and every user's points as they were.\<close>

lemma Store_sends:
  assumes "OrderService_Store NewSQLStorage (Some c) i o' = (Returns None, t)"
    and "\<not> chan_closed (os_reports o')" "length (chan_buf (os_reports o')) < chan_cap (os_reports o')"
  shows "chan_buf (os_reports t) = chan_buf (os_reports o') @ [new_order i c] \<and>
    points_of (os_db t) = points_of (os_db o') \<and> spent_by (os_db t) = spent_by (os_db o')"
proof -
  obtain e m s1 where a: "AddOrder (new_order i c) (os_db o') = ((e, m), s1)" by (metis prod.collapse)
  have "e = None \<and> t = o'\<lparr>os_db := s1, os_reports := (os_reports o')\<lparr>chan_buf := chan_buf (os_reports o') @ [m]\<rparr>\<rparr>"
    using assms a
    by (auto simp: OrderService_Store_def NewOrder_def new_order_def [symmetric] NewSQLStorage_def sendOrderToProcessor_def
        try_send_def split: if_splits option.splits sum.splits prod.splits)
  then have t: "e = None" "os_db t = s1" "chan_buf (os_reports t) = chan_buf (os_reports o') @ [m]" by simp_all
  moreover have "m = new_order i c" "order_added (new_order i c) (os_db o') s1"
    using AddOrder_spec(1,3) [OF a] t(1) by (simp_all add: all_or_nothing_def)
  ultimately show ?thesis
    by (auto simp: order_added_def points_of_def spent_by_def balance_of_def withdrawn_sum_def)
qed

lemma new_order_fields [simp]: "ord_ID (new_order i c) = i" "ord_UserID (new_order i c) = cl_UserID c"
  by (simp_all add: new_order_def zero_order_def)

lemma serve_AddOrder_202:
  assumes "token_of e r = Some c" "Header_Get ContentType (req_Header r) = TextPlainContentType" "req_Body r = Inr i"
    and "serve e ''POST'' ''/api/user/orders'' r o' = Some (Returns (), resp, t)" "rsp_Status resp = 202"
  shows "OrderService_Store (e_db e) (Some c) i o' = (Returns None, t)"
proof -
  obtain x where x: "OrderService_Store (e_db e) (Some c) i o' = (Returns x, t)" "resp = as_seen (\<lambda>k. []) (add_order_reply x)"
    using serve_AddOrder [OF assms(1-4)]
    by (cases "OrderService_Store (e_db e) (Some c) i o'") (auto split: outcome.splits)
  moreover have "orders_status err \<noteq> 202" for err by (simp add: orders_status_def)
  ultimately show ?thesis
    using assms(5) by (cases x) (auto simp: add_order_reply_def as_seen_def status_only_def)
qed

section \<open>The worker\<close>

lemma task_keeps_healthy:
  assumes "ProcessAccrualTask NewSQLStorage client task o' = (res, t)" "healthy (os_db o')"
  shows "healthy (os_db t) \<and> uuid_in (os_db t) = uuid_in (os_db o')"
proof -
  have k: "UpdateOrder m s = (x, s1) \<Longrightarrow> healthy s \<Longrightarrow> healthy s1 \<and> uuid_in s1 = uuid_in s" for m s x s1
    using keepsD [OF sql.keeps_orders(4), of s m x s1] by (simp add: NewSQLStorage_def)
  show ?thesis
    using assms
    by (auto simp: ProcessAccrualTask_def busy_def send_then_def sendOrderToProcessor_def record_answer_def Let_def NewSQLStorage_def
        split: prod.splits sum.splits if_splits option.splits outcome.splits dest!: k)
qed

section \<open>From the order to the points\<close>

text \<open>C2. An order pays off. A request hands in an order number and is answered 202; a worker takes the
task this put into the channel, the accrual service answers PROCESSED with a positive amount, and the
worker reports no error. Then the next 200 of \<open>GET /api/user/balance\<close> for the same user shows a
document with exactly the points from before plus that amount, and the withdrawn sum unchanged.\<close>
theorem order_earns_points:
  assumes "e_db e = NewSQLStorage" "healthy (os_db o0)" "token_of e r = Some c"
    and "Header_Get ContentType (req_Header r) = TextPlainContentType" "req_Body r = Inr i"
    and "\<not> chan_closed (os_reports o0)" "length (chan_buf (os_reports o0)) < chan_cap (os_reports o0)"
    and "serve e ''POST'' ''/api/user/orders'' r o0 = Some (Returns (), resp, o1)" "rsp_Status resp = 202"
    and "ProcessAccrualTask NewSQLStorage client (last (chan_buf (os_reports o1))) o1 = (Returns None, o2)"
    and "client i (os_client o1) = (Inr answer, cl)" "ar_Status answer = OrderProcessedStatus"
    and "converStringAccrualToInt (ar_Accrual answer) = Returns (Inr a)" "0 < sint a" "ar_Accrual answer \<noteq> []"
    and "token_of e r' = Some c'" "cl_UserID c' = cl_UserID c"
    and "serve e ''GET'' ''/api/user/balance'' r' o2 = Some (Returns (), resp', o3)" "rsp_Status resp' = 200"
    and "uuid_in (os_db o0) (cl_UserID c) = Some uid"
    and "\<bar>points_of (os_db o0) uid + sint a\<bar> \<le> 2 ^ 50" "\<bar>spent_by (os_db o0) uid\<bar> \<le> 2 ^ 50"
  shows "\<exists>cur wd. balance_read (rsp_Body resp') cur wd \<and>
    sint cur = points_of (os_db o0) uid + sint a \<and> sint wd = spent_by (os_db o0) uid"
proof -
  have st: "OrderService_Store NewSQLStorage (Some c) i o0 = (Returns None, o1)"
    using serve_AddOrder_202 [OF assms(3-5,8,9)] assms(1) by simp
  have h1: "healthy (os_db o1)" "uuid_in (os_db o1) = uuid_in (os_db o0)"
    using sql_orders.Store_answers [OF assms(2) st] by simp_all
  note sent = Store_sends [OF st assms(6,7)]
  then have task: "last (chan_buf (os_reports o1)) = new_order i c" by simp
  have "client (ord_ID (new_order i c)) (os_client o1) = (Inr answer, cl)" using assms(11) by simp
  from ProcessAccrualTask_credits [OF assms(10) [unfolded task] this assms(12-15) h1(1)]
  have p2: "points_of (os_db o2) uid = points_of (os_db o0) uid + sint a" "spent_by (os_db o2) uid = spent_by (os_db o0) uid"
    using assms(20) h1(2) sent by auto
  have h2: "healthy (os_db o2)" "uuid_in (os_db o2) (cl_UserID c') = Some uid"
    using task_keeps_healthy [OF assms(10) h1(1)] h1(2) assms(17,20) by auto
  from balance_shown [OF assms(1) h2(1) assms(16) h2(2) _ _ assms(18,19)] p2 assms(21,22)
  show ?thesis by auto
qed

section \<open>Witness\<close>

definition demo_tables :: "Accrual \<Rightarrow> order_status \<Rightarrow> server" where
  "demo_tables a st = demo_server\<lparr>id_ctr := 1, tables := \<lparr>users =
     [\<lparr>ur_id = ''u'', ur_login = ''anna'', ur_hash = ''hash'', ur_balance = sint a, ur_version = 1,
       ur_created = 7\<rparr>], orders = [\<lparr>or_id = ''79927398713'', or_user = ''u'', or_status = st,
       or_accrual = sint a, or_uploaded = 7, or_updated = 7\<rparr>], withdrawals = []\<rparr>\<rparr>"

definition demo_sent :: "(server, unit) OrderService" where
  "demo_sent = (demo_orders (demo_tables 0 NEW))\<lparr>os_reports := (make_chan 2)\<lparr>chan_buf := [new_order ''79927398713'' demo_claims]\<rparr>\<rparr>"

lemma demo_store:
  "OrderService_Store NewSQLStorage (Some demo_claims) ''79927398713'' (demo_orders (perform (CallAddUser demo_user) demo_server))
    = (Returns None, demo_sent)"
proof -
  have luhn: "IsValidLuhn ''79927398713''" by code_simp
  show ?thesis
    unfolding demo_registered demo_sent_def demo_tables_def using luhn
    by (simp add: OrderService_Store_def demo_claims_def demo_orders_def make_chan_def NewOrder_def Order_Validate_def
        validStatuses_def sendOrderToProcessor_def try_send_def NewSQLStorage_def run_defs demo_defs new_order_def)
qed

lemma demo_process:
  "ProcessAccrualTask NewSQLStorage (fixed_client (Inr (demo_answer ''PROCESSED'' ''729.98'')))
    (new_order ''79927398713'' demo_claims) demo_sent = (Returns None, demo_sent\<lparr>os_db := demo_tables 72998 PROCESSED\<rparr>)"
  by (simp add: ProcessAccrualTask_def fixed_client_def demo_answer_def new_order_def demo_claims_def demo_orders_def demo_sent_def
      demo_tables_def record_answer_def take_answer_def SetStatus_def SetAccrual_def demo_conver validStatuses_def
      NewSQLStorage_def run_defs demo_defs zero_sless_iff in_int64_def)

lemma demo_balance_after:
  "GetBalanceInfo NewSQLStorage (Some demo_claims) (demo_tables 72998 PROCESSED)
    = (Returns (Inr (NewBalanceItem 72998 0)), demo_tables 72998 PROCESSED)"
  unfolding demo_tables_def
  by (simp add: GetBalanceInfo_def GetUserByID_def GetWithdrawn_def select_user_def first_row_def in_int64_def
      QuerySelectUserByID_def QuerySelectWithdrawn_def scan_user_def demo_claims_def NewSQLStorage_def run_defs
      demo_defs retriable_codes)

theorem order_earns_points_witness:
  "\<exists>resp o2 resp' o3 cur wd.
     serve demo_env ''POST'' ''/api/user/orders'' (demo_request TextPlainContentType ''79927398713'' ''good'')
       (demo_orders (perform (CallAddUser demo_user) demo_server)) = Some (Returns (), resp, demo_sent) \<and>
     ProcessAccrualTask NewSQLStorage (fixed_client (Inr (demo_answer ''PROCESSED'' ''729.98'')))
       (last (chan_buf (os_reports demo_sent))) demo_sent = (Returns None, o2) \<and>
     serve demo_env ''GET'' ''/api/user/balance'' (demo_request [] [] ''good'') o2 = Some (Returns (), resp', o3) \<and>
     balance_read (rsp_Body resp') cur wd \<and> sint cur = 72998 \<and> sint wd = 0"
proof -
  let ?o = "demo_orders (perform (CallAddUser demo_user) demo_server)"
  let ?r = "demo_request TextPlainContentType ''79927398713'' ''good''" and ?g = "demo_request [] [] ''good''"
  let ?o2 = "demo_sent\<lparr>os_db := demo_tables 72998 PROCESSED\<rparr>"
  obtain res resp t where s: "serve demo_env ''POST'' ''/api/user/orders'' ?r ?o = Some (res, resp, t)"
    using serve_some [OF routes(1)] by blast
  have p: "res = Returns ()" "t = demo_sent" "rsp_Status resp = 202"
    using serve_AddOrder [OF _ _ _ s, of demo_claims "''79927398713''"] demo_store
    by (simp_all add: as_seen_def add_order_reply_def typed_def)
  obtain res' resp' t' where b: "serve demo_env ''GET'' ''/api/user/balance'' ?g ?o2 = Some (res', resp', t')"
    using serve_some [OF routes(2)] by blast
  have "Balance_ToJSON (NewBalanceItem 72998 0) \<noteq> None"
    using MarshalJSON_number [of 72998] MarshalJSON_number [of 0]
    by (simp add: Balance_ToJSON_def balance_json_def NewBalanceItem_def accrual_json_def)
  then have g: "res' = Returns ()" "rsp_Status resp' = 200"
    using serve_GetLoyalityBalance [OF _ b, of demo_claims] demo_balance_after
    by (auto simp: as_seen_def balance_reply_def json_reply_def typed_def)
  have l: "last (chan_buf (os_reports demo_sent)) = new_order ''79927398713'' demo_claims" by (simp add: demo_sent_def)
  have u: "uuid_in (os_db ?o) (cl_UserID demo_claims) = Some ''u''" "points_of (os_db ?o) ''u'' = 0" "spent_by (os_db ?o) ''u'' = 0"
    unfolding demo_registered
    by (simp_all add: demo_orders_def demo_claims_def demo_server_def points_of_def balance_of_def spent_by_def withdrawn_sum_def empty_db_def)
  have "\<exists>cur wd. balance_read (rsp_Body resp') cur wd \<and> sint cur = points_of (os_db ?o) ''u'' + sint (72998 :: Accrual) \<and>
      sint wd = spent_by (os_db ?o) ''u''"
    by (rule order_earns_points [where i = "''79927398713''" and c = demo_claims and c' = demo_claims and r = ?r and r' = ?g
          and client = "fixed_client (Inr (demo_answer ''PROCESSED'' ''729.98''))" and answer = "demo_answer ''PROCESSED'' ''729.98''"
          and ?o1.0 = demo_sent and ?o2.0 = ?o2 and cl = "()" and e = demo_env])
      (use s p b g l u demo_process demo_conver healthy_demo_registered in
        \<open>simp_all add: demo_orders_def make_chan_def fixed_client_def demo_answer_def OrderProcessedStatus_def del: perform.simps\<close>)
  then obtain cur wd where "balance_read (rsp_Body resp') cur wd" "sint cur = 72998" "sint wd = 0" using u by auto
  then show ?thesis
    using s p b g l demo_process
    by (intro exI [of _ resp] exI [of _ ?o2] exI [of _ resp'] exI [of _ t'] exI [of _ cur] exI [of _ wd]) simp
qed

end
