(* ===== verification/Sessions.thy ===== *)
theory Sessions
  imports Journey
begin

text \<open>
  Requests of any kind, well-formed or not: what every one of them keeps of the database and of the link
  channel, and that no handler panics while the link channel is open.
\<close>

section \<open>What requests rely on\<close>

text \<open>
  \<open>fit T s\<close>: the storage \<open>s\<close> is in order, given that the tasks \<open>T\<close> are in the link channel. Requests do not
  call \<open>UpdateOrder\<close>, they store new orders only, with numbers that pass the check, and of a user a login
  and a password that are long enough, the password as \<open>hp\<close> hashes it.
\<close>

definition registered :: "(string \<Rightarrow> go_error + string) \<Rightarrow> user \<Rightarrow> bool" where
  "registered hp u \<longleftrightarrow> User_Validate u = None \<and> hp (user_Password u) = Inr (user_Hash u)"

definition orderly :: "order \<Rightarrow> bool" where
  "orderly m \<longleftrightarrow> IsValidLuhn (ord_ID m) \<and> Order_Validate m = None"

definition link_open :: "('s, 'c) OrderService \<Rightarrow> bool" where
  "link_open o' \<longleftrightarrow> \<not> chan_closed (os_reports o')"

locale request_storage =
  fixes st :: "'s SQLStorageInterface"
    and fit :: "task list \<Rightarrow> 's \<Rightarrow> bool"
    and hp :: "string \<Rightarrow> go_error + string"
  assumes fit_register: "fit T s \<Longrightarrow> registered hp u \<Longrightarrow> st_AddUser st u s = (x1, t) \<Longrightarrow> fit T t"
    and fit_users:
      "fit T s \<Longrightarrow> st_GetUser st l s = (x2, t) \<Longrightarrow> fit T t" "fit T s \<Longrightarrow> st_GetUserByID st i s = (x3, t) \<Longrightarrow> fit T t"
    and fit_withdraw: "fit T s \<Longrightarrow> IsValidLuhn (wd_OrderID w) \<Longrightarrow> st_AddWithdrawn st w s = (x4, t) \<Longrightarrow> fit T t"
    and fit_withdrawals:
      "fit T s \<Longrightarrow> st_GetWithdrawn st i s = (x5, t) \<Longrightarrow> fit T t" "fit T s \<Longrightarrow> st_ListWithdrawals st i s = (x6, t) \<Longrightarrow> fit T t"
    and fit_orders: "fit T s \<Longrightarrow> st_GetOrder st i j s = (x7, t) \<Longrightarrow> fit T t"
      "fit T s \<Longrightarrow> st_ListOrders st i s = (x8, t) \<Longrightarrow> fit T t"
    and fit_failed: "fit T s \<Longrightarrow> orderly m \<Longrightarrow> st_AddOrder st m s = ((Some e, m'), t) \<Longrightarrow> fit T t"
    and fit_new: "fit T s \<Longrightarrow> orderly (new_order i c) \<Longrightarrow> st_AddOrder st (new_order i c) s = ((None, m'), t) \<Longrightarrow> fit (T @ [m']) t"
    and fit_fewer: "fit (T @ [m]) s \<Longrightarrow> fit T s"
begin

lemma Login_fit: "CommonService_Login cmp st u s = (r, t) \<Longrightarrow> fit T s \<Longrightarrow> fit T t"
  by (auto simp: CommonService_Login_def split: option.splits prod.splits sum.splits if_splits dest: fit_users)

lemma Register_fit: "CommonService_Register hp st u s = (r, t) \<Longrightarrow> user_Hash u = [] \<Longrightarrow> fit T s \<Longrightarrow> fit T t"
  by (auto simp: CommonService_Register_def fillUserIfRequired_def registered_def User_Validate_def MinPasswordLength_def
      split: option.splits prod.splits sum.splits if_splits intro: fit_register [rotated 2])

lemma List_fit:
  "OrderService_List st (Some c) s = (r, t) \<Longrightarrow> fit T s \<Longrightarrow> fit T t \<and> returns r"
  "BalanceService_ListWithdrawals st (Some c) s = (q, t) \<Longrightarrow> fit T s \<Longrightarrow> fit T t \<and> returns q"
  by (auto simp: OrderService_List_def BalanceService_ListWithdrawals_def split: prod.splits
      dest: fit_orders fit_withdrawals)

lemma GetBalanceInfo_fit: "GetBalanceInfo st (Some c) s = (r, t) \<Longrightarrow> fit T s \<Longrightarrow> fit T t \<and> returns r"
  by (auto simp: GetBalanceInfo_def split: prod.splits sum.splits if_splits dest: fit_users fit_withdrawals)

lemma Withdraw_fit: "Withdraw st (Some c) wd s = (r, t) \<Longrightarrow> fit T s \<Longrightarrow> fit T t \<and> returns r"
  by (auto simp: Withdraw_def split: prod.splits if_splits intro: fit_withdraw [rotated 2])

text \<open>The state of the order service: the storage in order, the link channel not overfull, the channel of
pauses open.\<close>

definition sound :: "('s, 'c) OrderService \<Rightarrow> bool" where
  "sound o' \<longleftrightarrow> fit (chan_buf (os_reports o')) (os_db o') \<and> length (chan_buf (os_reports o')) \<le> chan_cap (os_reports o') \<and>
     \<not> chan_closed (os_pause o')"

lemma send_sound:
  assumes "sendOrderToProcessor m o' = (r, t)" "fit (chan_buf (os_reports o') @ [m]) (os_db o')"
    and "length (chan_buf (os_reports o')) \<le> chan_cap (os_reports o')" "\<not> chan_closed (os_pause o')"
  shows "sound t \<and> (link_open o' \<longrightarrow> returns r \<and> link_open t)"
  using assms fit_fewer [OF assms(2)]
  by (auto simp: sendOrderToProcessor_def try_send_def sound_def link_open_def split: if_splits)

lemma Store_sound:
  assumes "OrderService_Store st (Some c) i o' = (r, t)" "sound o'"
  shows "sound t \<and> (link_open o' \<longrightarrow> returns r \<and> link_open t)"
proof (cases "orderly (new_order i c)")
  case False
  with assms(1) have "t = o' \<and> returns r"
    by (auto simp: OrderService_Store_def NewOrder_def new_order_def [symmetric] orderly_def split: if_splits)
  with assms(2) show ?thesis by simp
next
  case True
  obtain e m s1 where a: "st_AddOrder st (new_order i c) (os_db o') = ((e, m), s1)" by (metis prod.collapse)
  show ?thesis
  proof (cases e)
    case (Some x)
    from assms(2) fit_failed [OF _ True a [unfolded Some]]
    have "fit (chan_buf (os_reports o')) s1" "length (chan_buf (os_reports o')) \<le> chan_cap (os_reports o')"
      "\<not> chan_closed (os_pause o')"
      by (auto simp: sound_def)
    with assms a Some show ?thesis
      by (auto simp: OrderService_Store_def NewOrder_def new_order_def [symmetric] link_open_def sound_def
          split: if_splits option.splits sum.splits prod.splits dest: fit_orders)
  next
    case None
    obtain x t1 where b: "sendOrderToProcessor m (o'\<lparr>os_db := s1\<rparr>) = (x, t1)" by fastforce
    from assms(2) fit_new [OF _ True a [unfolded None]]
    have s: "sound t1 \<and> (link_open o' \<longrightarrow> returns x \<and> link_open t1)"
      using send_sound [OF b] by (auto simp: sound_def link_open_def)
    have "(r, t) = (r, o') \<and> returns r \<or> t = t1 \<and> (returns x \<longrightarrow> returns r)"
      using assms(1) a None b
      by (auto simp: OrderService_Store_def NewOrder_def new_order_def [symmetric]
          split: if_splits option.splits outcome.splits)
    with s assms(2) show ?thesis by auto
  qed
qed

end

section \<open>Handlers that cannot fail\<close>

text \<open>With its context set up, claims included where it is behind the token check, a handler keeps what it
relies on, and while the channel is open it does not panic.\<close>

definition safe :: "bool \<Rightarrow> ('s \<Rightarrow> bool) \<Rightarrow> ('s \<Rightarrow> bool) \<Rightarrow> ('w, 's) handler \<Rightarrow> bool" where
  "safe auth ok live h \<longleftrightarrow> (\<forall>r w s res w' s'. req_Logger r \<longrightarrow> (auth \<longrightarrow> req_Claims r \<noteq> None) \<longrightarrow> ok s \<longrightarrow>
     h r (w, s) = (res, w', s') \<longrightarrow> ok s' \<and> (live s \<longrightarrow> res = Returns () \<and> live s'))"

lemma safeI:
  "(\<And>r w s res w' s'. req_Logger r \<Longrightarrow> (auth \<Longrightarrow> \<exists>c. req_Claims r = Some c) \<Longrightarrow> ok s \<Longrightarrow>
     h r (w, s) = (res, w', s') \<Longrightarrow> ok s' \<and> (live s \<longrightarrow> res = Returns () \<and> live s')) \<Longrightarrow> safe auth ok live h"
  unfolding safe_def by blast

lemma safeD:
  assumes "safe auth ok live h" "h r (w, s) = (res, w', s')" "req_Logger r" "auth \<Longrightarrow> req_Claims r \<noteq> None" "ok s"
  shows "ok s' \<and> (live s \<longrightarrow> res = Returns () \<and> live s')"
  using assms unfolding safe_def by blast

lemma safe_protected:
  assumes "safe True ok live h"
  shows "safe False ok live (protected e rw h)"
  by (rule safeI) (auto simp: protected_def JWTAuth_def split: sum.splits if_splits dest!: safeD [OF assms])

lemma safe_compressed:
  assumes "safe a ok live h" "safe a ok live hz"
  shows "safe a ok live (compressed e rw h hz)"
  by (rule safeI) (auto simp: compressed_def Compression_def Let_def split: if_splits option.splits prod.splits
      dest!: safeD [OF assms(1)] safeD [OF assms(2)])

lemmas safe_simps = with_logger_def send_status_def send_json_def Let_def GetClaims_def

abbreviation always :: "'s \<Rightarrow> bool" where "always \<equiv> \<lambda>_. True"

context request_storage
begin

lemma safe_on_db: "(\<And>T. safe a (fit T) always h) \<Longrightarrow> safe a sound link_open (on_db h)"
  unfolding safe_def on_db_def sound_def link_open_def by (auto split: prod.splits)

lemma safe_AddOrder: "safe True sound link_open (handle_AddOrder rw (NewOrderService st))"
  by (rule safeI) (auto simp: handle_AddOrder_def NewOrderService_def safe_simps
      split: if_splits sum.splits prod.splits outcome.splits option.splits dest!: Store_sound)

lemma safe_ListOrders: "safe True sound link_open (handle_ListOrders rw tt (NewOrderService st))"
  by (rule safeI) (auto simp: handle_ListOrders_def NewOrderService_def safe_simps sound_def link_open_def
      split: if_splits sum.splits prod.splits outcome.splits option.splits dest!: List_fit)

lemma safe_balance: "safe True (fit T) always (handle_GetLoyalityBalance rw (NewBalanceService st))"
  by (rule safeI) (auto simp: handle_GetLoyalityBalance_def NewBalanceService_def safe_simps
      split: if_splits sum.splits prod.splits outcome.splits option.splits dest!: GetBalanceInfo_fit)

lemma safe_withdraw: "safe True (fit T) always (handle_WithdrawBalance rw pt (NewBalanceService st))"
  by (rule safeI) (auto simp: handle_WithdrawBalance_def NewBalanceService_def safe_simps
      split: if_splits sum.splits prod.splits outcome.splits option.splits dest!: Withdraw_fit)

lemma safe_withdrawals: "safe True (fit T) always (handle_ListWithdrawals rw tt (NewBalanceService st))"
  by (rule safeI) (auto simp: handle_ListWithdrawals_def NewBalanceService_def safe_simps
      split: if_splits sum.splits prod.splits outcome.splits option.splits dest!: List_fit)

lemma safe_login: "safe False (fit T) always (\<lambda>r. handle_Login rw pt hd' (auth r) (NewCommonService cmp hp st) r)"
  by (rule safeI) (auto simp: handle_Login_def NewCommonService_def issue_token_def safe_simps
      split: if_splits sum.splits prod.splits outcome.splits option.splits dest!: Login_fit)

lemma commonChecks_hash: "commonChecks rw pt r w = (Inr u, w') \<Longrightarrow> user_Hash u = []"
  by (auto simp: commonChecks_def FromJSON_User_def zero_user_def split: if_splits sum.splits option.splits)

lemma safe_register: "safe False (fit T) always (\<lambda>r. handle_Register rw pt hd' (auth r) (NewCommonService cmp hp st) r)"
  by (rule safeI) (auto simp: handle_Register_def NewCommonService_def issue_token_def safe_simps
      split: if_splits sum.splits prod.splits outcome.splits option.splits dest!: Register_fit dest: commonChecks_hash)

lemma safe_route:
  assumes "e_db e = st" "e_hash e = hp" "route e rw m p = Some h"
  shows "safe False sound link_open h"
  using assms(3) unfolding route_def Let_def assms(1,2)
  by (auto split: if_splits intro!: safe_protected safe_compressed safe_on_db safe_AddOrder safe_ListOrders safe_balance
      safe_withdraw safe_withdrawals safe_login safe_register)

lemma serve_sound:
  fixes o' :: "('s, 'c) OrderService"
  assumes "e_db e = st" "e_hash e = hp" "sound o'" "serve e m p r o' = Some (res, resp, t)"
  shows "sound t \<and> (link_open o' \<longrightarrow> res = Returns () \<and> link_open t)"
proof -
  from assms(4) obtain h :: "(_, ('s, 'c) OrderService) handler" where h: "route e LW m p = Some h" by (auto simp: serve_def split: option.splits)
  obtain res' l t' where "h (r\<lparr>req_Claims := None, req_Logger := True\<rparr>) (new_logged, o') = (res', l, t')"
    by (metis prod.collapse)
  with assms(4) safeD [OF safe_route [OF assms(1,2) h] this] assms(3) show ?thesis by (auto simp: serve_route [OF h])
qed

end

text \<open>Where the storage keeps an invariant of its own, the tasks do not matter.\<close>

lemma keeps_good: "keeps good canon f \<Longrightarrow> good s \<Longrightarrow> f s = (r, t) \<Longrightarrow> good t"
  using keepsD [of good canon f s r t] by simp

sublocale storage \<subseteq> request_storage st "\<lambda>T. good" hp for hp :: "string \<Rightarrow> go_error + string"
  by unfold_locales
    (assumption | erule (1) keeps_users [THEN keeps_good] keeps_orders [THEN keeps_good] keeps_withdrawals [THEN keeps_good])+

end
