(* ===== verification/FileStorage.thy ===== *)
theory FileStorage
  imports JsonModels
begin

text \<open>
  \<open>internal/repositories/file\<close>: the dump of the queue as a file, in JSON or in an Avro container. A disk
  holds one file and what will go wrong with the next system calls. The Avro library and the texts
  of times are arguments. A restored list may hold nil pointers (\<open>null\<close> in a JSON list).
\<close>

section \<open>The disk\<close>

text \<open>A call is refused, or a write stops after some bytes.\<close>

datatype io_fault = Refused os_error | CutWrite nat os_error

record disk =
  dk_dir :: "os_error + bool"
  dk_file :: "string option"
  dk_faults :: "io_fault option list"

definition next_fault :: "disk \<Rightarrow> io_fault option \<times> disk" where
  "next_fault d = (case dk_faults d of [] \<Rightarrow> (None, d) | f # fs \<Rightarrow> (f, d\<lparr>dk_faults := fs\<rparr>))"

fun fault_error :: "io_fault \<Rightarrow> os_error" where
  "fault_error (Refused e) = e"
| "fault_error (CutWrite n e) = e"

definition os_Open :: "disk \<Rightarrow> (os_error + string) \<times> disk" where
  "os_Open d = (case next_fault d of
     (Some f, d) \<Rightarrow> (Inl (fault_error f), d)
   | (None, d) \<Rightarrow> (case dk_file d of None \<Rightarrow> (Inl NotExist, d) | Some s \<Rightarrow> (Inr s, d)))"

definition io_ReadAll :: "string \<Rightarrow> disk \<Rightarrow> (os_error + string) \<times> disk" where
  "io_ReadAll s d = (case next_fault d of (Some f, d) \<Rightarrow> (Inl (fault_error f), d) | (None, d) \<Rightarrow> (Inr s, d))"

text \<open>Opening for writing empties the file; then the bytes are added.\<close>

definition os_Create :: "disk \<Rightarrow> os_error option \<times> disk" where
  "os_Create d = (case next_fault d of
     (Some f, d) \<Rightarrow> (Some (fault_error f), d)
   | (None, d) \<Rightarrow> (None, d\<lparr>dk_file := Some []\<rparr>))"

definition append_file :: "string \<Rightarrow> disk \<Rightarrow> disk" where
  "append_file b d = d\<lparr>dk_file := map_option (\<lambda>s. s @ b) (dk_file d)\<rparr>"

definition os_Append :: "string \<Rightarrow> disk \<Rightarrow> os_error option \<times> disk" where
  "os_Append b d = (case next_fault d of
     (Some (Refused e), d) \<Rightarrow> (Some e, d)
   | (Some (CutWrite n e), d) \<Rightarrow> (Some e, append_file (take n b) d)
   | (None, d) \<Rightarrow> (None, append_file b d))"

definition os_WriteFile :: "string \<Rightarrow> disk \<Rightarrow> os_error option \<times> disk" where
  "os_WriteFile b d = (case os_Create d of (Some e, d) \<Rightarrow> (Some e, d) | (None, d) \<Rightarrow> os_Append b d)"

definition os_Remove :: "disk \<Rightarrow> os_error option \<times> disk" where
  "os_Remove d = (case next_fault d of
     (Some f, d) \<Rightarrow> (Some (fault_error f), d)
   | (None, d) \<Rightarrow> if dk_file d = None then (Some NotExist, d) else (None, d\<lparr>dk_file := None\<rparr>))"

section \<open>The interface\<close>

record 'd PersistStorageInterface =
  ps_Save :: "order list \<Rightarrow> 'd \<Rightarrow> go_error option \<times> 'd"
  ps_Restore :: "'d \<Rightarrow> (go_error + order option list) \<times> 'd"
  ps_Erase :: "'d \<Rightarrow> go_error option \<times> 'd"

text \<open>\<open>Erase\<close> of the JSON storage: a file that is not there is no error.\<close>

definition file_Erase :: "disk \<Rightarrow> go_error option \<times> disk" where
  "file_Erase d = (case os_Remove d of
     (Some err, d) \<Rightarrow> if err = NotExist then (None, d) else (Some (OsErr err), d)
   | (None, d) \<Rightarrow> (None, d))"

section \<open>JSON\<close>

definition FromJSON_order :: "(string \<Rightarrow> time option) \<Rightarrow> json \<Rightarrow> order option option" where
  "FromJSON_order parse_time v =
     (if v = JNull then Some None
      else case struct_members v of None \<Rightarrow> None
      | Some ms \<Rightarrow>
          (case (decode_string [] (member_of ''number'' ms), decode_string [] (member_of ''status'' ms),
                 decode_accrual 0 (member_of ''accrual'' ms), decode_time parse_time 0 (member_of ''uploaded'' ms)) of
             (Some i, Some st, Some a, Some t) \<Rightarrow>
               Some (Some (zero_order\<lparr>ord_ID := i, ord_Status := st, ord_Accrual := a, ord_UploadedAt := t\<rparr>))
           | _ \<Rightarrow> None))"

definition FromJSON_orders :: "(string \<Rightarrow> time option) \<Rightarrow> string \<Rightarrow> go_error + order option list" where
  "FromJSON_orders parse_time data =
     (case scan data of
        Some JNull \<Rightarrow> Inr []
      | Some (JArr vs) \<Rightarrow> (case those (map (FromJSON_order parse_time) vs) of None \<Rightarrow> Inl ErrJson | Some ms \<Rightarrow> Inr ms)
      | _ \<Rightarrow> Inl ErrJson)"

definition NewJSONFileStorage :: "disk \<Rightarrow> go_error option" where
  "NewJSONFileStorage d = (case dk_dir d of
     Inl err \<Rightarrow> if err = NotExist then Some (ErrorString ''directory does not exist'')
                else Some (Wrapf ''unable to access directory'' (OsErr err))
   | Inr isDir \<Rightarrow> if \<not> isDir then Some (ErrorString ''path is not a directory'') else None)"

definition JSON_Restore :: "(string \<Rightarrow> time option) \<Rightarrow> disk \<Rightarrow> (go_error + order option list) \<times> disk" where
  "JSON_Restore parse_time d = (case os_Open d of
     (Inl err, d) \<Rightarrow> if err = NotExist then (Inr [], d) else (Inl (OsErr err), d)
   | (Inr s, d) \<Rightarrow> (case io_ReadAll s d of
        (Inl err, d) \<Rightarrow> (Inl (OsErr err), d)
      | (Inr data, d) \<Rightarrow>
          if length data = 0 then (Inr [], d) else (FromJSON_orders parse_time data, d)))"

definition JSON_Save :: "(time \<Rightarrow> string option) \<Rightarrow> order list \<Rightarrow> disk \<Rightarrow> go_error option \<times> disk" where
  "JSON_Save time_text ms d = (case Marshal_list (order_json time_text) ms of
     None \<Rightarrow> (Some ErrJson, d)
   | Some data \<Rightarrow> apfst (map_option OsErr) (os_WriteFile data d))"

definition JSONFileStorage :: "(time \<Rightarrow> string option) \<Rightarrow> (string \<Rightarrow> time option) \<Rightarrow> disk PersistStorageInterface" where
  "JSONFileStorage time_text parse_time =
     \<lparr>ps_Save = JSON_Save time_text, ps_Restore = JSON_Restore parse_time, ps_Erase = file_Erase\<rparr>"

section \<open>Avro\<close>

text \<open>What the reader of the library gives for a value: \<open>any\<close>, of which the code looks at these.\<close>

datatype avro_value = AString string | ALong go_int | AInt go_int | AOther
datatype avro_datum = ARecord "string \<Rightarrow> avro_value option" | ANoRecord

text \<open>
  \<open>goavro\<close>: whether the schema is accepted, the header a new writer emits, the bytes that \<open>Append\<close>
  emits (with an error or not), and for a reader either an error at once or what the rounds of \<open>Scan\<close> and
  \<open>Read\<close> give and the error at the end.
\<close>

record avro_lib =
  av_NewCodec :: "go_error option"
  av_NewOCFWriter :: "go_error + string"
  av_Append :: "avro_datum list \<Rightarrow> go_error option \<times> string"
  av_NewOCFReader :: "string \<Rightarrow> go_error + (go_error + avro_datum) list \<times> go_error option"

definition modelToAvro :: "(time \<Rightarrow> string) \<Rightarrow> order \<Rightarrow> avro_datum" where
  "modelToAvro format m = ARecord [
     ''number'' \<mapsto> AString (ord_ID m), ''user_id'' \<mapsto> AString (ord_UserID m), ''status'' \<mapsto> AString (ord_Status m),
     ''accrual'' \<mapsto> ALong (ord_Accrual m), ''uploaded_at'' \<mapsto> AString (format (ord_UploadedAt m)),
     ''updated_at'' \<mapsto> AString (format (ord_UpdatedAt m))]"

definition avro_string :: "string \<Rightarrow> avro_value option \<Rightarrow> (string \<Rightarrow> order \<Rightarrow> order) \<Rightarrow> go_error + order \<Rightarrow> go_error + order" where
  "avro_string msg v set_field r = (case r of Inl err \<Rightarrow> Inl err
     | Inr m \<Rightarrow> (case v of None \<Rightarrow> Inr m | Some (AString s) \<Rightarrow> Inr (set_field s m) | Some _ \<Rightarrow> Inl (ErrorString msg)))"

definition avro_time :: "(string \<Rightarrow> time option) \<Rightarrow> avro_value option \<Rightarrow> (time \<Rightarrow> order \<Rightarrow> order) \<Rightarrow> order \<Rightarrow> order" where
  "avro_time parse v set_field m = (case v of
     Some (AString s) \<Rightarrow> (case parse s of None \<Rightarrow> m | Some t \<Rightarrow> set_field t m)
   | _ \<Rightarrow> m)"

definition avroToModel :: "(string \<Rightarrow> time option) \<Rightarrow> avro_datum \<Rightarrow> go_error + order" where
  "avroToModel parse datum = (case datum of
     ANoRecord \<Rightarrow> Inl (ErrorString ''wrong Avro-record format'')
   | ARecord rec \<Rightarrow>
       (let r = Inr zero_order;
            r = avro_string ''can't convert number field'' (rec ''number'') (\<lambda>s m. m\<lparr>ord_ID := s\<rparr>) r;
            r = avro_string ''can't convert user_id field'' (rec ''user_id'') (\<lambda>s m. m\<lparr>ord_UserID := s\<rparr>) r;
            r = avro_string ''can't convert status field'' (rec ''status'') (\<lambda>s m. m\<lparr>ord_Status := s\<rparr>) r
        in case r of Inl err \<Rightarrow> Inl err
         | Inr m \<Rightarrow>
             (let m = (case rec ''accrual'' of
                         Some (ALong v) \<Rightarrow> m\<lparr>ord_Accrual := v\<rparr> | Some (AInt v) \<Rightarrow> m\<lparr>ord_Accrual := v\<rparr> | _ \<Rightarrow> m);
                  m = avro_time parse (rec ''uploaded_at'') (\<lambda>t m. m\<lparr>ord_UploadedAt := t\<rparr>) m;
                  m = avro_time parse (rec ''updated_at'') (\<lambda>t m. m\<lparr>ord_UpdatedAt := t\<rparr>) m
              in Inr m)))"

definition NewAvroFileStorage :: "avro_lib \<Rightarrow> go_error option" where
  "NewAvroFileStorage lib = map_option (Wrapf ''can't create Avro-codec: '') (av_NewCodec lib)"

text \<open>The loop over \<open>Scan\<close>: the first error ends it.\<close>

fun avro_scan :: "(string \<Rightarrow> time option) \<Rightarrow> (go_error + avro_datum) list \<Rightarrow> go_error option \<Rightarrow> order list \<Rightarrow> go_error + order list" where
  "avro_scan parse [] end_err orders' = (case end_err of Some err \<Rightarrow> Inl err | None \<Rightarrow> Inr orders')"
| "avro_scan parse (Inl err # rs) end_err orders' = Inl err"
| "avro_scan parse (Inr datum # rs) end_err orders' =
     (case avroToModel parse datum of
        Inl err \<Rightarrow> Inl (Wrapf ''error has been occurred while reading Avro-file: '' err)
      | Inr m \<Rightarrow> avro_scan parse rs end_err (orders' @ [m]))"

text \<open>
  The reader reads the file itself; a failing read shows as an error of \<open>NewOCFReader\<close>, which
  \<open>Restore\<close> takes for an empty dump.
\<close>

definition Avro_Restore :: "avro_lib \<Rightarrow> (string \<Rightarrow> time option) \<Rightarrow> disk \<Rightarrow> (go_error + order option list) \<times> disk" where
  "Avro_Restore lib parse d = (case os_Open d of
     (Inl err, d) \<Rightarrow> if err = NotExist then (Inr [], d) else (Inl (OsErr err), d)
   | (Inr s, d) \<Rightarrow>
       (case io_ReadAll s d of
          (Inl err, d) \<Rightarrow> (Inr [], d)
        | (Inr s, d) \<Rightarrow>
            (case av_NewOCFReader lib s of
               Inl err \<Rightarrow> (Inr [], d)
             | Inr (rs, end_err) \<Rightarrow>
                 (case avro_scan parse rs end_err [] of Inl err \<Rightarrow> (Inl err, d) | Inr ms \<Rightarrow> (Inr (map Some ms), d)))))"

definition Avro_Save :: "avro_lib \<Rightarrow> (time \<Rightarrow> string) \<Rightarrow> order list \<Rightarrow> disk \<Rightarrow> go_error option \<times> disk" where
  "Avro_Save lib format ms d = (case os_Create d of
     (Some err, d) \<Rightarrow> (Some (OsErr err), d)
   | (None, d) \<Rightarrow>
       (case av_NewOCFWriter lib of
          Inl err \<Rightarrow> (Some err, d)
        | Inr header \<Rightarrow>
            (case os_Append header d of
               (Some err, d) \<Rightarrow> (Some (OsErr err), d)
             | (None, d) \<Rightarrow>
                 (let dataToWrite = map (modelToAvro format) ms
                  in if length dataToWrite > 0
                     then (case av_Append lib dataToWrite of
                             (Some err, b) \<Rightarrow> (Some err, snd (os_Append b d))
                           | (None, b) \<Rightarrow> apfst (map_option OsErr) (os_Append b d))
                     else (None, d)))))"

definition Avro_Erase :: "disk \<Rightarrow> go_error option \<times> disk" where
  "Avro_Erase d = (case os_Remove d of
     (Some err, d) \<Rightarrow> if err = NotExist then (None, d) else (Some (OsErr err), d)
   | (None, d) \<Rightarrow> (None, d))"

lemma Avro_Erase_same: "Avro_Erase = file_Erase"
  by (simp add: fun_eq_iff Avro_Erase_def file_Erase_def)

definition AvroFileStorage :: "avro_lib \<Rightarrow> (time \<Rightarrow> string) \<Rightarrow> (string \<Rightarrow> time option) \<Rightarrow> disk PersistStorageInterface" where
  "AvroFileStorage lib format parse =
     \<lparr>ps_Save = Avro_Save lib format, ps_Restore = Avro_Restore lib parse, ps_Erase = Avro_Erase\<rparr>"

text \<open>The factory: every type but \<open>json\<close> is Avro.\<close>

definition NewFileStorage :: "(time \<Rightarrow> string option) \<Rightarrow> (string \<Rightarrow> time option) \<Rightarrow> avro_lib \<Rightarrow> (time \<Rightarrow> string) \<Rightarrow>
    (string \<Rightarrow> time option) \<Rightarrow> string \<Rightarrow> disk \<Rightarrow> go_error + disk PersistStorageInterface" where
  "NewFileStorage time_text parse_time lib format parse storageType d =
     (if storageType = ''json''
      then (case NewJSONFileStorage d of Some err \<Rightarrow> Inl err | None \<Rightarrow> Inr (JSONFileStorage time_text parse_time))
      else (case NewAvroFileStorage lib of Some err \<Rightarrow> Inl err | None \<Rightarrow> Inr (AvroFileStorage lib format parse)))"

section \<open>What a user of the interface relies on\<close>

text \<open>
  On a disk without faults a list that was saved comes back as its image, once: after \<open>Erase\<close> there is
  nothing. \<open>Restore\<close> never touches the content.
\<close>

locale persist_storage =
  fixes ps :: "'d PersistStorageInterface"
    and calm :: "'d \<Rightarrow> bool"
    and content :: "'d \<Rightarrow> string option"
    and storable :: "order list \<Rightarrow> bool"
    and image :: "order \<Rightarrow> order"
  assumes saved: "storable ms \<Longrightarrow> ps_Save ps ms d = (None, d1) \<Longrightarrow> calm d1 \<Longrightarrow>
      \<exists>d2. ps_Restore ps d1 = (Inr (map (Some \<circ> image) ms), d2) \<and> calm d2"
    and erased: "calm d \<Longrightarrow> \<exists>d'. ps_Erase ps d = (None, d') \<and> calm d' \<and> content d' = None"
    and none_left: "calm d \<Longrightarrow> content d = None \<Longrightarrow> \<exists>d'. ps_Restore ps d = (Inr [], d') \<and> calm d'"
    and untouched: "content (snd (ps_Restore ps d)) = content d"
begin

text \<open>A dump is handed out exactly once.\<close>

lemma restored_once:
  assumes "storable ms" "ps_Save ps ms d = (None, d1)" "calm d1"
  shows "\<exists>d2 d3 d4. ps_Restore ps d1 = (Inr (map (Some \<circ> image) ms), d2) \<and> ps_Erase ps d2 = (None, d3) \<and>
    ps_Restore ps d3 = (Inr [], d4)"
proof -
  obtain d2 where d2: "ps_Restore ps d1 = (Inr (map (Some \<circ> image) ms), d2)" "calm d2" using saved [OF assms] by blast
  from erased [OF d2(2)] obtain d3 where d3: "ps_Erase ps d2 = (None, d3)" "calm d3" "content d3 = None" by blast
  from none_left [OF d3(2,3)] obtain d4 where d4: "ps_Restore ps d3 = (Inr [], d4)" by (elim exE conjE)
  show ?thesis by (intro exI conjI) (rule d2(1), rule d3(1), rule d4)
qed

end

definition calm_disk :: "disk \<Rightarrow> bool" where
  "calm_disk d \<longleftrightarrow> dk_faults d = []"

lemma calm_open: "calm_disk d \<Longrightarrow> os_Open d = (case dk_file d of None \<Rightarrow> (Inl NotExist, d) | Some s \<Rightarrow> (Inr s, d))"
  by (simp add: calm_disk_def os_Open_def next_fault_def)

lemma calm_read: "calm_disk d \<Longrightarrow> io_ReadAll s d = (Inr s, d)"
  by (simp add: calm_disk_def io_ReadAll_def next_fault_def)

lemma next_fault_file: "next_fault d = (f, d') \<Longrightarrow> dk_file d' = dk_file d"
  by (auto simp: next_fault_def split: list.splits)

lemma erase_calm: "calm_disk d \<Longrightarrow> \<exists>d'. file_Erase d = (None, d') \<and> calm_disk d' \<and> dk_file d' = None"
  by (cases "dk_file d") (simp_all add: file_Erase_def os_Remove_def calm_disk_def next_fault_def)

lemma read_keeps: "dk_file (snd (os_Open d)) = dk_file d" "dk_file (snd (io_ReadAll s d)) = dk_file d"
  by (auto simp: os_Open_def io_ReadAll_def dest: next_fault_file split: prod.splits option.splits)

lemma os_Create_ok: "os_Create d = (None, d') \<Longrightarrow> dk_file d' = Some []"
  by (auto simp: os_Create_def split: prod.splits option.splits)

lemma os_Append_ok: "os_Append b d = (None, d') \<Longrightarrow> dk_file d' = map_option (\<lambda>s. s @ b) (dk_file d)"
  by (auto simp: os_Append_def append_file_def dest: next_fault_file split: prod.splits option.splits io_fault.splits)

subsection \<open>JSON\<close>

text \<open>The user and the time of the last change are not part of the document.\<close>

definition json_image :: "order \<Rightarrow> order" where
  "json_image m = m\<lparr>ord_UserID := [], ord_UpdatedAt := 0\<rparr>"

definition json_storable :: "(time \<Rightarrow> string option) \<Rightarrow> (string \<Rightarrow> time option) \<Rightarrow> order list \<Rightarrow> bool" where
  "json_storable time_text parse_time ms \<longleftrightarrow> (\<forall>m\<in>set ms. valid_utf8 (ord_ID m) \<and> valid_utf8 (ord_Status m) \<and>
     \<bar>sint (ord_Accrual m)\<bar> \<le> 2 ^ 50 \<and>
     (\<forall>s. time_text (ord_UploadedAt m) = Some s \<longrightarrow> valid_utf8 s \<and> parse_time s = Some (ord_UploadedAt m)))"

lemma json_order_image:
  assumes "json_storable tt pt ms" "m \<in> set ms" "order_json tt m = Some v"
  shows "FromJSON_order pt v = Some (Some (json_image m))"
proof -
  obtain t where t: "tt (ord_UploadedAt m) = Some t" and v: "v = JObj ([(''number'', JStr (ord_ID m)), (''status'', JStr (ord_Status m))] @
      (if ord_Accrual m = 0 then [] else [(''accrual'', JNum (MarshalJSON (ord_Accrual m)))]) @ [(''uploaded'', JStr t)])"
    using assms(3) by (auto simp: order_json_def dest!: accrual_json_eq split: option.splits)
  have a: "Accrual_UnmarshalJSON (JNum (MarshalJSON (ord_Accrual m))) = Some (ord_Accrual m)" "pt t = Some (ord_UploadedAt m)"
    using assms(1,2) t accrual_read by (auto simp: json_storable_def)
  show ?thesis
    unfolding v using a
    by (cases m) (simp add: FromJSON_order_def member_of_def to_lower_def json_image_def zero_order_def
        del: Accrual_UnmarshalJSON.simps)
qed

lemma those_image: "list_all2 (\<lambda>v x. f v = Some (g x)) vs xs \<Longrightarrow> those (map f vs) = Some (map g xs)"
  by (induction vs xs rule: list_all2_induct) auto

lemma json_read_back:
  assumes "json_storable tt pt ms" "Marshal_list (order_json tt) ms = Some b"
  shows "FromJSON_orders pt b = Inr (map (Some \<circ> json_image) ms)" "b \<noteq> []"
proof -
  obtain vs where vs: "scan b = Some (JArr vs)" "list_all2 (\<lambda>v m. order_json tt m = Some v) vs ms"
    using orders_scanned [OF assms(2)] assms(1) by (auto simp: json_storable_def)
  have "list_all2 (\<lambda>v m. FromJSON_order pt v = Some ((Some \<circ> json_image) m)) vs ms"
    using vs(2) by (rule list.rel_mono_strong) (use json_order_image [OF assms(1)] in simp)
  from those_image [OF this] show "FromJSON_orders pt b = Inr (map (Some \<circ> json_image) ms)"
    by (simp add: FromJSON_orders_def vs(1))
  show "b \<noteq> []" using assms(2) by (auto simp: Marshal_list_def)
qed

interpretation json_file: persist_storage "JSONFileStorage tt pt" calm_disk dk_file "json_storable tt pt" json_image
  for tt :: "time \<Rightarrow> string option" and pt :: "string \<Rightarrow> time option"
proof
  fix d d1 :: disk and ms :: "order list"
  show "calm_disk d \<Longrightarrow> \<exists>d'. ps_Erase (JSONFileStorage tt pt) d = (None, d') \<and> calm_disk d' \<and> dk_file d' = None"
    using erase_calm by (simp add: JSONFileStorage_def)
  show "calm_disk d \<Longrightarrow> dk_file d = None \<Longrightarrow>
      \<exists>d'. ps_Restore (JSONFileStorage tt pt) d = (Inr [], d') \<and> calm_disk d'"
    by (simp add: JSONFileStorage_def JSON_Restore_def calm_open)
  show "dk_file (snd (ps_Restore (JSONFileStorage tt pt) d)) = dk_file d"
    using read_keeps by (auto simp: JSONFileStorage_def JSON_Restore_def split: prod.splits sum.splits) (metis snd_conv)+
  assume a: "json_storable tt pt ms" "ps_Save (JSONFileStorage tt pt) ms d = (None, d1)" "calm_disk d1"
  obtain b where b: "Marshal_list (order_json tt) ms = Some b"
    using a(2) by (auto simp: JSONFileStorage_def JSON_Save_def split: option.splits)
  then have "os_WriteFile b d = (None, d1)"
    using a(2) by (cases "os_WriteFile b d") (auto simp: JSONFileStorage_def JSON_Save_def)
  then have "dk_file d1 = Some b"
    by (auto simp: os_WriteFile_def dest!: os_Create_ok os_Append_ok split: prod.splits option.splits)
  then show "\<exists>d2. ps_Restore (JSONFileStorage tt pt) d1 = (Inr (map (Some \<circ> json_image) ms), d2) \<and> calm_disk d2"
    using a(3) json_read_back [OF a(1) b]
    by (simp add: JSONFileStorage_def JSON_Restore_def calm_open calm_read)
qed

subsection \<open>Avro\<close>

text \<open>The texts of times have no fractions of a second.\<close>

definition avro_image :: "(time \<Rightarrow> string) \<Rightarrow> (string \<Rightarrow> time option) \<Rightarrow> order \<Rightarrow> order" where
  "avro_image format parse m =
     m\<lparr>ord_UploadedAt := (case parse (format (ord_UploadedAt m)) of None \<Rightarrow> 0 | Some t \<Rightarrow> t),
       ord_UpdatedAt := (case parse (format (ord_UpdatedAt m)) of None \<Rightarrow> 0 | Some t \<Rightarrow> t)\<rparr>"

text \<open>The documented behaviour of the library for a list: what its writer emits, its reader gives back.\<close>

definition avro_storable :: "avro_lib \<Rightarrow> (time \<Rightarrow> string) \<Rightarrow> order list \<Rightarrow> bool" where
  "avro_storable lib format ms \<longleftrightarrow> (\<forall>header. av_NewOCFWriter lib = Inr header \<longrightarrow>
     av_NewOCFReader lib (header @ (if ms = [] then [] else snd (av_Append lib (map (modelToAvro format) ms))))
       = Inr (map (Inr \<circ> modelToAvro format) ms, None))"

lemma avroToModel_modelToAvro: "avroToModel parse (modelToAvro format m) = Inr (avro_image format parse m)"
  by (cases m) (simp add: avroToModel_def modelToAvro_def avro_string_def avro_time_def avro_image_def zero_order_def Let_def
      split: option.splits)

lemma avro_scan_models:
  "avro_scan parse (map (Inr \<circ> modelToAvro format) ms) None acc = Inr (acc @ map (avro_image format parse) ms)"
  by (induction ms arbitrary: acc) (simp_all add: avroToModel_modelToAvro)

interpretation avro_file: persist_storage "AvroFileStorage lib format parse" calm_disk dk_file
    "avro_storable lib format" "avro_image format parse"
  for lib :: avro_lib and format :: "time \<Rightarrow> string" and parse :: "string \<Rightarrow> time option"
proof
  fix d d1 :: disk and ms :: "order list"
  show "calm_disk d \<Longrightarrow> \<exists>d'. ps_Erase (AvroFileStorage lib format parse) d = (None, d') \<and> calm_disk d' \<and> dk_file d' = None"
    using erase_calm by (simp add: AvroFileStorage_def Avro_Erase_same)
  show "calm_disk d \<Longrightarrow> dk_file d = None \<Longrightarrow>
      \<exists>d'. ps_Restore (AvroFileStorage lib format parse) d = (Inr [], d') \<and> calm_disk d'"
    by (simp add: AvroFileStorage_def Avro_Restore_def calm_open)
  show "dk_file (snd (ps_Restore (AvroFileStorage lib format parse) d)) = dk_file d"
    using read_keeps by (auto simp: AvroFileStorage_def Avro_Restore_def split: prod.splits sum.splits) (metis snd_conv)+
  assume a: "avro_storable lib format ms" "ps_Save (AvroFileStorage lib format parse) ms d = (None, d1)" "calm_disk d1"
  obtain header where h: "av_NewOCFWriter lib = Inr header"
    "dk_file d1 = Some (header @ (if ms = [] then [] else snd (av_Append lib (map (modelToAvro format) ms))))"
    using a(2) by (auto simp: AvroFileStorage_def Avro_Save_def Let_def apfst_def map_prod_def
        dest!: os_Create_ok os_Append_ok split: prod.splits option.splits sum.splits if_splits)
  then show "\<exists>d2. ps_Restore (AvroFileStorage lib format parse) d1 = (Inr (map (Some \<circ> avro_image format parse) ms), d2) \<and> calm_disk d2"
    using a(1,3) by (simp add: AvroFileStorage_def Avro_Restore_def calm_open calm_read avro_storable_def avro_scan_models)
qed

end
