(* ===== verification/WorkerPool.thy ===== *)
theory WorkerPool
  imports AccrualTasks FileStorage "HOL-Library.Multiset"
begin

text \<open>
  \<open>internal/processors\<close>: the pool as a state with three kinds of goroutines. The reader moves tasks
  from the link channel to the stack of pending tasks and wakes the dispatcher, the dispatcher hands
  the last pending task to the workers or sleeps when it is told to, the workers run
  \<open>ProcessAccrualTask\<close>, which may send tasks and pauses. A step is one goroutine moving from one
  blocking point or lock to the next. The order service is part of the state, as it owns both channels.
\<close>

section \<open>State\<close>

datatype reader = Reading | Appending task | Nudging | ReaderDone
datatype dispatcher = Waiting | Popping | Offering task | Sleeping bool | Dumping "task list" | DispatcherDone
datatype worker = Idle | Working task | Answered task "go_error + accrual_response" | Sending task order | WorkerDone

text \<open>
  \<open>hasTasks\<close> holds at most one token. \<open>wp_cancelled\<close> is the pool's own context, \<open>wp_parent\<close> the one it
  comes from. The last three fields are not in the code: what was sent into the link channel or
  restored from a dump, what workers have finished with, what a dump took out of the work channel.
\<close>

record ('s, 'c, 'd) pool =
  wp_workers :: "worker list"
  wp_workerCh :: "task chan"
  wp_pendingTasks :: "task list"
  wp_hasTasks :: bool
  wp_reader :: reader
  wp_dispatcher :: dispatcher
  wp_service :: "('s, 'c) OrderService"
  wp_dumper :: 'd
  wp_cancelled :: bool
  wp_parent :: bool
  wp_crashed :: "go_panic option"
  wp_sent :: "task list"
  wp_finished :: "task list"
  wp_drained :: "task list"

abbreviation taskCh :: "('s, 'c, 'd) pool \<Rightarrow> task chan" where "taskCh p \<equiv> os_reports (wp_service p)"
abbreviation pauseCh :: "('s, 'c, 'd) pool \<Rightarrow> go_int chan" where "pauseCh p \<equiv> os_pause (wp_service p)"

definition ctx_done :: "('s, 'c, 'd) pool \<Rightarrow> bool" where
  "ctx_done p \<longleftrightarrow> wp_cancelled p \<or> wp_parent p"

text \<open>\<open>NewQueueProcessor\<close>; making the identifiers of the workers may fail.\<close>

definition NewQueueProcessor :: "go_error option \<Rightarrow> nat \<Rightarrow> nat \<Rightarrow> ('s, 'c) OrderService \<Rightarrow> 'd \<Rightarrow>
    go_error + ('s, 'c, 'd) pool" where
  "NewQueueProcessor uuid_err poolSize bufSize svc dumper =
     (if 0 < poolSize \<and> uuid_err \<noteq> None then Inl (the uuid_err)
      else Inr \<lparr>wp_workers = replicate poolSize Idle, wp_workerCh = make_chan bufSize, wp_pendingTasks = [],
        wp_hasTasks = False, wp_reader = Reading, wp_dispatcher = Waiting, wp_service = svc,
        wp_dumper = dumper, wp_cancelled = False, wp_parent = False, wp_crashed = None,
        wp_sent = chan_buf (os_reports svc), wp_finished = [], wp_drained = []\<rparr>)"

section \<open>Operations\<close>

definition Stop :: "('s, 'c, 'd) pool \<Rightarrow> ('s, 'c, 'd) pool" where
  "Stop p = p\<lparr>wp_cancelled := True\<rparr>"

definition push_pending :: "task \<Rightarrow> ('s, 'c, 'd) pool \<Rightarrow> ('s, 'c, 'd) pool" where
  "push_pending t p = p\<lparr>wp_pendingTasks := wp_pendingTasks p @ [t]\<rparr>"

definition set_workerCh :: "task list \<Rightarrow> ('s, 'c, 'd) pool \<Rightarrow> ('s, 'c, 'd) pool" where
  "set_workerCh ts p = p\<lparr>wp_workerCh := (wp_workerCh p)\<lparr>chan_buf := ts\<rparr>\<rparr>"

definition set_taskCh :: "task list \<Rightarrow> ('s, 'c, 'd) pool \<Rightarrow> ('s, 'c, 'd) pool" where
  "set_taskCh ts p = p\<lparr>wp_service := (wp_service p)\<lparr>os_reports := (taskCh p)\<lparr>chan_buf := ts\<rparr>\<rparr>\<rparr>"

definition set_pauseCh :: "go_int list \<Rightarrow> ('s, 'c, 'd) pool \<Rightarrow> ('s, 'c, 'd) pool" where
  "set_pauseCh ds p = p\<lparr>wp_service := (wp_service p)\<lparr>os_pause := (pauseCh p)\<lparr>chan_buf := ds\<rparr>\<rparr>\<rparr>"

text \<open>
  \<open>dumpQueue\<close>: first a copy of the pending tasks, which stay pending (the code reads the slice without the
  lock; the copy here is of the slice as it is at one moment, which is what a \<open>range\<close> gives when the read
  does not race with an append); then, one by one, what is still in the
  work channel, beside workers that may take from it too; then the dump is written.
\<close>

definition dumpQueue :: "('s, 'c, 'd) pool \<Rightarrow> ('s, 'c, 'd) pool" where
  "dumpQueue p = p\<lparr>wp_dispatcher := Dumping (wp_pendingTasks p)\<rparr>"

definition dumpQueue_take :: "task \<Rightarrow> task list \<Rightarrow> task list \<Rightarrow> ('s, 'c, 'd) pool \<Rightarrow> ('s, 'c, 'd) pool" where
  "dumpQueue_take t ts orders' p =
     (set_workerCh ts p)\<lparr>wp_drained := wp_drained p @ [t], wp_dispatcher := Dumping (orders' @ [t])\<rparr>"

definition dumpQueue_save :: "'d PersistStorageInterface \<Rightarrow> task list \<Rightarrow> ('s, 'c, 'd) pool \<Rightarrow> ('s, 'c, 'd) pool" where
  "dumpQueue_save ps orders' p =
     p\<lparr>wp_dumper := snd (ps_Save ps orders' (wp_dumper p)), wp_dispatcher := DispatcherDone\<rparr>"

text \<open>\<open>sleepForAWhile\<close> begins with \<open>time.NewTicker\<close>, which panics unless the delay is positive. Time is abstract: a
sleeper may wake up at any moment, be it the ticker or the context.\<close>

definition sleepForAWhile :: "bool \<Rightarrow> go_int \<Rightarrow> ('s, 'c, 'd) pool \<Rightarrow> ('s, 'c, 'd) pool" where
  "sleepForAWhile inner delay p =
     (if 0 <s delay then p\<lparr>wp_dispatcher := Sleeping inner\<rparr> else p\<lparr>wp_crashed := Some NonPositiveTicker\<rparr>)"

text \<open>
  \<open>RestoreQueue\<close>. A nil order in the dump is dereferenced, with the dump gone already. \<open>None\<close>: the send
  to \<open>hasTasks\<close> blocks for ever, holding the lock, when the token is there already.
\<close>

definition RestoreQueue :: "'d PersistStorageInterface \<Rightarrow> ('s, 'c, 'd) pool \<Rightarrow> ('s, 'c, 'd) pool outcome option" where
  "RestoreQueue ps p =
     (case ps_Restore ps (wp_dumper p) of
        (Inl err, d) \<Rightarrow> Some (Returns (p\<lparr>wp_dumper := d\<rparr>))
      | (Inr orders', d) \<Rightarrow>
          (case ps_Erase ps d of
             (Some err, d) \<Rightarrow> Some (Returns (p\<lparr>wp_dumper := d\<rparr>))
           | (None, d) \<Rightarrow>
               (case those orders' of
                  None \<Rightarrow> Some (Panics NilDereference)
                | Some ts \<Rightarrow>
                    (let p = p\<lparr>wp_dumper := d, wp_pendingTasks := wp_pendingTasks p @ ts, wp_sent := wp_sent p @ ts\<rparr>
                     in if length orders' > 0
                        then if wp_hasTasks p then None else Some (Returns (p\<lparr>wp_hasTasks := True\<rparr>))
                        else Some (Returns p)))))"

section \<open>Steps\<close>

text \<open>\<open>run\<close>, the reader.\<close>

inductive run_step :: "('s, 'c, 'd) pool \<Rightarrow> ('s, 'c, 'd) pool \<Rightarrow> bool" where
  run_done: "wp_reader p = Reading \<Longrightarrow> ctx_done p \<Longrightarrow> run_step p ((Stop p)\<lparr>wp_reader := ReaderDone\<rparr>)"
| run_receive: "wp_reader p = Reading \<Longrightarrow> chan_buf (taskCh p) = t # ts \<Longrightarrow>
    run_step p ((set_taskCh ts p)\<lparr>wp_reader := Appending t\<rparr>)"
| run_closed: "wp_reader p = Reading \<Longrightarrow> chan_buf (taskCh p) = [] \<Longrightarrow> chan_closed (taskCh p) \<Longrightarrow>
    run_step p (p\<lparr>wp_reader := ReaderDone\<rparr>)"
| run_append: "wp_reader p = Appending t \<Longrightarrow> run_step p ((push_pending t p)\<lparr>wp_reader := Nudging\<rparr>)"
| run_nudge: "wp_reader p = Nudging \<Longrightarrow> run_step p (p\<lparr>wp_hasTasks := True, wp_reader := Reading\<rparr>)"

text \<open>
  \<open>runDispatcher\<close>. The outer \<open>select\<close> is \<open>Waiting\<close>, the head of the inner loop \<open>Popping\<close>, the inner \<open>select\<close>
  \<open>Offering\<close>; a pause remembers which of the two loops it came from. An unbuffered work channel
  hands its task to an idle worker. A closed pause channel would end the dispatcher, its task lost; a
  closed work channel would keep a dump busy for ever, as the \<open>break\<close> there leaves the \<open>select\<close> only.
\<close>

inductive dispatch_step :: "'d PersistStorageInterface \<Rightarrow> ('s, 'c, 'd) pool \<Rightarrow> ('s, 'c, 'd) pool \<Rightarrow> bool"
  for ps :: "'d PersistStorageInterface" where
  wait_done: "wp_dispatcher p = Waiting \<Longrightarrow> ctx_done p \<Longrightarrow>
    dispatch_step ps p (dumpQueue p)"
| wait_pause: "wp_dispatcher p = Waiting \<Longrightarrow> chan_buf (pauseCh p) = delay # ds \<Longrightarrow>
    dispatch_step ps p (sleepForAWhile False delay (set_pauseCh ds p))"
| wait_closed: "wp_dispatcher p = Waiting \<Longrightarrow> chan_buf (pauseCh p) = [] \<Longrightarrow> chan_closed (pauseCh p) \<Longrightarrow>
    dispatch_step ps p (p\<lparr>wp_dispatcher := DispatcherDone\<rparr>)"
| wait_tasks: "wp_dispatcher p = Waiting \<Longrightarrow> wp_hasTasks p \<Longrightarrow>
    dispatch_step ps p (p\<lparr>wp_hasTasks := False, wp_dispatcher := Popping\<rparr>)"
| pop_none: "wp_dispatcher p = Popping \<Longrightarrow> wp_pendingTasks p = [] \<Longrightarrow>
    dispatch_step ps p (p\<lparr>wp_dispatcher := Waiting\<rparr>)"
| pop_last: "wp_dispatcher p = Popping \<Longrightarrow> wp_pendingTasks p \<noteq> [] \<Longrightarrow>
    dispatch_step ps p (p\<lparr>wp_pendingTasks := butlast (wp_pendingTasks p),
      wp_dispatcher := Offering (last (wp_pendingTasks p))\<rparr>)"
| offer: "wp_dispatcher p = Offering t \<Longrightarrow> \<not> chan_closed (wp_workerCh p) \<Longrightarrow>
    length (chan_buf (wp_workerCh p)) < chan_cap (wp_workerCh p) \<Longrightarrow>
    dispatch_step ps p ((set_workerCh (chan_buf (wp_workerCh p) @ [t]) p)\<lparr>wp_dispatcher := Popping\<rparr>)"
| hand_over: "wp_dispatcher p = Offering t \<Longrightarrow> \<not> chan_closed (wp_workerCh p) \<Longrightarrow> chan_cap (wp_workerCh p) = 0 \<Longrightarrow>
    i < length (wp_workers p) \<Longrightarrow> wp_workers p ! i = Idle \<Longrightarrow>
    dispatch_step ps p (p\<lparr>wp_workers := (wp_workers p)[i := Working t], wp_dispatcher := Popping\<rparr>)"
| offer_pause: "wp_dispatcher p = Offering t \<Longrightarrow> chan_buf (pauseCh p) = delay # ds \<Longrightarrow>
    dispatch_step ps p (sleepForAWhile True delay (push_pending t (set_pauseCh ds p)\<lparr>wp_dispatcher := Popping\<rparr>))"
| offer_closed: "wp_dispatcher p = Offering t \<Longrightarrow> chan_buf (pauseCh p) = [] \<Longrightarrow> chan_closed (pauseCh p) \<Longrightarrow>
    dispatch_step ps p (p\<lparr>wp_dispatcher := DispatcherDone\<rparr>)"
| offer_done: "wp_dispatcher p = Offering t \<Longrightarrow> ctx_done p \<Longrightarrow>
    dispatch_step ps p (dumpQueue (push_pending t p))"
| dump_take: "wp_dispatcher p = Dumping ts' \<Longrightarrow> chan_buf (wp_workerCh p) = t # ts \<Longrightarrow>
    dispatch_step ps p (dumpQueue_take t ts ts' p)"
| dump_spin: "wp_dispatcher p = Dumping ts' \<Longrightarrow> chan_buf (wp_workerCh p) = [] \<Longrightarrow> chan_closed (wp_workerCh p) \<Longrightarrow>
    dispatch_step ps p p"
| dump_save: "wp_dispatcher p = Dumping ts' \<Longrightarrow> chan_buf (wp_workerCh p) = [] \<Longrightarrow> \<not> chan_closed (wp_workerCh p) \<Longrightarrow>
    dispatch_step ps p (dumpQueue_save ps ts' p)"
| wake_up: "wp_dispatcher p = Sleeping inner \<Longrightarrow>
    dispatch_step ps p (p\<lparr>wp_dispatcher := (if inner then Popping else Waiting)\<rparr>)"

text \<open>
  \<open>Worker.Run\<close> of the \<open>i\<close>-th worker. Its action is \<open>ProcessAccrualTask\<close> in phases: \<open>Working\<close>, about to ask the
  accrual service; \<open>Answered\<close>, with the answer at hand; \<open>Sending\<close>, about to send an order back.
\<close>

definition new_tasks :: "('s, 'c) OrderService \<Rightarrow> ('s, 'c) OrderService \<Rightarrow> task list" where
  "new_tasks svc svc' = drop (length (chan_buf (os_reports svc))) (chan_buf (os_reports svc'))"

inductive worker_step :: "'s SQLStorageInterface \<Rightarrow> (string \<Rightarrow> 'c \<Rightarrow> (go_error + accrual_response) \<times> 'c) \<Rightarrow>
    nat \<Rightarrow> ('s, 'c, 'd) pool \<Rightarrow> ('s, 'c, 'd) pool \<Rightarrow> bool"
  for db :: "'s SQLStorageInterface" and get :: "string \<Rightarrow> 'c \<Rightarrow> (go_error + accrual_response) \<times> 'c" and i :: nat where
  work_done: "i < length (wp_workers p) \<Longrightarrow> wp_workers p ! i = Idle \<Longrightarrow>
    ctx_done p \<or> chan_buf (wp_workerCh p) = [] \<and> chan_closed (wp_workerCh p) \<Longrightarrow>
    worker_step db get i p (p\<lparr>wp_workers := (wp_workers p)[i := WorkerDone]\<rparr>)"
| work_take: "i < length (wp_workers p) \<Longrightarrow> wp_workers p ! i = Idle \<Longrightarrow> chan_buf (wp_workerCh p) = t # ts \<Longrightarrow>
    worker_step db get i p ((set_workerCh ts p)\<lparr>wp_workers := (wp_workers p)[i := Working t]\<rparr>)"
| work_ask: "i < length (wp_workers p) \<Longrightarrow> wp_workers p ! i = Working t \<Longrightarrow>
    get (ord_ID t) (os_client (wp_service p)) = (r, c) \<Longrightarrow>
    worker_step db get i p (p\<lparr>wp_workers := (wp_workers p)[i := Answered t r], wp_service := (wp_service p)\<lparr>os_client := c\<rparr>\<rparr>)"
| work_finish: "i < length (wp_workers p) \<Longrightarrow> wp_workers p ! i = Answered t r \<Longrightarrow>
    answer_task db t r (wp_service p) = (Returns (Finished e), svc) \<Longrightarrow>
    worker_step db get i p (p\<lparr>wp_workers := (wp_workers p)[i := Idle], wp_service := svc, wp_finished := wp_finished p @ [t]\<rparr>)"
| work_again: "i < length (wp_workers p) \<Longrightarrow> wp_workers p ! i = Answered t r \<Longrightarrow>
    answer_task db t r (wp_service p) = (Returns (SendBack e m), svc) \<Longrightarrow>
    worker_step db get i p (p\<lparr>wp_workers := (wp_workers p)[i := Sending t m], wp_service := svc\<rparr>)"
| work_send: "i < length (wp_workers p) \<Longrightarrow> wp_workers p ! i = Sending t m \<Longrightarrow>
    sendOrderToProcessor m (wp_service p) = (Returns u, svc) \<Longrightarrow>
    worker_step db get i p (p\<lparr>wp_workers := (wp_workers p)[i := Idle], wp_service := svc,
      wp_finished := wp_finished p @ [t], wp_sent := wp_sent p @ new_tasks (wp_service p) svc\<rparr>)"
| work_panic: "i < length (wp_workers p) \<Longrightarrow>
    wp_workers p ! i = Answered t r \<and> answer_task db t r (wp_service p) = (Panics x, svc) \<or>
    wp_workers p ! i = Sending t m \<and> sendOrderToProcessor m (wp_service p) = (Panics x, svc) \<Longrightarrow>
    worker_step db get i p (p\<lparr>wp_crashed := Some x\<rparr>)"

text \<open>
  The rest of the program: a request stores an order; the parent context ends; the goroutine of
  \<open>NewRouter\<close> then closes the link channel; \<open>Stop\<close> is called; when every goroutine has returned
  the waiter of \<open>Start\<close> closes the work channel.
\<close>

definition all_done :: "('s, 'c, 'd) pool \<Rightarrow> bool" where
  "all_done p \<longleftrightarrow> wp_reader p = ReaderDone \<and> wp_dispatcher p = DispatcherDone \<and> (\<forall>w\<in>set (wp_workers p). w = WorkerDone)"

inductive outer_step :: "'s SQLStorageInterface \<Rightarrow> ('s, 'c, 'd) pool \<Rightarrow> ('s, 'c, 'd) pool \<Rightarrow> bool"
  for db :: "'s SQLStorageInterface" where
  store: "OrderService_Store db c i (wp_service p) = (r, svc) \<Longrightarrow>
    outer_step db p (p\<lparr>wp_service := svc, wp_sent := wp_sent p @ new_tasks (wp_service p) svc\<rparr>)"
| parent: "outer_step db p (p\<lparr>wp_parent := True\<rparr>)"
| close_link: "wp_parent p \<Longrightarrow>
    outer_step db p (p\<lparr>wp_service := (wp_service p)\<lparr>os_reports := (taskCh p)\<lparr>chan_closed := True\<rparr>\<rparr>\<rparr>)"
| stop: "outer_step db p (Stop p)"
| wait: "all_done p \<Longrightarrow> outer_step db p (p\<lparr>wp_workerCh := (wp_workerCh p)\<lparr>chan_closed := True\<rparr>\<rparr>)"

inductive pool_step :: "'s SQLStorageInterface \<Rightarrow> (string \<Rightarrow> 'c \<Rightarrow> (go_error + accrual_response) \<times> 'c) \<Rightarrow>
    'd PersistStorageInterface \<Rightarrow> ('s, 'c, 'd) pool \<Rightarrow> ('s, 'c, 'd) pool \<Rightarrow> bool"
  for db :: "'s SQLStorageInterface" and get :: "string \<Rightarrow> 'c \<Rightarrow> (go_error + accrual_response) \<times> 'c"
    and ps :: "'d PersistStorageInterface" where
  reader: "wp_crashed p = None \<Longrightarrow> run_step p q \<Longrightarrow> pool_step db get ps p q"
| dispatcher: "wp_crashed p = None \<Longrightarrow> dispatch_step ps p q \<Longrightarrow> pool_step db get ps p q"
| worker: "wp_crashed p = None \<Longrightarrow> worker_step db get i p q \<Longrightarrow> pool_step db get ps p q"
| outer: "wp_crashed p = None \<Longrightarrow> outer_step db p q \<Longrightarrow> pool_step db get ps p q"

abbreviation pool_run :: "'s SQLStorageInterface \<Rightarrow> (string \<Rightarrow> 'c \<Rightarrow> (go_error + accrual_response) \<times> 'c) \<Rightarrow>
    'd PersistStorageInterface \<Rightarrow> ('s, 'c, 'd) pool \<Rightarrow> ('s, 'c, 'd) pool \<Rightarrow> bool" where
  "pool_run db get ps \<equiv> (pool_step db get ps)\<^sup>*\<^sup>*"

lemmas pool_ops = Stop_def push_pending_def set_workerCh_def set_taskCh_def set_pauseCh_def
  dumpQueue_def dumpQueue_take_def dumpQueue_save_def
  sleepForAWhile_def Let_def

end
