(* ===== verification/Machines.thy ===== *)
theory Machines
  imports Prelude
begin

text \<open>
  Step relations in general: what every step keeps, every run keeps, and a machine whose steps are
  runs of an abstract machine is one whose runs are.
\<close>

locale step_invariant =
  fixes step :: "'s \<Rightarrow> 's \<Rightarrow> bool" and ok :: "'s \<Rightarrow> bool"
  assumes kept: "step p q \<Longrightarrow> ok p \<Longrightarrow> ok q"
begin

lemma run_kept: "step\<^sup>*\<^sup>* p q \<Longrightarrow> ok p \<Longrightarrow> ok q"
  by (induction rule: rtranclp_induct) (auto intro: kept)

end

locale step_simulation = step_invariant step ok for step :: "'s \<Rightarrow> 's \<Rightarrow> bool" and ok :: "'s \<Rightarrow> bool" +
  fixes astep :: "'a \<Rightarrow> 'a \<Rightarrow> bool" and abst :: "'s \<Rightarrow> 'a"
  assumes simulated: "step p q \<Longrightarrow> ok p \<Longrightarrow> astep\<^sup>*\<^sup>* (abst p) (abst q)"
begin

lemma run_simulated: "step\<^sup>*\<^sup>* p q \<Longrightarrow> ok p \<Longrightarrow> astep\<^sup>*\<^sup>* (abst p) (abst q)"
proof (induction rule: rtranclp_induct)
  case (step q q')
  then show ?case using simulated run_kept by (meson rtranclp_trans)
qed simp

end

text \<open>A rank that some step lowers until the goal is reached bounds the way to the goal.\<close>

lemma rank_bounds_run:
  fixes rank :: "'s \<Rightarrow> nat"
  assumes "\<And>p. ok p \<Longrightarrow> \<not> goal p \<Longrightarrow> \<exists>q. step p q \<and> ok q \<and> (goal q \<or> rank q < rank p)" "ok p"
  shows "\<exists>n q. n \<le> Suc (rank p) \<and> (step ^^ n) p q \<and> goal q"
  using assms(2)
proof (induction "rank p" arbitrary: p rule: less_induct)
  case less
  show ?case
  proof (cases "goal p")
    case True
    then show ?thesis by (intro exI [of _ 0] exI [of _ p]) simp
  next
    case False
    then obtain q where q: "step p q" "ok q" "goal q \<or> rank q < rank p" using assms(1) less.prems by blast
    from q(3) show ?thesis
    proof
      assume "goal q"
      with q(1) show ?thesis by (intro exI [of _ 1] exI [of _ q]) (simp del: relpowp.simps add: relpowp_1)
    next
      assume r: "rank q < rank p"
      from less.hyps [OF r q(2)] obtain n q' where "n \<le> Suc (rank q)" "(step ^^ n) q q'" "goal q'" by blast
      with q(1) r show ?thesis by (intro exI [of _ "Suc n"] exI [of _ q']) (auto simp del: relpowp.simps intro: relpowp_Suc_I2)
    qed
  qed
qed

end
