(* ===== verification/PoolInvariants.thy ===== *)
theory PoolInvariants
  imports WorkerPool Machines
begin

text \<open>
  What holds in every run of the pool: no task gets lost or doubled on its way, the dispatcher is
  never left asleep beside work, work can always go on, and what a dump and a restart hand over.
\<close>

section \<open>The services only add to the channels\<close>

definition adds :: "('s, 'c) OrderService \<Rightarrow> ('s, 'c) OrderService \<Rightarrow> bool" where
  "adds svc svc' \<longleftrightarrow> (\<exists>xs ys.
     os_reports svc' = (os_reports svc)\<lparr>chan_buf := chan_buf (os_reports svc) @ xs\<rparr> \<and>
     os_pause svc' = (os_pause svc)\<lparr>chan_buf := chan_buf (os_pause svc) @ ys\<rparr>)"

lemma adds_refl [intro]: "os_reports svc' = os_reports svc \<Longrightarrow> os_pause svc' = os_pause svc \<Longrightarrow> adds svc svc'"
  unfolding adds_def by (intro exI [of _ "[]"]) simp

lemma adds_new: "adds svc svc' \<Longrightarrow> chan_buf (os_reports svc') = chan_buf (os_reports svc) @ new_tasks svc svc'"
  by (auto simp: adds_def new_tasks_def)

lemma try_send_adds: "try_send x ch = Returns ch' \<Longrightarrow> \<exists>xs. ch' = ch\<lparr>chan_buf := chan_buf ch @ xs\<rparr>"
  by (auto simp: try_send_def split: if_splits intro: exI [of _ "[]"])

lemma sendOrderToProcessor_adds: "sendOrderToProcessor m o' = (r, svc) \<Longrightarrow> adds o' svc \<and> os_pause svc = os_pause o'"
  by (auto simp: sendOrderToProcessor_def adds_def split: outcome.splits dest!: try_send_adds intro: exI [of _ "[]"])

lemma send_then_adds: "send_then x m o' = (r, svc) \<Longrightarrow> adds o' svc"
  by (auto simp: send_then_def split: outcome.splits prod.splits dest!: sendOrderToProcessor_adds)

lemma adds_frame: "adds a b \<Longrightarrow> os_reports a' = os_reports a \<Longrightarrow> os_pause a' = os_pause a \<Longrightarrow> adds a' b"
  by (simp add: adds_def)

lemma busy_adds: "busy err m o' = (r, svc) \<Longrightarrow> adds o' svc"
proof (cases "as_AccrualError err")
  case (Some delay)
  assume b: "busy err m o' = (r, svc)"
  show ?thesis
  proof (cases "try_send delay (os_pause o')")
    case (Panics p)
    then show ?thesis using b Some by (auto simp: busy_def)
  next
    case (Returns ch)
    then have s: "send_then (Some err) m (o'\<lparr>os_pause := ch\<rparr>) = (r, svc)" using b Some by (simp add: busy_def)
    obtain ys where "ch = (os_pause o')\<lparr>chan_buf := chan_buf (os_pause o') @ ys\<rparr>" using try_send_adds [OF Returns] by blast
    then show ?thesis using send_then_adds [OF s] by (auto simp: adds_def)
  qed
qed (auto simp: busy_def)

lemma record_answer_adds: "record_answer db resp m o' = (r, svc) \<Longrightarrow> adds o' svc"
  by (auto simp: record_answer_def split: outcome.splits prod.splits option.splits if_splits dest!: send_then_adds
      intro: adds_frame)

lemma ProcessAccrualTask_adds: "ProcessAccrualTask db get t o' = (r, svc) \<Longrightarrow> adds o' svc"
  by (auto simp: ProcessAccrualTask_def Let_def split: prod.splits sum.splits if_splits
      dest!: busy_adds record_answer_adds send_then_adds intro: adds_frame)

lemma answer_task_adds: "answer_task db t r o' = (x, svc) \<Longrightarrow> adds o' svc \<and> os_reports svc = os_reports o'"
  by (auto simp: answer_task_def adds_def split: sum.splits option.splits outcome.splits if_splits prod.splits
      dest!: try_send_adds intro: exI [of _ "[]"])

lemma Store_adds: "OrderService_Store db c i o' = (r, svc) \<Longrightarrow> adds o' svc"
  by (auto simp: OrderService_Store_def split: option.splits prod.splits sum.splits if_splits outcome.splits
      dest!: sendOrderToProcessor_adds intro: adds_frame)

section \<open>No task is lost or doubled\<close>

fun reader_tasks :: "reader \<Rightarrow> task list" where
  "reader_tasks (Appending t) = [t]"
| "reader_tasks _ = []"

fun dispatcher_tasks :: "dispatcher \<Rightarrow> task list" where
  "dispatcher_tasks (Offering t) = [t]"
| "dispatcher_tasks _ = []"

fun worker_tasks :: "worker \<Rightarrow> task multiset" where
  "worker_tasks (Working t) = {#t#}"
| "worker_tasks (Answered t r) = {#t#}"
| "worker_tasks (Sending t m) = {#t#}"
| "worker_tasks _ = {#}"

text \<open>Every place a task can be in.\<close>

definition tasks_of :: "('s, 'c, 'd) pool \<Rightarrow> task multiset" where
  "tasks_of p = mset (chan_buf (taskCh p)) + mset (reader_tasks (wp_reader p)) + mset (wp_pendingTasks p) +
     mset (dispatcher_tasks (wp_dispatcher p)) + mset (chan_buf (wp_workerCh p)) +
     sum_list (map worker_tasks (wp_workers p))"

lemma sum_list_update_mset:
  "i < length ws \<Longrightarrow> sum_list (map f (ws[i := w])) + f (ws ! i) = sum_list (map f ws) + (f w :: 'a multiset)"
proof (induction ws arbitrary: i)
  case (Cons x xs)
  then show ?case by (cases i) (auto simp: ac_simps)
qed simp

text \<open>
  What the pool promises: a bag of open tasks. Tasks are accepted into it, and an open task is
  finished once.
\<close>

record bag =
  bag_accepted :: "task multiset"
  bag_open :: "task multiset"
  bag_done :: "task multiset"

inductive bag_step :: "bag \<Rightarrow> bag \<Rightarrow> bool" where
  accept: "bag_step b (b\<lparr>bag_accepted := bag_accepted b + ts, bag_open := bag_open b + ts\<rparr>)"
| finish: "t \<in># bag_open b \<Longrightarrow> bag_step b (b\<lparr>bag_open := bag_open b - {#t#}, bag_done := add_mset t (bag_done b)\<rparr>)"

definition bag_balanced :: "bag \<Rightarrow> bool" where
  "bag_balanced b \<longleftrightarrow> bag_accepted b = bag_open b + bag_done b"

interpretation bag: step_invariant bag_step bag_balanced
  by unfold_locales (auto simp: bag_balanced_def ac_simps elim!: bag_step.cases)

definition bag_of :: "('s, 'c, 'd) pool \<Rightarrow> bag" where
  "bag_of p = \<lparr>bag_accepted = mset (wp_sent p), bag_open = tasks_of p + mset (wp_drained p), bag_done = mset (wp_finished p)\<rparr>"

lemmas bag_defs = bag_of_def tasks_of_def

lemma run_step_bag: "run_step p q \<Longrightarrow> bag_of q = bag_of p"
  by (induction rule: run_step.induct) (auto simp: bag_defs pool_ops)

lemma dispatch_step_bag: "dispatch_step ps p q \<Longrightarrow> \<not> chan_closed (pauseCh p) \<Longrightarrow> bag_of q = bag_of p"
proof (induction rule: dispatch_step.induct)
  case (pop_last p)
  then have "mset (wp_pendingTasks p) = mset (butlast (wp_pendingTasks p)) + {#last (wp_pendingTasks p)#}"
    by (metis append_butlast_last_id mset.simps(2) mset_append mset_single_iff_right union_code)
  with pop_last show ?case by (simp add: bag_defs ac_simps)
next
  case (hand_over p t i)
  then show ?case
    using sum_list_update_mset [of i "wp_workers p" worker_tasks "Working t"]
    by (simp add: bag_defs ac_simps)
qed (auto simp: bag_defs pool_ops ac_simps)

lemma bag_same: "bag_of q = bag_of p \<Longrightarrow> bag_step\<^sup>*\<^sup>* (bag_of p) (bag_of q)"
  by simp

lemma worker_bag:
  "i < length (wp_workers p) \<Longrightarrow> worker_tasks w = worker_tasks (wp_workers p ! i) \<Longrightarrow>
   sum_list (map worker_tasks ((wp_workers p)[i := w])) = sum_list (map worker_tasks (wp_workers p))"
  using sum_list_update_mset [of i "wp_workers p" worker_tasks w] by simp

lemma work_done_bag:
  assumes i: "i < length (wp_workers p)" "worker_tasks (wp_workers p ! i) = {#t#}"
    and a: "chan_buf (os_reports svc) = chan_buf (taskCh p) @ new"
  shows "bag_step\<^sup>*\<^sup>* (bag_of p) (bag_of (p\<lparr>wp_workers := (wp_workers p)[i := Idle], wp_service := svc,
      wp_finished := wp_finished p @ [t], wp_sent := wp_sent p @ new\<rparr>))"
    (is "bag_step\<^sup>*\<^sup>* _ (bag_of ?q)")
proof -
  let ?b = "(bag_of p)\<lparr>bag_open := bag_open (bag_of p) - {#t#}, bag_done := add_mset t (bag_done (bag_of p))\<rparr>"
  have u: "add_mset t (sum_list (map worker_tasks ((wp_workers p)[i := Idle]))) = sum_list (map worker_tasks (wp_workers p))"
    using sum_list_update_mset [OF i(1), of worker_tasks Idle] i(2) by simp
  then have "t \<in># bag_open (bag_of p)" by (simp add: bag_defs flip: u)
  then have 1: "bag_step (bag_of p) ?b" by (rule finish)
  have 2: "bag_step ?b (?b\<lparr>bag_accepted := bag_accepted ?b + mset new, bag_open := bag_open ?b + mset new\<rparr>)" by (rule accept)
  have "bag_of ?q = ?b\<lparr>bag_accepted := bag_accepted ?b + mset new, bag_open := bag_open ?b + mset new\<rparr>"
    by (simp add: a bag_defs ac_simps flip: u)
  with 1 2 show ?thesis by simp
qed

lemma worker_step_bag: "worker_step db get i p q \<Longrightarrow> bag_step\<^sup>*\<^sup>* (bag_of p) (bag_of q)"
proof (induction rule: worker_step.induct)
  case (work_take p t ts)
  then have "bag_of ((set_workerCh ts p)\<lparr>wp_workers := (wp_workers p)[i := Working t]\<rparr>) = bag_of p"
    using sum_list_update_mset [of i "wp_workers p" worker_tasks "Working t"] by (simp add: bag_defs pool_ops ac_simps)
  then show ?case by (rule bag_same)
next
  case (work_finish p t r e svc)
  then show ?case using work_done_bag [of i p t svc "[]"] answer_task_adds [OF work_finish(3)] by simp
next
  case (work_send p t m u svc)
  then show ?case
    using work_done_bag [of i p t svc "new_tasks (wp_service p) svc"] adds_new sendOrderToProcessor_adds [OF work_send(3)] by fastforce
qed (auto simp: bag_defs worker_bag dest!: answer_task_adds intro!: bag_same)

lemma outer_step_bag: "outer_step db p q \<Longrightarrow> bag_step\<^sup>*\<^sup>* (bag_of p) (bag_of q)"
proof (induction rule: outer_step.induct)
  case (store c i p r svc)
  have "bag_of (p\<lparr>wp_service := svc, wp_sent := wp_sent p @ new_tasks (wp_service p) svc\<rparr>) =
      (bag_of p)\<lparr>bag_accepted := bag_accepted (bag_of p) + mset (new_tasks (wp_service p) svc),
        bag_open := bag_open (bag_of p) + mset (new_tasks (wp_service p) svc)\<rparr>"
    using adds_new [OF Store_adds [OF store]] by (simp add: bag_defs ac_simps)
  then show ?case by (metis accept r_into_rtranclp)
qed (auto simp: bag_defs pool_ops)

text \<open>Nobody closes the channel of pauses.\<close>

definition pause_open :: "('s, 'c, 'd) pool \<Rightarrow> bool" where
  "pause_open p \<longleftrightarrow> \<not> chan_closed (pauseCh p)"

lemma adds_closed: "adds svc svc' \<Longrightarrow> chan_closed (os_pause svc') = chan_closed (os_pause svc) \<and>
    chan_closed (os_reports svc') = chan_closed (os_reports svc)"
  by (auto simp: adds_def)

lemmas step_cases = run_step.cases dispatch_step.cases worker_step.cases outer_step.cases

lemma pause_open_kept:
  "run_step p q \<Longrightarrow> pause_open q = pause_open p" "dispatch_step ps p q \<Longrightarrow> pause_open q = pause_open p"
  "worker_step db get i p q \<Longrightarrow> pause_open q = pause_open p" "outer_step db p q \<Longrightarrow> pause_open q = pause_open p"
  by (auto simp: pause_open_def pool_ops elim!: step_cases split: if_splits
      dest!: answer_task_adds sendOrderToProcessor_adds Store_adds adds_closed)

lemma pool_step_bag: "pool_step db get ps p q \<Longrightarrow> pause_open p \<Longrightarrow> bag_step\<^sup>*\<^sup>* (bag_of p) (bag_of q)"
  by (induction rule: pool_step.induct)
    (auto simp: run_step_bag dispatch_step_bag pause_open_def intro: worker_step_bag outer_step_bag)

lemma pool_step_pause_open: "pool_step db get ps p q \<Longrightarrow> pause_open p \<Longrightarrow> pause_open q"
  by (induction rule: pool_step.induct) (simp_all add: pause_open_kept)

interpretation pool_bag: step_simulation "pool_step db get ps" pause_open bag_step bag_of
  for db :: "'s SQLStorageInterface" and get :: "string \<Rightarrow> 'c \<Rightarrow> (go_error + accrual_response) \<times> 'c"
    and ps :: "'d PersistStorageInterface"
  by unfold_locales (fact pool_step_pause_open, fact pool_step_bag)

section \<open>Nobody sleeps beside work\<close>

text \<open>
  While a task is pending, a dispatcher that is about to wait, or rests before it waits, finds the
  token, or the reader is about to put it there.
\<close>

definition awake :: "('s, 'c, 'd) pool \<Rightarrow> bool" where
  "awake p \<longleftrightarrow> (wp_dispatcher p = Waiting \<or> wp_dispatcher p = Sleeping False) \<and> wp_pendingTasks p \<noteq> [] \<longrightarrow>
     wp_hasTasks p \<or> wp_reader p = Nudging"

lemma awake_kept:
  "run_step p q \<Longrightarrow> awake p \<Longrightarrow> awake q" "dispatch_step ps p q \<Longrightarrow> awake p \<Longrightarrow> awake q"
  "worker_step db get i p q \<Longrightarrow> awake p \<Longrightarrow> awake q" "outer_step db p q \<Longrightarrow> awake p \<Longrightarrow> awake q"
     apply (induction rule: run_step.induct; auto simp: awake_def pool_ops)
    apply (induction rule: dispatch_step.induct; auto simp: awake_def pool_ops)
   apply (induction rule: worker_step.induct; auto simp: awake_def pool_ops)
  apply (induction rule: outer_step.induct; auto simp: awake_def pool_ops)
  done

interpretation pool_awake: step_invariant "pool_step db get ps" awake
  for db :: "'s SQLStorageInterface" and get :: "string \<Rightarrow> 'c \<Rightarrow> (go_error + accrual_response) \<times> 'c"
    and ps :: "'d PersistStorageInterface"
  by unfold_locales (auto elim!: pool_step.cases intro: awake_kept)

section \<open>Nobody leaves early\<close>

text \<open>
  A goroutine has returned, or makes a dump, only if the context is done; the link channel is closed only after the
  program's context ended, the work channel only after everybody returned.
\<close>

definition staffed :: "('s, 'c, 'd) pool \<Rightarrow> bool" where
  "staffed p \<longleftrightarrow> pause_open p \<and> (chan_closed (taskCh p) \<longrightarrow> wp_parent p) \<and> (chan_closed (wp_workerCh p) \<longrightarrow> all_done p) \<and>
     (wp_reader p = ReaderDone \<or> wp_dispatcher p = DispatcherDone \<or> (\<exists>ts. wp_dispatcher p = Dumping ts) \<or>
        WorkerDone \<in> set (wp_workers p) \<longrightarrow> ctx_done p)"

lemma done_in_update [dest!]: "WorkerDone \<in> set (ws[i := w]) \<Longrightarrow> WorkerDone \<in> set ws \<or> w = WorkerDone"
  using set_update_subset_insert [of ws i w] by auto

lemmas staffed_defs = staffed_def pause_open_def ctx_done_def pool_ops

lemma staffed_run: "run_step p q \<Longrightarrow> staffed p \<Longrightarrow> staffed q"
  by (induction rule: run_step.induct) (simp_all add: staffed_defs all_done_def)

lemma staffed_dispatch: "dispatch_step ps p q \<Longrightarrow> staffed p \<Longrightarrow> staffed q"
  by (induction rule: dispatch_step.induct) (simp_all add: staffed_defs all_done_def, auto)

lemma staffed_outer: "outer_step db p q \<Longrightarrow> staffed p \<Longrightarrow> staffed q"
proof (induction rule: outer_step.induct)
  case (store c i p r svc)
  then show ?case using adds_closed [OF Store_adds [OF store(1)]] by (simp add: staffed_defs all_done_def)
qed (simp_all add: staffed_defs all_done_def)

lemma not_done_at: "all_done p \<Longrightarrow> i < length (wp_workers p) \<Longrightarrow> wp_workers p ! i = WorkerDone"
  by (simp add: all_done_def)

lemma staffed_worker: "worker_step db get i p q \<Longrightarrow> staffed p \<Longrightarrow> staffed q"
proof (induction rule: worker_step.induct)
  case (work_done p)
  then show ?case using not_done_at [of p i] by (simp add: staffed_defs all_done_def) blast
next
  case (work_take p t ts)
  then show ?case using not_done_at [of p i] by (simp add: staffed_defs all_done_def) blast
next
  case (work_ask p t r c)
  then show ?case using not_done_at [of p i] by (simp add: staffed_defs all_done_def) blast
next
  case (work_finish p t r e svc)
  then show ?case using not_done_at [of p i] adds_closed [OF conjunct1 [OF answer_task_adds [OF work_finish(3)]]]
    by (simp add: staffed_defs all_done_def) blast
next
  case (work_again p t r e m svc)
  then show ?case using not_done_at [of p i] adds_closed [OF conjunct1 [OF answer_task_adds [OF work_again(3)]]]
    by (simp add: staffed_defs all_done_def) blast
next
  case (work_send p t m u svc)
  then show ?case using not_done_at [of p i] adds_closed [OF conjunct1 [OF sendOrderToProcessor_adds [OF work_send(3)]]]
    by (simp add: staffed_defs all_done_def) blast
qed (simp add: staffed_defs all_done_def)

lemma pool_step_staffed: "pool_step db get ps p q \<Longrightarrow> staffed p \<Longrightarrow> staffed q"
  by (induction rule: pool_step.induct) (auto intro: staffed_run staffed_dispatch staffed_worker staffed_outer)

interpretation pool_staffed: step_invariant "pool_step db get ps" staffed
  for db :: "'s SQLStorageInterface" and get :: "string \<Rightarrow> 'c \<Rightarrow> (go_error + accrual_response) \<times> 'c"
    and ps :: "'d PersistStorageInterface"
  by unfold_locales (fact pool_step_staffed)

section \<open>Somebody can always go on\<close>

text \<open>The steps of the goroutines of the pool, without the rest of the program.\<close>

definition goroutine_step :: "'s SQLStorageInterface \<Rightarrow> (string \<Rightarrow> 'c \<Rightarrow> (go_error + accrual_response) \<times> 'c) \<Rightarrow>
    'd PersistStorageInterface \<Rightarrow> ('s, 'c, 'd) pool \<Rightarrow> ('s, 'c, 'd) pool \<Rightarrow> bool" where
  "goroutine_step db get ps p q \<longleftrightarrow> wp_crashed p = None \<and>
     (run_step p q \<or> dispatch_step ps p q \<or> (\<exists>i. worker_step db get i p q))"

lemma goroutine_pool_step: "goroutine_step db get ps p q \<Longrightarrow> pool_step db get ps p q"
  by (auto simp: goroutine_step_def intro: pool_step.intros)

text \<open>The ways a goroutine can be ready.\<close>

definition ready :: "'s SQLStorageInterface \<Rightarrow> (string \<Rightarrow> 'c \<Rightarrow> (go_error + accrual_response) \<times> 'c) \<Rightarrow>
    'd PersistStorageInterface \<Rightarrow> ('s, 'c, 'd) pool \<Rightarrow> bool" where
  "ready db get ps p \<longleftrightarrow> (\<exists>q. run_step p q \<or> dispatch_step ps p q \<or> (\<exists>i. worker_step db get i p q))"

lemma ready_reader:
  "wp_reader p = Appending t \<Longrightarrow> ready db get ps p" "wp_reader p = Nudging \<Longrightarrow> ready db get ps p"
  "wp_reader p = Reading \<Longrightarrow> chan_buf (taskCh p) \<noteq> [] \<Longrightarrow> ready db get ps p"
  by (auto simp: ready_def neq_Nil_conv intro: run_step.intros)

lemma ready_dispatcher:
  "wp_dispatcher p = Popping \<Longrightarrow> ready db get ps p" "wp_dispatcher p = Sleeping inner \<Longrightarrow> ready db get ps p"
  "wp_dispatcher p = Waiting \<Longrightarrow> wp_hasTasks p \<Longrightarrow> ready db get ps p"
  by (cases "wp_pendingTasks p = []") (auto simp: ready_def intro: dispatch_step.intros)

text \<open>A worker that is at work can always go on, if only to a panic.\<close>

lemma busy_worker_steps:
  assumes "i < length (wp_workers p)" "wp_workers p ! i \<noteq> Idle" "wp_workers p ! i \<noteq> WorkerDone"
  shows "\<exists>q. worker_step db get i p q"
proof (cases "wp_workers p ! i")
  case (Working t)
  then show ?thesis using assms(1) work_ask by (metis prod.collapse)
next
  case (Answered t r)
  obtain x svc where a: "answer_task db t r (wp_service p) = (x, svc)" by fastforce
  show ?thesis
  proof (cases x)
    case (Returns y)
    with a Answered assms(1) show ?thesis by (cases y) (blast intro: work_finish work_again)+
  next
    case (Panics z)
    with a Answered assms(1) show ?thesis by (blast intro: work_panic)
  qed
next
  case (Sending t m)
  obtain x svc where "sendOrderToProcessor m (wp_service p) = (x, svc)" by fastforce
  with Sending assms(1) show ?thesis by (cases x) (blast intro: work_send work_panic)+
qed (use assms in simp_all)

lemma ready_working:
  assumes "i < length (wp_workers p)" "wp_workers p ! i \<noteq> Idle" "wp_workers p ! i \<noteq> WorkerDone"
  shows "ready db get ps p"
  using busy_worker_steps [OF assms, of db get] by (auto simp: ready_def)

lemma ready_taking:
  "i < length (wp_workers p) \<Longrightarrow> wp_workers p ! i = Idle \<Longrightarrow> chan_buf (wp_workerCh p) \<noteq> [] \<Longrightarrow> ready db get ps p"
  by (auto simp: ready_def neq_Nil_conv intro: work_take)

lemma ready_offering:
  assumes t: "wp_dispatcher p = Offering t" and open': "\<not> chan_closed (wp_workerCh p)"
    and i: "i < length (wp_workers p)" "wp_workers p ! i = Idle"
  shows "ready db get ps p"
proof (cases "chan_buf (wp_workerCh p) = []")
  case True
  then have "dispatch_step ps p ((set_workerCh (chan_buf (wp_workerCh p) @ [t]) p)\<lparr>wp_dispatcher := Popping\<rparr>) \<or>
      dispatch_step ps p (p\<lparr>wp_workers := (wp_workers p)[i := Working t], wp_dispatcher := Popping\<rparr>)"
    using t open' i offer [of p t ps] hand_over [of p t i ps] by (cases "chan_cap (wp_workerCh p)") auto
  then show ?thesis by (auto simp: ready_def)
qed (rule ready_taking [OF i])

lemma idle_no_tasks: "\<forall>w\<in>set ws. w = Idle \<Longrightarrow> sum_list (map worker_tasks ws) = {#}"
  by (induction ws) auto

text \<open>With an open task, before the context ends, somebody is ready.\<close>

lemma open_task_ready:
  assumes s: "staffed p" and a: "awake p" and c: "\<not> ctx_done p" and w: "wp_workers p \<noteq> []" and t: "tasks_of p \<noteq> {#}"
  shows "ready db get ps p"
proof (rule ccontr)
  assume r: "\<not> ready db get ps p"
  have first: "0 < length (wp_workers p)" "wp_workers p ! 0 \<in> set (wp_workers p)" using w by simp_all
  have alive: "wp_reader p \<noteq> ReaderDone" "wp_dispatcher p \<noteq> DispatcherDone" "WorkerDone \<notin> set (wp_workers p)"
    "wp_dispatcher p \<noteq> Dumping ts" for ts
    using s c by (auto simp: staffed_def)
  then have open': "\<not> chan_closed (wp_workerCh p)" using s by (auto simp: staffed_def all_done_def)
  have reading: "wp_reader p = Reading" using alive r ready_reader(1,2) [of p] by (cases "wp_reader p") auto
  have idle: "\<forall>x\<in>set (wp_workers p). x = Idle"
  proof
    fix x assume x: "x \<in> set (wp_workers p)"
    then obtain i where "i < length (wp_workers p)" "wp_workers p ! i = x" by (auto simp: in_set_conv_nth)
    with r x alive ready_working [of i p] show "x = Idle" by metis
  qed
  then have "chan_buf (wp_workerCh p) = []" using r first ready_taking [of 0 p] by auto
  moreover have "wp_dispatcher p = Waiting \<and> wp_pendingTasks p = []"
    using r alive a reading idle first ready_dispatcher [of p] ready_offering [OF _ open' first(1)]
    by (cases "wp_dispatcher p") (auto simp: awake_def)
  moreover have "chan_buf (taskCh p) = []" using r reading ready_reader(3) by blast
  moreover have "sum_list (map worker_tasks (wp_workers p)) = {#}" using idle by (rule idle_no_tasks)
  ultimately show False using t reading by (simp add: tasks_of_def)
qed

text \<open>
  After the end of the context every goroutine is at most four of its own steps from its return, the
  dispatcher one more for each task in the work channel, and takes one of them at any time.
\<close>

fun reader_rank :: "reader \<Rightarrow> nat" where
  "reader_rank (Appending t) = 3"
| "reader_rank Nudging = 2"
| "reader_rank Reading = 1"
| "reader_rank ReaderDone = 0"

fun dispatcher_rank :: "dispatcher \<Rightarrow> nat" where
  "dispatcher_rank (Sleeping inner) = 4"
| "dispatcher_rank Popping = 3"
| "dispatcher_rank (Dumping ts) = 1"
| "dispatcher_rank DispatcherDone = 0"
| "dispatcher_rank _ = 2"

fun worker_rank :: "worker \<Rightarrow> nat" where
  "worker_rank (Working t) = 4"
| "worker_rank (Answered t r) = 3"
| "worker_rank (Sending t m) = 2"
| "worker_rank Idle = 1"
| "worker_rank WorkerDone = 0"

definition stop_rank :: "('s, 'c, 'd) pool \<Rightarrow> nat" where
  "stop_rank p = reader_rank (wp_reader p) + dispatcher_rank (wp_dispatcher p) + length (chan_buf (wp_workerCh p)) +
     sum_list (map worker_rank (wp_workers p))"

lemma stop_rank_bound: "stop_rank p \<le> 7 + length (chan_buf (wp_workerCh p)) + 4 * length (wp_workers p)"
proof -
  have w: "worker_rank w \<le> 4" for w by (cases w) auto
  have ws: "sum_list (map worker_rank ws) \<le> 4 * length ws" for ws
  proof (induction ws)
    case (Cons x xs)
    with w [of x] show ?case by simp
  qed simp
  have "reader_rank (wp_reader p) \<le> 3" "dispatcher_rank (wp_dispatcher p) \<le> 4"
    by (cases "wp_reader p"; simp) (cases "wp_dispatcher p"; simp)
  with ws [of "wp_workers p"] show ?thesis unfolding stop_rank_def by linarith
qed

lemma sum_list_update_nat: "i < length ws \<Longrightarrow> sum_list (map f (ws[i := w])) + f (ws ! i) = sum_list (map f ws) + (f w :: nat)"
proof (induction ws arbitrary: i)
  case (Cons x xs)
  then show ?case by (cases i) auto
qed simp

lemma reader_stops:
  assumes "ctx_done p" "wp_reader p \<noteq> ReaderDone"
  shows "\<exists>q. run_step p q \<and> ctx_done q \<and> wp_crashed q = wp_crashed p \<and> stop_rank q < stop_rank p"
proof (cases "wp_reader p")
  case Reading
  show ?thesis
    by (intro exI conjI, rule run_done) (use Reading assms in \<open>auto simp: stop_rank_def ctx_done_def pool_ops\<close>)
next
  case (Appending t)
  show ?thesis
    by (intro exI conjI, rule run_append) (use Appending assms in \<open>auto simp: stop_rank_def ctx_done_def pool_ops\<close>)
next
  case Nudging
  show ?thesis
    by (intro exI conjI, rule run_nudge) (use Nudging assms in \<open>auto simp: stop_rank_def ctx_done_def\<close>)
qed (use assms in simp)

lemma dispatcher_stops:
  assumes "ctx_done p" "wp_dispatcher p \<noteq> DispatcherDone" "staffed p"
  shows "\<exists>q. dispatch_step ps p q \<and> ctx_done q \<and> wp_crashed q = wp_crashed p \<and> stop_rank q < stop_rank p"
proof (cases "wp_dispatcher p")
  case Waiting
  show ?thesis
    by (intro exI conjI, rule wait_done) (use Waiting assms in \<open>auto simp: stop_rank_def ctx_done_def pool_ops\<close>)
next
  case Popping
  show ?thesis
  proof (cases "wp_pendingTasks p = []")
    case True
    show ?thesis
      by (intro exI conjI, rule pop_none) (use Popping True assms in \<open>auto simp: stop_rank_def ctx_done_def\<close>)
  next
    case False
    show ?thesis
      by (intro exI conjI, rule pop_last) (use Popping False assms in \<open>auto simp: stop_rank_def ctx_done_def\<close>)
  qed
next
  case (Offering t)
  show ?thesis
    by (intro exI conjI, rule offer_done) (use Offering assms in \<open>auto simp: stop_rank_def ctx_done_def pool_ops\<close>)
next
  case (Dumping ts')
  then have open': "\<not> chan_closed (wp_workerCh p)" using assms(3) by (auto simp: staffed_def all_done_def)
  show ?thesis
  proof (cases "chan_buf (wp_workerCh p)")
    case Nil
    show ?thesis
      by (intro exI conjI, rule dump_save) (use Dumping Nil open' assms in \<open>auto simp: stop_rank_def ctx_done_def pool_ops\<close>)
  next
    case (Cons t ts)
    show ?thesis
      by (intro exI conjI, rule dump_take) (use Dumping Cons assms in \<open>auto simp: stop_rank_def ctx_done_def pool_ops\<close>)
  qed
next
  case (Sleeping inner)
  show ?thesis
    by (intro exI conjI, rule wake_up) (use Sleeping assms in \<open>auto simp: stop_rank_def ctx_done_def\<close>)
qed (use assms in simp)

lemma worker_step_rank:
  assumes "worker_step db get i p q" "ctx_done p" "\<And>t ts. wp_workers p ! i = Idle \<Longrightarrow> q \<noteq> (set_workerCh ts p)\<lparr>wp_workers := (wp_workers p)[i := Working t]\<rparr>"
  shows "ctx_done q \<and> (wp_crashed q \<noteq> None \<or> stop_rank q < stop_rank p)"
  using assms
proof (induction rule: worker_step.induct)
  case (work_done p)
  then show ?case using sum_list_update_nat [of i "wp_workers p" worker_rank WorkerDone] by (simp add: stop_rank_def ctx_done_def)
next
  case (work_ask p t r c)
  then show ?case using sum_list_update_nat [of i "wp_workers p" worker_rank "Answered t r"] by (simp add: stop_rank_def ctx_done_def)
next
  case (work_finish p t r e svc)
  then show ?case using sum_list_update_nat [of i "wp_workers p" worker_rank Idle] by (simp add: stop_rank_def ctx_done_def)
next
  case (work_again p t r e m svc)
  then show ?case using sum_list_update_nat [of i "wp_workers p" worker_rank "Sending t m"] by (simp add: stop_rank_def ctx_done_def)
next
  case (work_send p t m u svc)
  then show ?case using sum_list_update_nat [of i "wp_workers p" worker_rank Idle] by (simp add: stop_rank_def ctx_done_def)
qed (auto simp: ctx_done_def)

lemma worker_stops:
  assumes "ctx_done p" "i < length (wp_workers p)" "wp_workers p ! i \<noteq> WorkerDone"
  shows "\<exists>q. worker_step db get i p q \<and> ctx_done q \<and> (wp_crashed q \<noteq> None \<or> stop_rank q < stop_rank p)"
proof (cases "wp_workers p ! i = Idle")
  case True
  show ?thesis
    by (intro exI conjI, rule work_done)
      (use True assms sum_list_update_nat [of i "wp_workers p" worker_rank WorkerDone] in
        \<open>auto simp: stop_rank_def ctx_done_def\<close>)
next
  case False
  from busy_worker_steps [OF assms(2) this assms(3)] obtain q where "worker_step db get i p q" by blast
  with worker_step_rank [OF this assms(1)] False show ?thesis by blast
qed

text \<open>With answers the parser can slice a worker panics only when it sends an order back into the closed link channel.\<close>

fun answer_sliceable :: "worker \<Rightarrow> bool" where
  "answer_sliceable (Answered t (Inr resp)) \<longleftrightarrow> sliceable resp"
| "answer_sliceable _ \<longleftrightarrow> True"

definition slicing :: "(string \<Rightarrow> 'c \<Rightarrow> (go_error + accrual_response) \<times> 'c) \<Rightarrow> bool" where
  "slicing get \<longleftrightarrow> (\<forall>i c resp c'. get i c = (Inr resp, c') \<longrightarrow> sliceable resp)"

lemma answer_returns:
  assumes "answer_task db t r o' = (Panics x, svc)" "\<not> chan_closed (os_pause o')"
  shows "\<exists>resp. r = Inr resp \<and> \<not> sliceable resp"
proof (rule ccontr)
  assume ok: "\<not> ?thesis"
  show False
  proof (cases r)
    case (Inl err)
    then show False using assms by (auto simp: answer_task_def try_send_def split: option.splits if_splits)
  next
    case (Inr resp)
    then have "returns (take_answer resp t)" using ok take_answer_returns by blast
    then show False using assms Inr by (auto simp: answer_task_def split: if_splits outcome.splits option.splits prod.splits)
  qed
qed

lemma sent_back:
  "sendOrderToProcessor m o' = (Panics x, svc) \<Longrightarrow> x = SendOnClosedChannel \<and> chan_closed (os_reports o')"
  "sendOrderToProcessor m o' = (Returns u, svc) \<Longrightarrow> os_pause svc = os_pause o'"
  by (auto simp: sendOrderToProcessor_def try_send_def split: if_splits)

lemma worker_crash:
  assumes "worker_step db get i p q" "wp_crashed p = None" "wp_crashed q = Some x" "pause_open p"
    and "\<forall>w\<in>set (wp_workers p). answer_sliceable w"
  shows "x = SendOnClosedChannel \<and> chan_closed (taskCh p)"
  using assms(1)
proof cases
  case (work_panic t r y svc m)
  then have "answer_sliceable (wp_workers p ! i)" using assms(5) by simp
  with work_panic assms(3,4) show ?thesis
    using answer_returns [of db t r "wp_service p" y svc] sent_back(1) [of m "wp_service p" y svc] by (auto simp: pause_open_def)
qed (use assms(2,3) in \<open>simp_all add: pool_ops\<close>)

lemma workers_update: "\<forall>w\<in>set ws. P w \<Longrightarrow> P w' \<Longrightarrow> \<forall>w\<in>set (ws[i := w']). P w"
  using set_update_subset_insert [of ws i w'] by blast

lemma answer_sliceable_kept:
  assumes "pool_step db get ps p q" "slicing get" "\<forall>w\<in>set (wp_workers p). answer_sliceable w"
  shows "\<forall>w\<in>set (wp_workers q). answer_sliceable w"
proof -
  have asked: "answer_sliceable (Answered t r)" if "get j c = (r, c')" for t r j c c'
    using assms(2) that by (cases r) (auto simp: slicing_def)
  have "wp_workers q = wp_workers p \<or> (\<exists>i w. wp_workers q = (wp_workers p)[i := w] \<and> answer_sliceable w)"
    using assms(1) by (cases rule: pool_step.cases; elim step_cases) (fastforce simp: pool_ops dest: asked)+
  with assms(3) show ?thesis using workers_update [of "wp_workers p" answer_sliceable] by auto
qed

interpretation pool_sliceable: step_invariant "pool_step db get ps" "\<lambda>p. slicing get \<longrightarrow> (\<forall>w\<in>set (wp_workers p). answer_sliceable w)"
  for db :: "'s SQLStorageInterface" and get :: "string \<Rightarrow> 'c \<Rightarrow> (go_error + accrual_response) \<times> 'c"
    and ps :: "'d PersistStorageInterface"
  by unfold_locales (use answer_sliceable_kept in blast)

lemma goroutine_link:
  assumes "goroutine_step db get ps p q"
  shows "chan_closed (taskCh q) = chan_closed (taskCh p)"
  using assms
  by (auto simp: goroutine_step_def pool_ops elim!: run_step.cases dispatch_step.cases worker_step.cases
      dest!: answer_task_adds sendOrderToProcessor_adds adds_closed split: if_splits)

text \<open>On the way to a stop: the context is done and the only panic, if any, is that send.\<close>

definition leaving :: "bool \<Rightarrow> ('s, 'c, 'd) pool \<Rightarrow> bool" where
  "leaving shut p \<longleftrightarrow> ctx_done p \<and> staffed p \<and> chan_closed (taskCh p) = shut \<and> (\<forall>w\<in>set (wp_workers p). answer_sliceable w) \<and>
     (wp_crashed p = None \<or> shut \<and> wp_crashed p = Some SendOnClosedChannel)"

definition left_or_lost :: "bool \<Rightarrow> ('s, 'c, 'd) pool \<Rightarrow> bool" where
  "left_or_lost shut p \<longleftrightarrow> all_done p \<and> wp_crashed p = None \<or> shut \<and> wp_crashed p = Some SendOnClosedChannel"

lemma goroutine_moves:
  assumes "wp_crashed p = None" "ctx_done p" "\<not> all_done p" "staffed p" "\<forall>w\<in>set (wp_workers p). answer_sliceable w"
  shows "\<exists>q. goroutine_step db get ps p q \<and> ctx_done q \<and>
    (wp_crashed q = None \<and> stop_rank q < stop_rank p \<or> chan_closed (taskCh p) \<and> wp_crashed q = Some SendOnClosedChannel)"
proof -
  consider "wp_reader p \<noteq> ReaderDone" | "wp_dispatcher p \<noteq> DispatcherDone" | w where "w \<in> set (wp_workers p)" "w \<noteq> WorkerDone"
    using assms(3) by (auto simp: all_done_def)
  then show ?thesis
  proof cases
    case 1
    then show ?thesis using reader_stops [OF assms(2)] assms(1) unfolding goroutine_step_def by metis
  next
    case 2
    then show ?thesis using dispatcher_stops [OF assms(2) _ assms(4), of ps] assms(1) unfolding goroutine_step_def by metis
  next
    case 3
    then obtain i where "i < length (wp_workers p)" "wp_workers p ! i \<noteq> WorkerDone" by (auto simp: in_set_conv_nth)
    from worker_stops [OF assms(2) this, of db get] obtain q where q: "worker_step db get i p q" "ctx_done q"
      "wp_crashed q \<noteq> None \<or> stop_rank q < stop_rank p" by blast
    have "pause_open p" using assms(4) by (simp add: staffed_def)
    from worker_crash [OF q(1) assms(1) _ this assms(5)] q assms(1) show ?thesis
      unfolding goroutine_step_def by (metis not_None_eq)
  qed
qed

lemma stopping:
  assumes "leaving shut p" "\<not> left_or_lost shut p" "slicing get"
  shows "\<exists>q. goroutine_step db get ps p q \<and> leaving shut q \<and> (left_or_lost shut q \<or> stop_rank q < stop_rank p)"
proof -
  have p: "wp_crashed p = None" "ctx_done p" "\<not> all_done p" "staffed p" "\<forall>w\<in>set (wp_workers p). answer_sliceable w"
    "chan_closed (taskCh p) = shut"
    using assms(1,2) by (auto simp: leaving_def left_or_lost_def)
  from goroutine_moves [OF p(1-5), of db get ps] obtain q where q: "goroutine_step db get ps p q" "ctx_done q"
    "wp_crashed q = None \<and> stop_rank q < stop_rank p \<or> shut \<and> wp_crashed q = Some SendOnClosedChannel"
    unfolding p(6) by blast
  moreover have "staffed q" by (rule pool_step_staffed [OF goroutine_pool_step [OF q(1)] p(4)])
  moreover have "\<forall>w\<in>set (wp_workers q). answer_sliceable w"
    by (rule answer_sliceable_kept [OF goroutine_pool_step [OF q(1)] assms(3) p(5)])
  moreover have "chan_closed (taskCh q) = shut" using goroutine_link [OF q(1)] p(6) by simp
  ultimately show ?thesis by (auto simp: leaving_def left_or_lost_def)
qed

text \<open>The pool can be brought to its end, in a number of steps that depends on its size and its work channel only.\<close>

lemma stops_within:
  assumes "leaving shut p" "slicing get"
  shows "\<exists>k q. k \<le> 8 + length (chan_buf (wp_workerCh p)) + 4 * length (wp_workers p) \<and> (goroutine_step db get ps ^^ k) p q \<and>
    left_or_lost shut q"
proof -
  have "\<exists>k q. k \<le> Suc (stop_rank p) \<and> (goroutine_step db get ps ^^ k) p q \<and> left_or_lost shut q"
    by (rule rank_bounds_run [where ok = "leaving shut"]) (use stopping assms in blast)+
  moreover have "Suc (stop_rank p) \<le> 8 + length (chan_buf (wp_workerCh p)) + 4 * length (wp_workers p)" using stop_rank_bound [of p] by simp
  ultimately show ?thesis using le_trans by blast
qed

end
