(* ===== verification/PoolRuns.thy ===== *)
theory PoolRuns
  imports PoolInvariants
begin

text \<open>
  The pool as \<open>NewRouter\<close> sets it up, and what holds in every run from there: no task is lost or doubled,
  nobody sleeps or blocks beside work, the pool can always be stopped, and a stopped pool hands its
  tasks to the next one.
\<close>

section \<open>The pool of the server\<close>

text \<open>
  \<open>NewRouter\<close>: the link channel, the pause channel of capacity one, the order service, the dumper, the
  pool, then \<open>RestoreQueue\<close> and \<open>Start\<close>. \<open>dumper\<close> is what \<open>NewFileStorage\<close> returned.
\<close>

definition NewRouter_pool :: "go_error + 'd PersistStorageInterface \<Rightarrow> go_error option \<Rightarrow> nat \<Rightarrow> nat \<Rightarrow> nat \<Rightarrow>
    's \<Rightarrow> 'c \<Rightarrow> 'd \<Rightarrow> go_error + ('s, 'c, 'd) pool outcome option" where
  "NewRouter_pool dumper uuid_err chanBuffer queueWorkers queueBufSize s c d =
     (let svc = \<lparr>os_db = s, os_client = c, os_reports = make_chan chanBuffer, os_pause = make_chan 1\<rparr>
      in case dumper of Inl err \<Rightarrow> Inl err
         | Inr ps \<Rightarrow>
             (case NewQueueProcessor uuid_err queueWorkers queueBufSize svc d of Inl err \<Rightarrow> Inl err
              | Inr p \<Rightarrow> Inr (RestoreQueue ps p)))"

lemma idle_workers: "sum_list (map worker_tasks (replicate n Idle)) = {#}"
  by (induction n) auto

text \<open>A new pool: the invariants hold, and the pending tasks are what was restored.\<close>

lemma NewRouter_pool_returns:
  assumes "NewRouter_pool (Inr ps) uuid_err n w b s c d = Inr (Some (Returns p))"
  shows "bag_balanced (bag_of p)" "awake p" "staffed p" "length (wp_workers p) = w" "wp_crashed p = None"
    "wp_dispatcher p = Waiting" "wp_drained p = []" "wp_workers p = replicate w Idle"
  using assms idle_workers [of w]
  by (auto simp: NewRouter_pool_def NewQueueProcessor_def RestoreQueue_def Let_def make_chan_def bag_balanced_def bag_defs
      awake_def staffed_defs split: if_splits prod.splits sum.splits option.splits)

lemma pool_step_length: "pool_step db get ps p q \<Longrightarrow> length (wp_workers q) = length (wp_workers p)"
  by (induction rule: pool_step.induct) (auto simp: pool_ops elim!: step_cases split: if_splits)

interpretation pool_size: step_invariant "pool_step db get ps" "\<lambda>p. length (wp_workers p) = n"
  for db :: "'s SQLStorageInterface" and get :: "string \<Rightarrow> 'c \<Rightarrow> (go_error + accrual_response) \<times> 'c"
    and ps :: "'d PersistStorageInterface" and n :: nat
  by unfold_locales (simp add: pool_step_length)

section \<open>What a dump collects\<close>

text \<open>The tasks a dispatcher has collected for the dump.\<close>

definition left_over :: "('s, 'c, 'd) pool \<Rightarrow> task list" where
  "left_over p = (case wp_dispatcher p of Dumping ts \<Rightarrow> ts | _ \<Rightarrow> [])"

text \<open>They are the tasks that were pending when the dump began and those it took from the work channel.\<close>

definition dump_sound :: "('s, 'c, 'd) pool \<Rightarrow> bool" where
  "dump_sound p \<longleftrightarrow> (case wp_dispatcher p of
     Dumping ts \<Rightarrow> \<exists>old new. wp_pendingTasks p = old @ new \<and> ts = old @ wp_drained p
   | DispatcherDone \<Rightarrow> True | _ \<Rightarrow> wp_drained p = [])"

lemma dump_sound_frame:
  "dump_sound p \<Longrightarrow> wp_dispatcher q = wp_dispatcher p \<Longrightarrow> wp_drained q = wp_drained p \<Longrightarrow>
   wp_pendingTasks q = wp_pendingTasks p @ ts \<Longrightarrow> dump_sound q"
  by (auto simp: dump_sound_def split: dispatcher.splits)

lemma dump_sound_dispatch: "dispatch_step ps p q \<Longrightarrow> dump_sound p \<Longrightarrow> dump_sound q"
  by (induction rule: dispatch_step.induct) (auto simp: dump_sound_def pool_ops)

lemma dump_sound_run: "run_step p q \<Longrightarrow> dump_sound p \<Longrightarrow> dump_sound q"
  by (induction rule: run_step.induct) (erule dump_sound_frame; simp add: pool_ops)+

lemma dump_sound_worker: "worker_step db get i p q \<Longrightarrow> dump_sound p \<Longrightarrow> dump_sound q"
  by (induction rule: worker_step.induct) (erule dump_sound_frame; simp add: pool_ops)+

lemma dump_sound_outer: "outer_step db p q \<Longrightarrow> dump_sound p \<Longrightarrow> dump_sound q"
  by (induction rule: outer_step.induct) (erule dump_sound_frame; simp add: pool_ops)+

interpretation pool_dump: step_invariant "pool_step db get ps" dump_sound
  for db :: "'s SQLStorageInterface" and get :: "string \<Rightarrow> 'c \<Rightarrow> (go_error + accrual_response) \<times> 'c"
    and ps :: "'d PersistStorageInterface"
  by unfold_locales (auto elim!: pool_step.cases intro: dump_sound_dispatch dump_sound_run dump_sound_worker dump_sound_outer)

text \<open>Once a dump has begun, with the tasks \<open>old\<close>, it has these and those it took; new ones are appended behind them.\<close>

definition dump_of :: "task list \<Rightarrow> ('s, 'c, 'd) pool \<Rightarrow> bool" where
  "dump_of old p \<longleftrightarrow> (case wp_dispatcher p of
     Dumping ts \<Rightarrow> (\<exists>new. wp_pendingTasks p = old @ new) \<and> ts = old @ wp_drained p
   | DispatcherDone \<Rightarrow> True | _ \<Rightarrow> False)"

lemma dump_of_frame:
  "dump_of old p \<Longrightarrow> wp_dispatcher q = wp_dispatcher p \<Longrightarrow> wp_drained q = wp_drained p \<Longrightarrow>
   wp_pendingTasks q = wp_pendingTasks p @ ts \<Longrightarrow> dump_of old q"
  by (auto simp: dump_of_def split: dispatcher.splits)

lemma dump_of_dispatch: "dispatch_step ps p q \<Longrightarrow> dump_of old p \<Longrightarrow> dump_of old q"
  by (induction rule: dispatch_step.induct) (auto simp: dump_of_def pool_ops)

lemma dump_of_others:
  "run_step p q \<Longrightarrow> dump_of old p \<Longrightarrow> dump_of old q" "worker_step db get i p q \<Longrightarrow> dump_of old p \<Longrightarrow> dump_of old q"
  "outer_step db p q \<Longrightarrow> dump_of old p \<Longrightarrow> dump_of old q"
    apply (induction rule: run_step.induct; erule dump_of_frame; simp add: pool_ops)
   apply (induction rule: worker_step.induct; erule dump_of_frame; simp add: pool_ops)
  apply (induction rule: outer_step.induct; erule dump_of_frame; simp add: pool_ops)
  done

interpretation dump_made: step_invariant "pool_step db get ps" "dump_of old"
  for db :: "'s SQLStorageInterface" and get :: "string \<Rightarrow> 'c \<Rightarrow> (go_error + accrual_response) \<times> 'c"
    and ps :: "'d PersistStorageInterface" and old :: "task list"
  by unfold_locales (auto elim!: pool_step.cases intro: dump_of_dispatch dump_of_others)

text \<open>A dump begins with everything that is pending, the task that was being offered put back.\<close>

lemma dispatch_begins:
  "dispatch_step ps p q \<Longrightarrow> \<forall>ts. wp_dispatcher p \<noteq> Dumping ts \<Longrightarrow> wp_dispatcher q = Dumping ts \<Longrightarrow> dump_sound p \<Longrightarrow>
   wp_pendingTasks q = wp_pendingTasks p @ dispatcher_tasks (wp_dispatcher p) \<and> dump_of (wp_pendingTasks q) q"
  by (induction rule: dispatch_step.induct) (simp_all add: pool_ops dump_of_def dump_sound_def split: if_splits)

lemma others_do_not_dispatch:
  "run_step p q \<Longrightarrow> wp_dispatcher q = wp_dispatcher p" "worker_step db get i p q \<Longrightarrow> wp_dispatcher q = wp_dispatcher p"
  "outer_step db p q \<Longrightarrow> wp_dispatcher q = wp_dispatcher p"
  by (erule run_step.cases; simp add: pool_ops) (erule worker_step.cases outer_step.cases; simp add: pool_ops)+

lemma dump_begins:
  assumes "pool_step db get ps p q" "\<forall>ts. wp_dispatcher p \<noteq> Dumping ts" "wp_dispatcher q = Dumping ts" "dump_sound p"
  shows "wp_pendingTasks q = wp_pendingTasks p @ dispatcher_tasks (wp_dispatcher p)" "dump_of (wp_pendingTasks q) q"
proof -
  have "dispatch_step ps p q"
    using assms(1) by cases (use assms(2,3) others_do_not_dispatch in \<open>metis\<close>)+
  from dispatch_begins [OF this assms(2-4)] show "wp_pendingTasks q = wp_pendingTasks p @ dispatcher_tasks (wp_dispatcher p)"
    "dump_of (wp_pendingTasks q) q" by blast+
qed

section \<open>Properties of every run\<close>

text \<open>C8. The pool implements a bag of tasks: every run of its goroutines, of the requests that store
orders and of a shutdown is a run of the bag, in which tasks are accepted and each open one is
finished once. So at any time the accepted tasks, restored ones included, are exactly those in
some channel, stack or goroutine, those that were finished, and those a dump took out of the work
channel, which are in the list it will write: none is lost, none is doubled.\<close>
theorem pool_refines_bag:
  assumes "NewRouter_pool (Inr ps) uuid_err n w b s c d = Inr (Some (Returns p))" "pool_run db get ps p q"
  shows "bag_step\<^sup>*\<^sup>* (bag_of p) (bag_of q) \<and>
    mset (wp_sent q) = tasks_of q + mset (wp_drained q) + mset (wp_finished q) \<and>
    (\<forall>ts. wp_dispatcher q = Dumping ts \<longrightarrow> mset (wp_drained q) \<subseteq># mset ts)"
proof (intro conjI)
  have "pause_open p" using NewRouter_pool_returns(3) [OF assms(1)] by (simp add: staffed_def)
  with assms(2) show r: "bag_step\<^sup>*\<^sup>* (bag_of p) (bag_of q)" by (rule pool_bag.run_simulated)
  from bag.run_kept [OF r NewRouter_pool_returns(1) [OF assms(1)]]
  show "mset (wp_sent q) = tasks_of q + mset (wp_drained q) + mset (wp_finished q)"
    by (simp add: bag_balanced_def bag_of_def)
  have "dump_sound q" using pool_dump.run_kept [OF assms(2)] NewRouter_pool_returns(6,7) [OF assms(1)] by (simp add: dump_sound_def)
  then show "\<forall>ts. wp_dispatcher q = Dumping ts \<longrightarrow> mset (wp_drained q) \<subseteq># mset ts" by (auto simp: dump_sound_def)
qed

text \<open>C18. No wake-up is lost: whenever tasks are pending and the dispatcher waits, or rests before it
waits, its token is there or the reader is about to put it there.\<close>
theorem no_lost_wakeup:
  assumes "NewRouter_pool (Inr ps) uuid_err n w b s c d = Inr (Some (Returns p))" "pool_run db get ps p q"
    and "wp_dispatcher q = Waiting \<or> wp_dispatcher q = Sleeping False" "wp_pendingTasks q \<noteq> []"
  shows "wp_hasTasks q \<or> wp_reader q = Nudging"
  using pool_awake.run_kept [OF assms(2) NewRouter_pool_returns(2) [OF assms(1)]] assms(3,4) by (simp add: awake_def)

text \<open>C19. The pool never deadlocks beside work: with at least one worker, as long as some accepted task
is not finished and the pool was not told to stop, one of its goroutines can make a step, in every
reachable state in which the program has not crashed.\<close>
theorem pool_never_stuck:
  assumes "NewRouter_pool (Inr ps) uuid_err n w b s c d = Inr (Some (Returns p))" "pool_run db get ps p q"
    and "0 < w" "wp_crashed q = None" "\<not> ctx_done q" "tasks_of q \<noteq> {#}"
  shows "\<exists>q'. goroutine_step db get ps q q'"
proof -
  have "staffed q" "awake q" "length (wp_workers q) = w"
    using NewRouter_pool_returns [OF assms(1)] assms(2) pool_staffed.run_kept pool_awake.run_kept pool_size.run_kept
    by blast+
  with assms show ?thesis using open_task_ready [of q db get ps] by (auto simp: ready_def goroutine_step_def)
qed

text \<open>C20. A shutdown can always be completed: once the context is done, whatever the state of the stacks and
goroutines, eight steps, four more for each worker and one for each task in the work channel suffice to bring
every goroutine to its return, none of them having panicked. Only when the link channel is closed already this
may fail, and then in one way: a worker sends an order back into it and panics. (A longer way is possible too,
as a \<open>select\<close> is free to go on with work instead of the context.)\<close>
theorem pool_can_stop:
  assumes "NewRouter_pool (Inr ps) uuid_err n w b s c d = Inr (Some (Returns p))"
    and "pool_run db (GetOrderAccrual check_url Do wait url rid) ps p q" "ctx_done q" "wp_crashed q = None"
  shows "\<exists>k q'. k \<le> 8 + length (chan_buf (wp_workerCh q)) + 4 * w \<and>
    (goroutine_step db (GetOrderAccrual check_url Do wait url rid) ps ^^ k) q q' \<and>
    (all_done q' \<and> wp_crashed q' = None \<or> chan_closed (taskCh q) \<and> wp_crashed q' = Some SendOnClosedChannel)"
proof -
  note start = NewRouter_pool_returns [OF assms(1)]
  have g: "slicing (GetOrderAccrual check_url Do wait url rid)" by (auto simp: slicing_def dest: GetOrderAccrual_sliceable)
  then have "\<forall>x\<in>set (wp_workers q). answer_sliceable x" using pool_sliceable.run_kept [OF assms(2)] start(8) by simp
  with pool_staffed.run_kept [OF assms(2) start(3)] have "leaving (chan_closed (taskCh q)) q"
    using assms(3,4) by (simp add: leaving_def)
  from stops_within [OF this g, of db ps] pool_size.run_kept [OF assms(2) start(4)]
  show ?thesis by (simp add: left_or_lost_def)
qed

section \<open>From one pool to the next\<close>

lemma dispatch_moves: "dispatch_step ps p q \<Longrightarrow> wp_dispatcher p \<noteq> DispatcherDone"
  by (induction rule: dispatch_step.induct) simp_all

lemma dispatcher_leaves:
  assumes "dispatch_step ps p q" "wp_dispatcher q = DispatcherDone" "pause_open p"
  shows "wp_dumper q = snd (ps_Save ps (left_over p) (wp_dumper p)) \<and> chan_buf (wp_workerCh p) = [] \<and>
    (\<exists>ts. wp_dispatcher p = Dumping ts)"
  using assms by (induction rule: dispatch_step.induct) (auto simp: left_over_def pause_open_def pool_ops split: if_splits)

lemma Avro_Save_calm:
  assumes "calm_disk d" "av_NewOCFWriter lib = Inr header" "ms \<noteq> [] \<Longrightarrow> fst (av_Append lib (map (modelToAvro format) ms)) = None"
  shows "\<exists>d'. ps_Save (AvroFileStorage lib format parse) ms d = (None, d') \<and> calm_disk d'"
proof (cases ms)
  case (Cons m ms')
  with assms show ?thesis
    by (cases "av_Append lib (map (modelToAvro format) ms)")
      (auto simp: AvroFileStorage_def Avro_Save_def calm_disk_def os_Create_def os_Append_def append_file_def next_fault_def)
qed (use assms in \<open>auto simp: AvroFileStorage_def Avro_Save_def calm_disk_def os_Create_def os_Append_def append_file_def next_fault_def\<close>)

lemma those_map_Some: "those (map (Some \<circ> f) xs) = Some (map f xs)"
  by (induction xs) auto

lemma NewRouter_pool_restores:
  assumes "ps_Restore ps d = (Inr (map (Some \<circ> f) ms), d2)" "ps_Erase ps d2 = (None, d3)"
  shows "\<exists>p'. NewRouter_pool (Inr ps) None n w b s c d = Inr (Some (Returns p')) \<and>
    wp_pendingTasks p' = map f ms \<and> (wp_hasTasks p' \<longleftrightarrow> ms \<noteq> []) \<and> wp_dumper p' = d3"
  using assms by (simp add: NewRouter_pool_def NewQueueProcessor_def RestoreQueue_def Let_def those_map_Some)

text \<open>C9. A restart keeps the queue. When the dispatcher of a running pool begins a dump, it puts back the task it was
offering; when it has written the dump, beside the reader and the workers at work, the dump has exactly what
was pending when it began, in order, and behind it what it took from the work channel, in which nothing is left: the next server starts
with exactly these, each with its times as the Avro dump renders them, wakes its dispatcher when there are
any, and leaves no dump behind. What is lost of the accepted tasks that are not finished is what the
reader appended meanwhile or holds, what is in the link channel, and what workers hold.\<close>
theorem restart_keeps_queue:
  assumes "NewRouter_pool (Inr (AvroFileStorage lib format parse)) uuid_err n w b s c d = Inr (Some (Returns p))"
    and "pool_run db get (AvroFileStorage lib format parse) p q0" "pool_step db get (AvroFileStorage lib format parse) q0 q1"
    and "\<forall>ts. wp_dispatcher q0 \<noteq> Dumping ts" "wp_dispatcher q1 = Dumping ts"
    and "pool_run db get (AvroFileStorage lib format parse) q1 q" "dispatch_step (AvroFileStorage lib format parse) q q'"
    and "wp_dispatcher q' = DispatcherDone" "calm_disk (wp_dumper q)" "av_NewOCFWriter lib = Inr header"
    and "fst (av_Append lib (map (modelToAvro format) (left_over q))) = None" "avro_storable lib format (left_over q)"
  shows "wp_pendingTasks q1 = wp_pendingTasks q0 @ dispatcher_tasks (wp_dispatcher q0) \<and>
    left_over q = wp_pendingTasks q1 @ wp_drained q \<and> chan_buf (wp_workerCh q) = [] \<and>
    (\<exists>new. wp_pendingTasks q = wp_pendingTasks q1 @ new \<and>
       mset (wp_sent q) = mset (left_over q) + mset (wp_finished q) +
         (mset new + mset (reader_tasks (wp_reader q)) + mset (chan_buf (taskCh q)) + sum_list (map worker_tasks (wp_workers q)))) \<and>
    (\<exists>p'. NewRouter_pool (Inr (AvroFileStorage lib format parse)) None n' w' b' s' c' (wp_dumper q') = Inr (Some (Returns p')) \<and>
       wp_pendingTasks p' = map (avro_image format parse) (left_over q) \<and>
       (wp_hasTasks p' \<longleftrightarrow> left_over q \<noteq> []) \<and> dk_file (wp_dumper p') = None)"
proof -
  note start = NewRouter_pool_returns [OF assms(1)]
  have run: "pool_run db get (AvroFileStorage lib format parse) p q"
    using assms(2,3,6) by (meson rtranclp.rtrancl_into_rtrancl rtranclp_trans)
  have "dump_sound q0" using pool_dump.run_kept [OF assms(2)] start(6,7) by (simp add: dump_sound_def)
  note b = dump_begins [OF assms(3-5) this]
  have open': "pause_open q" using pool_staffed.run_kept [OF run start(3)] by (simp add: staffed_def)
  have made: "dump_of (wp_pendingTasks q1) q" by (rule dump_made.run_kept [OF assms(6) b(2)])
  then obtain ts where ts: "wp_dispatcher q = Dumping ts"
    using dispatch_moves [OF assms(7)] by (cases "wp_dispatcher q") (auto simp: dump_of_def)
  with dispatcher_leaves [OF assms(7,8) open'] have q: "chan_buf (wp_workerCh q) = []"
    "wp_dumper q' = snd (ps_Save (AvroFileStorage lib format parse) (left_over q) (wp_dumper q))" by simp_all
  from made ts obtain new where o: "wp_pendingTasks q = wp_pendingTasks q1 @ new" "left_over q = wp_pendingTasks q1 @ wp_drained q"
    by (auto simp: dump_of_def left_over_def)
  have "bag_balanced (bag_of q)"
    using bag.run_kept [OF pool_bag.run_simulated [OF run] start(1)] start(3) by (simp add: staffed_def)
  then have lost: "mset (wp_sent q) = mset (left_over q) + mset (wp_finished q) +
      (mset new + mset (reader_tasks (wp_reader q)) + mset (chan_buf (taskCh q)) + sum_list (map worker_tasks (wp_workers q)))"
    using o q(1) ts by (simp add: bag_balanced_def bag_defs ac_simps)
  obtain d1 where d1: "ps_Save (AvroFileStorage lib format parse) (left_over q) (wp_dumper q) = (None, d1)" "calm_disk d1"
    using Avro_Save_calm [OF assms(9,10)] assms(11) by blast
  obtain d2 where d2: "ps_Restore (AvroFileStorage lib format parse) d1 = (Inr (map (Some \<circ> avro_image format parse) (left_over q)), d2)"
    "calm_disk d2"
    using avro_file.saved [OF assms(12) d1] by blast
  obtain d3 where d3: "ps_Erase (AvroFileStorage lib format parse) d2 = (None, d3)" "dk_file d3 = None"
    using avro_file.erased [OF d2(2)] by blast
  have "wp_dumper q' = d1" using q(2) d1(1) by simp
  with NewRouter_pool_restores [OF d2(1) d3(1), of n' w' b' s' c'] d3(2)
  have "\<exists>p'. NewRouter_pool (Inr (AvroFileStorage lib format parse)) None n' w' b' s' c' (wp_dumper q') = Inr (Some (Returns p')) \<and>
       wp_pendingTasks p' = map (avro_image format parse) (left_over q) \<and>
       (wp_hasTasks p' \<longleftrightarrow> left_over q \<noteq> []) \<and> dk_file (wp_dumper p') = None"
    by metis
  with b(1) o q(1) lost show ?thesis by blast
qed

text \<open>A dump the Avro library cannot read counts as empty, and is erased.\<close>

lemma unreadable_dump_erased:
  assumes "calm_disk d" "dk_file d = Some file" "av_NewOCFReader lib file = Inl err"
  shows "\<exists>p'. NewRouter_pool (Inr (AvroFileStorage lib format parse)) None n w b s c d = Inr (Some (Returns p')) \<and>
    wp_pendingTasks p' = [] \<and> dk_file (wp_dumper p') = None"
proof -
  have r: "ps_Restore (AvroFileStorage lib format parse) d = (Inr (map (Some \<circ> id) []), d)"
    using assms by (simp add: AvroFileStorage_def Avro_Restore_def calm_open calm_read)
  obtain d3 where d3: "ps_Erase (AvroFileStorage lib format parse) d = (None, d3)" "dk_file d3 = None"
    using avro_file.erased [OF assms(1)] by blast
  from NewRouter_pool_restores [OF r d3(1), of n w b s c] d3(2) show ?thesis by auto
qed

section \<open>Concrete runs\<close>

text \<open>A storage that keeps the list itself, and a server that starts with one task in it.\<close>

definition slot :: "order list PersistStorageInterface" where
  "slot = \<lparr>ps_Save = (\<lambda>ms d. (None, ms)), ps_Restore = (\<lambda>d. (Inr (map Some d), d)), ps_Erase = (\<lambda>d. (None, []))\<rparr>"

definition demo_pool :: "(server, unit, order list) pool" where
  "demo_pool = \<lparr>wp_workers = [Idle], wp_workerCh = make_chan 1, wp_pendingTasks = [demo_task], wp_hasTasks = True,
     wp_reader = Reading, wp_dispatcher = Waiting,
     wp_service = \<lparr>os_db = demo_server, os_client = (), os_reports = make_chan 1, os_pause = make_chan 1\<rparr>,
     wp_dumper = [], wp_cancelled = False, wp_parent = False, wp_crashed = None,
     wp_sent = [demo_task], wp_finished = [], wp_drained = []\<rparr>"

abbreviation demo_get :: "string \<Rightarrow> unit \<Rightarrow> (go_error + accrual_response) \<times> unit" where
  "demo_get \<equiv> fixed_client (Inr (demo_answer ''REGISTERED'' []))"

abbreviation demo_run :: "(server, unit, order list) pool \<Rightarrow> (server, unit, order list) pool \<Rightarrow> bool" where
  "demo_run \<equiv> pool_run NewSQLStorage demo_get slot"

lemma demo_pool_starts:
  "NewRouter_pool (Inr slot) None 1 1 1 demo_server () [demo_task] = Inr (Some (Returns demo_pool))"
  by (simp add: NewRouter_pool_def NewQueueProcessor_def RestoreQueue_def slot_def demo_pool_def make_chan_def)

lemma demo_run_offering:
  "demo_run demo_pool (demo_pool\<lparr>wp_hasTasks := False, wp_pendingTasks := [], wp_dispatcher := Offering demo_task\<rparr>)"
proof -
  let ?p = "demo_pool\<lparr>wp_hasTasks := False, wp_dispatcher := Popping\<rparr>"
  have "dispatch_step slot demo_pool ?p" by (rule wait_tasks) (simp_all add: demo_pool_def)
  moreover have "dispatch_step slot ?p (?p\<lparr>wp_pendingTasks := butlast (wp_pendingTasks ?p),
      wp_dispatcher := Offering (last (wp_pendingTasks ?p))\<rparr>)"
    by (rule pop_last) (simp_all add: demo_pool_def)
  ultimately have "demo_run demo_pool (?p\<lparr>wp_pendingTasks := butlast (wp_pendingTasks ?p),
      wp_dispatcher := Offering (last (wp_pendingTasks ?p))\<rparr>)"
    by (intro rtranclp.rtrancl_into_rtrancl [OF r_into_rtranclp] dispatcher) (simp_all add: demo_pool_def)
  then show ?thesis by (simp add: demo_pool_def)
qed

lemma demo_run_stopped: "pool_run NewSQLStorage get slot demo_pool (demo_pool\<lparr>wp_cancelled := True\<rparr>)"
  using outer_step.stop [of NewSQLStorage demo_pool]
  by (intro r_into_rtranclp outer) (simp_all add: demo_pool_def Stop_def)

theorem pool_refines_bag_witness:
  "bag_step\<^sup>*\<^sup>* (bag_of demo_pool) (bag_of (demo_pool\<lparr>wp_hasTasks := False, wp_pendingTasks := [], wp_dispatcher := Offering demo_task\<rparr>))"
  using pool_refines_bag [OF demo_pool_starts demo_run_offering] by blast

theorem no_lost_wakeup_witness: "wp_hasTasks (demo_pool\<lparr>wp_cancelled := True\<rparr>)"
  using no_lost_wakeup [OF demo_pool_starts demo_run_stopped] by (simp add: demo_pool_def)

theorem pool_never_stuck_witness:
  "\<exists>q'. goroutine_step NewSQLStorage demo_get slot
     (demo_pool\<lparr>wp_hasTasks := False, wp_pendingTasks := [], wp_dispatcher := Offering demo_task\<rparr>) q'"
  by (rule pool_never_stuck [OF demo_pool_starts demo_run_offering]) (simp_all add: demo_pool_def ctx_done_def tasks_of_def)

text \<open>The real client, with an accrual service that cannot be reached.\<close>

abbreviation unreachable :: "string \<Rightarrow> unit \<Rightarrow> (go_error + accrual_response) \<times> unit" where
  "unreachable \<equiv> GetOrderAccrual (\<lambda>_. None) (\<lambda>rq c. (Inl (ErrorString ''refused''), c)) (\<lambda>d c. (None, c)) ''http://accrual'' ''1''"

theorem pool_can_stop_witness:
  "\<exists>k q'. k \<le> 12 \<and> (goroutine_step NewSQLStorage unreachable slot ^^ k) (demo_pool\<lparr>wp_cancelled := True\<rparr>) q' \<and>
     all_done q' \<and> wp_crashed q' = None"
  using pool_can_stop [OF demo_pool_starts demo_run_stopped, of "\<lambda>_. None" "\<lambda>rq c. (Inl (ErrorString ''refused''), c)"
      "\<lambda>d c. (None, c)" "''http://accrual''" "''1''"]
  by (simp add: ctx_done_def demo_pool_def make_chan_def)

definition demo_avro :: avro_lib where
  "demo_avro = \<lparr>av_NewCodec = None, av_NewOCFWriter = Inr ''H'', av_Append = (\<lambda>ds. (None, ''D'')),
     av_NewOCFReader = (\<lambda>s. Inr (if s = ''HD'' then [Inr (modelToAvro (\<lambda>t. ''t'') demo_task)] else [], None))\<rparr>"

abbreviation demo_store :: "disk PersistStorageInterface" where
  "demo_store \<equiv> AvroFileStorage demo_avro (\<lambda>t. ''t'') (\<lambda>x. Some 0)"

text \<open>A server that restores one task and is stopped at once.\<close>

definition demo_leaving :: "bool \<Rightarrow> dispatcher \<Rightarrow> (server, unit, disk) pool" where
  "demo_leaving stopped dsp = \<lparr>wp_workers = [Idle], wp_workerCh = make_chan 1, wp_pendingTasks = [demo_task], wp_hasTasks = True,
     wp_reader = Reading, wp_dispatcher = dsp,
     wp_service = \<lparr>os_db = demo_server, os_client = (), os_reports = make_chan 1, os_pause = make_chan 1\<rparr>,
     wp_dumper = \<lparr>dk_dir = Inr True, dk_file = None, dk_faults = []\<rparr>, wp_cancelled = stopped, wp_parent = False,
     wp_crashed = None, wp_sent = [demo_task], wp_finished = [], wp_drained = []\<rparr>"

lemma demo_image: "avro_image (\<lambda>t. ''t'') (\<lambda>x. Some 0) demo_task = demo_task"
  by (simp add: avro_image_def demo_task_def zero_order_def)

lemma demo_leaving_starts:
  "NewRouter_pool (Inr demo_store) None 1 1 1 demo_server () \<lparr>dk_dir = Inr True, dk_file = Some ''HD'', dk_faults = []\<rparr>
     = Inr (Some (Returns (demo_leaving False Waiting)))"
proof -
  have "avroToModel (\<lambda>x. Some 0) (modelToAvro (\<lambda>t. ''t'') demo_task) = Inr demo_task"
    by (simp add: avroToModel_def modelToAvro_def avro_string_def avro_time_def demo_task_def zero_order_def)
  then show ?thesis
    by (simp add: NewRouter_pool_def NewQueueProcessor_def RestoreQueue_def AvroFileStorage_def Avro_Restore_def Avro_Erase_def
        os_Open_def io_ReadAll_def file_Erase_def os_Remove_def next_fault_def Let_def demo_avro_def demo_leaving_def make_chan_def)
qed

lemma demo_leaving_run:
  "pool_run NewSQLStorage demo_get demo_store (demo_leaving False Waiting) (demo_leaving True Waiting)"
  "pool_step NewSQLStorage demo_get demo_store (demo_leaving True Waiting) (demo_leaving True (Dumping [demo_task]))"
proof -
  have "outer_step NewSQLStorage (demo_leaving False Waiting) (demo_leaving True Waiting)"
    using outer_step.stop [of NewSQLStorage "demo_leaving False Waiting"] by (simp add: Stop_def demo_leaving_def)
  then have "pool_step NewSQLStorage demo_get demo_store (demo_leaving False Waiting) (demo_leaving True Waiting)"
    by (rule outer [rotated]) (simp add: demo_leaving_def)
  then show "pool_run NewSQLStorage demo_get demo_store (demo_leaving False Waiting) (demo_leaving True Waiting)" ..
  have "dispatch_step demo_store (demo_leaving True Waiting) (demo_leaving True (Dumping [demo_task]))"
    using wait_done [of "demo_leaving True Waiting" demo_store] by (simp add: dumpQueue_def demo_leaving_def ctx_done_def)
  then show "pool_step NewSQLStorage demo_get demo_store (demo_leaving True Waiting) (demo_leaving True (Dumping [demo_task]))"
    by (rule dispatcher [rotated]) (simp add: demo_leaving_def)
qed

theorem restart_keeps_queue_witness:
  "\<exists>p' q. dispatch_step demo_store (demo_leaving True (Dumping [demo_task])) q \<and>
     NewRouter_pool (Inr demo_store) None 1 1 1 demo_server () (wp_dumper q) = Inr (Some (Returns p')) \<and>
     wp_pendingTasks p' = [demo_task] \<and> wp_hasTasks p'"
proof -
  let ?p = "demo_leaving True (Dumping [demo_task])"
  have s: "dispatch_step demo_store ?p (dumpQueue_save demo_store [demo_task] ?p)"
    by (rule dump_save) (simp_all add: demo_leaving_def make_chan_def)
  have l: "left_over ?p = [demo_task]" by (simp add: left_over_def demo_leaving_def)
  have "\<exists>p'. NewRouter_pool (Inr demo_store) None 1 1 1 demo_server () (wp_dumper (dumpQueue_save demo_store [demo_task] ?p)) = Inr (Some (Returns p')) \<and>
      wp_pendingTasks p' = map (avro_image (\<lambda>t. ''t'') (\<lambda>x. Some 0)) (left_over ?p) \<and>
      (wp_hasTasks p' \<longleftrightarrow> left_over ?p \<noteq> []) \<and> dk_file (wp_dumper p') = None"
    by (rule restart_keeps_queue [OF demo_leaving_starts demo_leaving_run(1,2) _ _ rtranclp.rtrancl_refl s, where ts = "[demo_task]" and header = "''H''",
          THEN conjunct2, THEN conjunct2, THEN conjunct2, THEN conjunct2], unfold l)
      (simp_all add: demo_leaving_def dumpQueue_save_def calm_disk_def demo_avro_def avro_storable_def)
  then show ?thesis unfolding l using s by (auto simp: demo_image)
qed

end
