(* ===== verification/Accounts.thy ===== *)
theory Accounts
  imports Sessions PoolRuns
begin

text \<open>
  The whole server: requests of any kind, the goroutines of the pool, shutdown, in any order. What holds of
  its database and its tasks in every state it reaches: no request breaks it, and the books balance with
  nothing assumed about who processes which order when.
\<close>

section \<open>Accounts\<close>

text \<open>
  An open task is tracked: its order is stored for the task's user and not processed yet. The accounts
  are in order when the books balance, open tasks are tracked and no two are for the same order.
\<close>

definition tracked :: "server \<Rightarrow> task \<Rightarrow> bool" where
  "tracked s t \<longleftrightarrow> 0 \<le> sint (ord_Accrual t) \<and> (\<exists>r\<in>set (orders (tables s)). or_id r = ord_ID t) \<and>
     (\<exists>uid. uuid_in s (ord_UserID t) = Some uid \<and> updatable (ord_ID t) uid (tables s))"

definition accounts :: "task multiset \<Rightarrow> server \<Rightarrow> bool" where
  "accounts M s \<longleftrightarrow> healthy s \<and> ledger (tables s) \<and> (\<forall>t\<in>#M. tracked s t) \<and> (\<forall>i. count (image_mset ord_ID M) i \<le> 1)"

lemma tracked_frame: "tracked s t \<Longrightarrow> uuid_in s' = uuid_in s \<Longrightarrow> orders (tables s') = orders (tables s) \<Longrightarrow> tracked s' t"
  by (simp add: tracked_def updatable_def)

lemma accounts_frame:
  assumes "accounts M s" "healthy s'" "ledger (tables s')" "uuid_in s' = uuid_in s" "orders (tables s') = orders (tables s)"
  shows "accounts M s'"
  using assms tracked_frame [OF _ assms(4,5)] by (auto simp: accounts_def)

lemma accounts_fewer: "accounts (M + N) s \<Longrightarrow> accounts M s"
  by (auto simp: accounts_def) (metis add_leD1)

text \<open>Tasks for different orders do not get into each other's way.\<close>

lemma tracked_later:
  assumes "tracked s t" "uuid_in s' = uuid_in s"
    and "\<And>r. or_id r = ord_ID t \<Longrightarrow> r \<in> set (orders (tables s')) \<longleftrightarrow> r \<in> set (orders (tables s))"
  shows "tracked s' t"
  using assms by (auto simp: tracked_def updatable_def)

lemma accounts_later: "accounts M s \<Longrightarrow> later s t \<Longrightarrow> tables t = tables s \<Longrightarrow> accounts M t"
  using accounts_frame [of M s t] healthy_later [of s t] later_now [of s t] by (auto simp: accounts_def)

lemma accounts_AddUser:
  assumes "accounts M s" "AddUser u s = (r, t)"
  shows "accounts M t"
proof (rule accounts_frame [OF assms(1)])
  obtain e u' where a: "AddUser u s = ((e, u'), t)" using assms(2) by (cases r) auto
  have s: "healthy s" "ledger (tables s)" using assms(1) by (simp_all add: accounts_def)
  show "healthy t" using healthy_writes(1) s(1) a .
  show "ledger (tables t)" by (rule all_or_nothing_ledger [OF AddUser_spec(1) [OF a] s(2)]) (erule user_added_ledger [OF _ s(2)])
  show "uuid_in t = uuid_in s" using later_now [OF AddUser_spec(2) [OF a]] by simp
  show "orders (tables t) = orders (tables s)"
    using AddUser_spec(1) [OF a] by (auto simp: all_or_nothing_def user_added_def split: option.splits)
qed

lemma accounts_AddWithdrawn:
  assumes "accounts M s" "AddWithdrawn w s = (r, t)"
  shows "accounts M t"
proof (rule accounts_frame [OF assms(1)])
  obtain e w' where a: "AddWithdrawn w s = ((e, w'), t)" using assms(2) by (cases r) auto
  have s: "healthy s" "ledger (tables s)" using assms(1) by (simp_all add: accounts_def)
  show "healthy t" using healthy_writes(4) s(1) a .
  show "ledger (tables t)"
    by (rule all_or_nothing_ledger [OF AddWithdrawn_spec(1) [OF a] s(2)]) (erule withdrawal_added_ledger [OF _ s(2)])
  show "uuid_in t = uuid_in s" using later_now [OF AddWithdrawn_spec(2) [OF a]] by simp
  have "withdrawal_added w s w' t \<Longrightarrow> orders (tables t) = orders (tables s)"
    using withdrawal_added_books [of w s w' t] s by (auto simp: ledger_def)
  with AddWithdrawn_spec(1) [OF a] show "orders (tables t) = orders (tables s)"
    by (auto simp: all_or_nothing_def split: option.splits)
qed

text \<open>A stored order leaves the other tasks tracked, and a task for itself is tracked too.\<close>

lemma accounts_AddOrder:
  assumes "accounts M s" "AddOrder m s = ((e, m'), t)"
  shows "accounts M t" "e = None \<Longrightarrow> m = new_order i c \<Longrightarrow> accounts (add_mset m' M) t"
proof -
  have s: "healthy s" "ledger (tables s)" "\<forall>x\<in>#M. tracked s x" "\<forall>i. count (image_mset ord_ID M) i \<le> 1"
    using assms(1) by (simp_all add: accounts_def)
  have u: "uuid_in t = uuid_in s" using later_now [OF AddOrder_spec(2) [OF assms(2)]] by simp
  have l: "ledger (tables t)"
    by (rule all_or_nothing_ledger [OF AddOrder_spec(1) [OF assms(2)] s(2)]) (erule order_added_ledger [OF _ s(2)])
  have new: "ord_ID x \<noteq> ord_ID m" if "order_added m s t" "x \<in># M" for x
    using that s(3) by (fastforce simp: order_added_def tracked_def)
  have tr: "tracked t x" if "x \<in># M" for x
  proof (rule tracked_later)
    show "tracked s x" using s(3) that by blast
    show "r \<in> set (orders (tables t)) \<longleftrightarrow> r \<in> set (orders (tables s))" if "or_id r = ord_ID x" for r
      using AddOrder_spec(1) [OF assms(2)] new [OF _ \<open>x \<in># M\<close>] that
      by (auto simp: all_or_nothing_def order_added_def split: option.splits)
  qed (rule u)
  show "accounts M t" using tr l s(4) healthy_writes(2) [OF s(1) assms(2)] by (simp add: accounts_def)
  assume "e = None" and m: "m = new_order i c"
  then have a: "order_added m s t" "m' = m" using AddOrder_spec(1,3) [OF assms(2)] by (simp_all add: all_or_nothing_def)
  have "tracked t m"
    using a(1) u by (auto simp: order_added_def tracked_def updatable_def m new_order_def zero_order_def status_in_def status_defs)
  moreover have "count (image_mset ord_ID M) (ord_ID m) = 0"
    by (auto simp: count_eq_zero_iff dest: new [OF a(1)])
  ultimately show "accounts (add_mset m' M) t"
    using tr l s(4) healthy_writes(2) [OF s(1) assms(2)] by (simp add: accounts_def a(2))
qed

text \<open>The update of a tracked order, once its task is closed; while it is in process a new task may be opened.\<close>

lemma image_other:
  assumes "\<And>x. g (f x) = g x" "\<And>x. g x \<noteq> i \<Longrightarrow> f x = x"
  shows "g r \<noteq> i \<Longrightarrow> r \<in> f ` A \<longleftrightarrow> r \<in> A" "(\<exists>r\<in>f ` A. g r = i) \<longleftrightarrow> (\<exists>r\<in>A. g r = i)"
  using assms by (metis image_iff, simp)

lemma upserted_orders:
  fixes d :: db
  defines "f \<equiv> \<lambda>i a st r. if or_id r = i then r\<lparr>or_accrual := a, or_status := st\<rparr> else (r :: order_row)"
  shows "or_id r \<noteq> i \<Longrightarrow> r \<in> set (orders (order_upserted i uid st a n d)) \<longleftrightarrow> r \<in> set (orders d)"
    and "\<exists>r\<in>set (orders d). or_id r = i \<Longrightarrow> \<exists>r\<in>set (orders (order_upserted i uid st a n d)). or_id r = i"
proof -
  have f: "or_id (f i a st r) = or_id r" "or_id r \<noteq> i \<Longrightarrow> f i a st r = r" for i a st r by (simp_all add: f_def)
  note o = image_other [of or_id "f i a st" i, OF f]
  have u: "set (orders (order_upserted i uid st a n d)) = (if \<exists>r\<in>set (orders d). or_id r = i then f i a st ` set (orders d)
      else insert \<lparr>or_id = i, or_user = uid, or_status = st, or_accrual = a, or_uploaded = n, or_updated = n\<rparr> (set (orders d)))"
    by (simp add: order_upserted_def f_def)
  show "or_id r \<noteq> i \<Longrightarrow> r \<in> set (orders (order_upserted i uid st a n d)) \<longleftrightarrow> r \<in> set (orders d)"
    using o(1) [of r "set (orders d)"] unfolding u by auto
  show "\<exists>r\<in>set (orders d). or_id r = i \<Longrightarrow> \<exists>r\<in>set (orders (order_upserted i uid st a n d)). or_id r = i"
    using o(2) [of "set (orders d)"] unfolding u by simp
qed

lemma order_updated_row:
  assumes "order_updated m s t"
  obtains uid st where "uuid_in s (ord_UserID m) = Some uid" "status_in (ord_Status m) = Some st"
    "orders (tables t) = orders (order_upserted (ord_ID m) uid st (sint (ord_Accrual m)) (now s) (tables s))"
  using assms balance_moved_ids(5) by (auto simp: order_updated_def Let_def split: if_splits)

lemma order_updated_orders:
  assumes "order_updated m s t" "or_id r \<noteq> ord_ID m"
  shows "r \<in> set (orders (tables t)) \<longleftrightarrow> r \<in> set (orders (tables s))"
  using assms(1) by (rule order_updated_row) (simp add: upserted_orders(1) [OF assms(2)])

lemma order_updated_tracked:
  assumes "order_updated m s t" "tracked s m" "uuid_in t = uuid_in s" "ord_Status m \<noteq> OrderProcessedStatus"
  shows "tracked t m"
  using assms(1)
proof (rule order_updated_row)
  fix uid st
  assume o: "uuid_in s (ord_UserID m) = Some uid" "status_in (ord_Status m) = Some st"
    "orders (tables t) = orders (order_upserted (ord_ID m) uid st (sint (ord_Accrual m)) (now s) (tables s))"
  have "st \<noteq> PROCESSED" using o(2) assms(4) status_PROCESSED by blast
  moreover have "updatable (ord_ID m) uid (tables s)" using assms(2) o(1) by (auto simp: tracked_def)
  moreover have "\<exists>r\<in>set (orders (tables t)). or_id r = ord_ID m"
    using upserted_orders(2) [of "tables s"] assms(2) unfolding o(3) tracked_def by blast
  ultimately have "updatable (ord_ID m) uid (tables t)"
    unfolding updatable_def o(3) using assms(2) by (auto simp: order_upserted_def tracked_def)
  with \<open>\<exists>r\<in>set (orders (tables t)). or_id r = ord_ID m\<close> o(1) assms(2,3) show ?thesis by (simp add: tracked_def)
qed

lemma accounts_UpdateOrder:
  assumes "accounts (add_mset x M) s" "UpdateOrder m s = ((e, m'), t)"
    and "ord_ID m = ord_ID x" "ord_UserID m = ord_UserID x" "0 \<le> sint (ord_Accrual m)"
  shows "accounts M t" "e = None \<Longrightarrow> ord_Status m \<noteq> OrderProcessedStatus \<Longrightarrow> accounts (add_mset m M) t"
proof -
  have s: "healthy s" "ledger (tables s)" "\<forall>y\<in>#M. tracked s y" "tracked s x" "\<forall>i. count (image_mset ord_ID (add_mset x M)) i \<le> 1"
    using assms(1) by (simp_all add: accounts_def)
  have m: "tracked s m" using s(4) assms(3-5) by (simp add: tracked_def)
  have u: "uuid_in t = uuid_in s" using later_now [OF UpdateOrder_spec(2) [OF assms(2)]] by simp
  have h: "healthy t" using healthy_writes(3) [OF s(1) assms(2)] .
  have l: "ledger (tables t)"
  proof (rule all_or_nothing_ledger [OF UpdateOrder_spec(1) [OF assms(2)] s(2)])
    show "ledger (tables t)" if "order_updated m s t"
      by (rule order_updated_ledger [OF that s(2) assms(5)]) (use m in \<open>auto simp: tracked_def\<close>)
  qed
  have other: "ord_ID y \<noteq> ord_ID m" if "y \<in># M" for y
  proof -
    have "count (image_mset ord_ID M) (ord_ID x) = 0" using s(5) [rule_format, of "ord_ID x"] by simp
    with that assms(3) show ?thesis by (metis count_eq_zero_iff image_eqI set_image_mset)
  qed
  have tr: "tracked t y" if "y \<in># M" for y
  proof (rule tracked_later)
    show "tracked s y" using s(3) that by blast
    show "r \<in> set (orders (tables t)) \<longleftrightarrow> r \<in> set (orders (tables s))" if "or_id r = ord_ID y" for r
      using UpdateOrder_spec(1) [OF assms(2)] other [OF \<open>y \<in># M\<close>] order_updated_orders [of m s t r] that
      by (auto simp: all_or_nothing_def split: option.splits)
  qed (rule u)
  have c: "\<forall>i. count (image_mset ord_ID (add_mset m M)) i \<le> 1" using s(5) assms(3) by simp
  have "count (image_mset ord_ID M) i \<le> count (image_mset ord_ID (add_mset x M)) i" for i by simp
  then have "\<forall>i. count (image_mset ord_ID M) i \<le> 1" using s(5) le_trans by blast
  with h l tr show "accounts M t" by (simp add: accounts_def)
  assume e: "e = None" "ord_Status m \<noteq> OrderProcessedStatus"
  then have "order_updated m s t" using UpdateOrder_spec(1) [OF assms(2)] by (simp add: all_or_nothing_def)
  from order_updated_tracked [OF this m u e(2)] h l tr c show "accounts (add_mset m M) t" by (simp add: accounts_def)
qed

section \<open>Requests and tasks keep what they rely on\<close>

text \<open>
  \<open>inv M s\<close>: the database \<open>s\<close> is in order, given that the tasks \<open>M\<close> are open. The laws say what each repository
  call does to it; a task is closed by the update of its order, and opened again while that is in process.
\<close>

locale task_books =
  fixes inv :: "task multiset \<Rightarrow> server \<Rightarrow> bool"
    and hp :: "string \<Rightarrow> go_error + string"
  assumes inv_healthy: "inv M s \<Longrightarrow> healthy s"
    and inv_fewer: "inv (M + N) s \<Longrightarrow> inv M s"
    and inv_amount: "inv (add_mset m M) s \<Longrightarrow> 0 \<le> sint (ord_Accrual m)"
    and inv_same_order: "inv (add_mset m M) s \<Longrightarrow> ord_ID x = ord_ID m \<Longrightarrow> ord_UserID x = ord_UserID m \<Longrightarrow>
      0 \<le> sint (ord_Accrual x) \<Longrightarrow> inv (add_mset x M) s"
    and inv_later: "inv M s \<Longrightarrow> later s t \<Longrightarrow> tables t = tables s \<Longrightarrow> inv M t"
    and inv_register: "inv M s \<Longrightarrow> registered hp u \<Longrightarrow> AddUser u s = (x1, t) \<Longrightarrow> inv M t"
    and inv_withdraw: "inv M s \<Longrightarrow> IsValidLuhn (wd_OrderID w) \<Longrightarrow> AddWithdrawn w s = (x2, t) \<Longrightarrow> inv M t"
    and inv_failed: "inv M s \<Longrightarrow> orderly m \<Longrightarrow> AddOrder m s = ((Some e, m'), t) \<Longrightarrow> inv M t"
    and inv_new: "inv M s \<Longrightarrow> orderly (new_order i c) \<Longrightarrow> AddOrder (new_order i c) s = ((None, m'), t) \<Longrightarrow> inv (add_mset m' M) t"
    and inv_update: "inv (add_mset x M) s \<Longrightarrow> UpdateOrder m s = ((err, m'), t) \<Longrightarrow> ord_ID m = ord_ID x \<Longrightarrow>
      ord_UserID m = ord_UserID x \<Longrightarrow> 0 \<le> sint (ord_Accrual m) \<Longrightarrow>
      inv M t \<and> (err = None \<longrightarrow> ord_Status m \<noteq> OrderProcessedStatus \<longrightarrow> inv (add_mset m M) t)"
begin

lemma inv_reads:
  "inv M s \<Longrightarrow> GetUser l s = (x1, t) \<Longrightarrow> inv M t" "inv M s \<Longrightarrow> GetUserByID i s = (x2, t) \<Longrightarrow> inv M t"
  "inv M s \<Longrightarrow> GetOrder i j s = (x3, t) \<Longrightarrow> inv M t" "inv M s \<Longrightarrow> GetWithdrawn i s = (x4, t) \<Longrightarrow> inv M t"
  "inv M s \<Longrightarrow> ListOrders i s = (x5, t) \<Longrightarrow> inv M t" "inv M s \<Longrightarrow> ListWithdrawals i s = (x6, t) \<Longrightarrow> inv M t"
  using inv_healthy inv_later GetUser_spec(1,2) GetUserByID_spec(1,2) GetOrder_spec(1,2) lists_frame GetWithdrawn_spec(1,2) by metis+

end

text \<open>\<open>N\<close>: the open tasks outside the link channel.\<close>

sublocale task_books \<subseteq> requests: request_storage NewSQLStorage "\<lambda>T. inv (N + mset T)" hp for N
proof unfold_locales
  fix T s m i c m' t
  show "inv (N + mset T) s \<Longrightarrow> orderly (new_order i c) \<Longrightarrow> st_AddOrder NewSQLStorage (new_order i c) s = ((None, m'), t) \<Longrightarrow>
      inv (N + mset (T @ [m'])) t"
    using inv_new [of "N + mset T" s i c m' t] by (simp add: NewSQLStorage_def)
  show "inv (N + mset (T @ [m])) s \<Longrightarrow> inv (N + mset T) s"
    using inv_fewer [of "N + mset T" "{#m#}"] by simp
qed (simp_all add: NewSQLStorage_def, (erule (1) inv_reads | erule (2) inv_register inv_withdraw inv_failed)+)

lemma accounts_same_order:
  "accounts (add_mset m M) s \<Longrightarrow> ord_ID x = ord_ID m \<Longrightarrow> ord_UserID x = ord_UserID m \<Longrightarrow> 0 \<le> sint (ord_Accrual x) \<Longrightarrow>
   accounts (add_mset x M) s"
  by (auto simp: accounts_def tracked_def)

interpretation ledger_books: task_books accounts hp for hp :: "string \<Rightarrow> go_error + string"
proof unfold_locales
  fix x m :: order and M s e m' t
  show "accounts (add_mset x M) s \<Longrightarrow> UpdateOrder m s = ((e, m'), t) \<Longrightarrow> ord_ID m = ord_ID x \<Longrightarrow>
      ord_UserID m = ord_UserID x \<Longrightarrow> 0 \<le> sint (ord_Accrual m) \<Longrightarrow>
      accounts M t \<and> (e = None \<longrightarrow> ord_Status m \<noteq> OrderProcessedStatus \<longrightarrow> accounts (add_mset m M) t)"
    using accounts_UpdateOrder [of x M s m e m' t] by blast
  show "accounts (add_mset m M) s \<Longrightarrow> 0 \<le> sint (ord_Accrual m)" by (simp add: accounts_def tracked_def)
  show "accounts (add_mset m M) s \<Longrightarrow> ord_ID x = ord_ID m \<Longrightarrow> ord_UserID x = ord_UserID m \<Longrightarrow> 0 \<le> sint (ord_Accrual x) \<Longrightarrow>
      accounts (add_mset x M) s" by (rule accounts_same_order)
  show "accounts M s \<Longrightarrow> healthy s" by (simp add: accounts_def)
qed (blast intro: accounts_fewer accounts_later accounts_AddUser accounts_AddWithdrawn accounts_AddOrder)+

text \<open>No answer of the accrual service takes points away: neither an amount with a minus, nor one so large that its
kopecks wrap around to a negative number (lemma \<open>conver_wraps\<close>).\<close>

definition generous :: "(string \<Rightarrow> 'c \<Rightarrow> (go_error + accrual_response) \<times> 'c) \<Rightarrow> bool" where
  "generous client \<longleftrightarrow> (\<forall>i c resp c' a. client i c = (Inr resp, c') \<longrightarrow>
     converStringAccrualToInt (ar_Accrual resp) = Returns (Inr a) \<longrightarrow> 0 \<le> sint a)"

text \<open>A worker at work keeps to its task: the answer it has gives no negative amount, and the order it is
about to send back is the order of its task.\<close>

fun worker_ok :: "worker \<Rightarrow> bool" where
  "worker_ok (Answered t (Inr resp)) \<longleftrightarrow> (\<forall>a. converStringAccrualToInt (ar_Accrual resp) = Returns (Inr a) \<longrightarrow> 0 \<le> sint a)"
| "worker_ok (Sending t m) \<longleftrightarrow> ord_ID m = ord_ID t \<and> ord_UserID m = ord_UserID t \<and> 0 \<le> sint (ord_Accrual m)"
| "worker_ok _ \<longleftrightarrow> True"

context task_books
begin

lemma answer_inv:
  assumes "answer_task NewSQLStorage x r o' = (Returns y, t)" "worker_ok (Answered x r)"
    and acc: "inv (add_mset x M) (os_db o')"
  shows "case y of Finished e \<Rightarrow> inv M (os_db t) | SendBack e m \<Rightarrow> inv (add_mset x M) (os_db t) \<and> worker_ok (Sending x m)"
proof -
  have old: "0 \<le> sint (ord_Accrual x)" by (rule inv_amount [OF acc])
  have fewer: "inv M s" if "inv (add_mset x M) s" for s using inv_fewer [of M "{#x#}"] that by simp
  show ?thesis
  proof (cases r)
    case (Inl err)
    then show ?thesis using assms(1) acc fewer old by (auto simp: answer_task_def split: option.splits outcome.splits if_splits)
  next
    case (Inr resp)
    show ?thesis
    proof (cases "ar_Status resp = OrderInProcessStatus \<and> ord_Status x = ar_Status resp")
      case True
      then show ?thesis using assms(1) Inr acc old by (auto simp: answer_task_def)
    next
      case False
      obtain e m where m: "take_answer resp x = Returns (e, m)"
        using assms(1) Inr False by (auto simp: answer_task_def split: outcome.splits)
      show ?thesis
      proof (cases e)
        case (Some err)
        then show ?thesis using assms(1) Inr False m acc fewer by (auto simp: answer_task_def)
      next
        case None
        obtain a where a: "m = answered resp a x" "0 \<le> sint a"
          using take_answer_fields m None old assms(2) Inr by fastforce
        obtain e2 m2 s1 where u: "UpdateOrder m (os_db o') = ((e2, m2), s1)" by (metis prod.collapse)
        have m2: "m2 = m" by (rule UpdateOrder_spec(3) [OF u])
        have t: "os_db t = s1" "y = (if e2 = None \<and> ord_Status m = OrderInProcessStatus then SendBack None m else Finished e2)"
          using assms(1) Inr False m None u m2 by (auto simp: answer_task_def NewSQLStorage_def split: option.splits)
        note acc_u = inv_update [OF acc u, unfolded a(1) answered_fields, OF refl refl a(2)]
        have "inv (add_mset x M) s1" if "e2 = None" "ord_Status m = OrderInProcessStatus"
          using inv_same_order [OF acc_u [THEN conjunct2, rule_format] _ _ old] that a(1) by (simp add: status_defs)
        then show ?thesis using acc_u t a by auto
      qed
    qed
  qed
qed

end

section \<open>The server\<close>

text \<open>
  A goroutine of the pool moves or the pool is stopped; or a request is served, on the order service that
  the handlers share with the pool. A handler that panics is caught by the HTTP server.
\<close>

inductive server_step :: "('s, 'z) env \<Rightarrow> (string \<Rightarrow> 'c \<Rightarrow> (go_error + accrual_response) \<times> 'c) \<Rightarrow> 'd PersistStorageInterface \<Rightarrow>
    ('s, 'c, 'd) pool \<Rightarrow> ('s, 'c, 'd) pool \<Rightarrow> bool"
  for e :: "('s, 'z) env" and client :: "string \<Rightarrow> 'c \<Rightarrow> (go_error + accrual_response) \<times> 'c" and ps :: "'d PersistStorageInterface" where
  pool: "pool_step (e_db e) client ps p q \<Longrightarrow> server_step e client ps p q"
| request: "wp_crashed p = None \<Longrightarrow> serve e m path r (wp_service p) = Some (res, resp, svc) \<Longrightarrow>
    server_step e client ps p (p\<lparr>wp_service := svc, wp_sent := wp_sent p @ new_tasks (wp_service p) svc\<rparr>)"

text \<open>The open tasks that are not in the link channel.\<close>

definition elsewhere :: "('s, 'c, 'd) pool \<Rightarrow> task multiset" where
  "elsewhere p = mset (reader_tasks (wp_reader p)) + mset (wp_pendingTasks p) + mset (dispatcher_tasks (wp_dispatcher p)) +
     mset (chan_buf (wp_workerCh p)) + sum_list (map worker_tasks (wp_workers p)) + mset (wp_drained p)"

lemma open_tasks: "bag_open (bag_of p) = elsewhere p + mset (chan_buf (taskCh p))"
  by (simp add: bag_defs elsewhere_def ac_simps)

section \<open>Everything the server does keeps its state sound\<close>

definition server_ok :: "(server, 'c, 'd) pool \<Rightarrow> bool" where
  "server_ok p \<longleftrightarrow> sql.sound (wp_service p) \<and> (link_open (wp_service p) \<or> wp_parent p)"

lemma answer_sound:
  assumes "answer_task NewSQLStorage x r o' = (y, t)" "sql.sound o'"
  shows "sql.sound t \<and> link_open t = link_open o'"
proof -
  have k: "UpdateOrder m s = (x, s1) \<Longrightarrow> healthy s \<Longrightarrow> healthy s1" for m s x s1
    using healthy_writes(3) by (cases x) auto
  have "healthy (os_db t)"
    using assms by (auto simp: answer_task_def sql.sound_def NewSQLStorage_def split: sum.splits option.splits outcome.splits if_splits prod.splits dest: k)
  then show ?thesis
    using assms(2) answer_task_adds [OF assms(1)] by (auto simp: sql.sound_def link_open_def dest: adds_closed)
qed

lemma send_back_sound:
  assumes "sendOrderToProcessor m o' = (y, t)" "sql.sound o'"
  shows "sql.sound t \<and> link_open t = link_open o'"
  using assms by (auto simp: sendOrderToProcessor_def try_send_def sql.sound_def link_open_def split: if_splits)

lemma Store_without_claims: "OrderService_Store db None i o' = (r, t) \<Longrightarrow> t = o'"
  by (auto simp: OrderService_Store_def split: if_splits)

lemma server_ok_step:
  assumes "pool_step NewSQLStorage client ps p q" "server_ok p"
  shows "server_ok q"
  using assms(1)
proof cases
  case (worker i)
  from worker(2) assms(2) show ?thesis
    by (cases rule: worker_step.cases)
      (auto simp: server_ok_def pool_ops sql.sound_def link_open_def dest: answer_sound [unfolded sql.sound_def link_open_def]
        send_back_sound [unfolded sql.sound_def link_open_def])
next
  case outer
  from outer(2) assms(2) show ?thesis
  proof (cases rule: outer_step.cases)
    case (store c i r svc)
    with assms(2) show ?thesis
      using sql.Store_sound [of _ i "wp_service p" r svc] Store_without_claims [of NewSQLStorage i "wp_service p" r svc]
      by (cases c) (auto simp: server_ok_def link_open_def dest!: Store_adds [THEN adds_closed])
  qed (auto simp: server_ok_def link_open_def sql.sound_def pool_ops)
qed (use assms(2) in \<open>auto simp: server_ok_def link_open_def sql.sound_def pool_ops elim!: run_step.cases dispatch_step.cases
    split: if_splits\<close>)

lemma held_task:
  assumes "i < length (wp_workers p)" "worker_tasks (wp_workers p ! i) = {#t#}"
  shows "bag_open (bag_of p) = add_mset t (elsewhere (p\<lparr>wp_workers := (wp_workers p)[i := Idle]\<rparr>) + mset (chan_buf (taskCh p)))"
  using sum_list_update_mset [OF assms(1), of worker_tasks Idle] assms(2)
  by (simp add: open_tasks elsewhere_def flip: add_mset_add_single)

lemma elsewhere_frame:
  "elsewhere (p\<lparr>wp_workers := ws, wp_service := svc, wp_finished := f, wp_sent := n\<rparr>) = elsewhere (p\<lparr>wp_workers := ws\<rparr>)"
  "elsewhere (p\<lparr>wp_workers := ws, wp_service := svc, wp_finished := f\<rparr>) = elsewhere (p\<lparr>wp_workers := ws\<rparr>)"
  by (simp_all add: elsewhere_def)

lemma dispatch_workers: "dispatch_step ps p q \<Longrightarrow> wp_workers q = wp_workers p \<or> (\<exists>i t. wp_workers q = (wp_workers p)[i := Working t])"
  by (induction rule: dispatch_step.induct) (auto simp: pool_ops)

lemma request_ok:
  assumes "e_db e = NewSQLStorage" "serve e m path r (wp_service p) = Some (res, resp, svc)" "server_ok p"
  shows "server_ok (p\<lparr>wp_service := svc, wp_sent := wp_sent p @ new_tasks (wp_service p) svc\<rparr>)"
proof -
  have s: "sql.sound (wp_service p)" "link_open (wp_service p) \<or> wp_parent p"
    using assms(3) by (simp_all add: server_ok_def)
  from sql.serve_sound [OF assms(1) refl s(1) assms(2)] s(2) show ?thesis by (auto simp: server_ok_def)
qed

context task_books
begin

text \<open>The database is in order, given the open tasks, and so are the workers.\<close>

definition books_ok :: "(server, 'c, 'd) pool \<Rightarrow> bool" where
  "books_ok p \<longleftrightarrow> inv (bag_open (bag_of p)) (os_db (wp_service p)) \<and> (\<forall>w\<in>set (wp_workers p). worker_ok w)"

lemma books_same:
  "books_ok p \<Longrightarrow> bag_open (bag_of q) = bag_open (bag_of p) \<Longrightarrow> os_db (wp_service q) = os_db (wp_service p) \<Longrightarrow>
   wp_workers q = wp_workers p \<or> (\<exists>i w. wp_workers q = (wp_workers p)[i := w] \<and> worker_ok w) \<Longrightarrow> books_ok q"
  using workers_update [of "wp_workers p" worker_ok] unfolding books_ok_def by metis

lemma books_worker:
  assumes "worker_step NewSQLStorage client i p q" "generous client" "books_ok p"
  shows "books_ok q"
proof -
  have acc: "inv (bag_open (bag_of p)) (os_db (wp_service p))" and ws: "\<forall>w\<in>set (wp_workers p). worker_ok w"
    using assms(3) by (simp_all add: books_ok_def)
  have at: "worker_ok (wp_workers p ! i)" if "i < length (wp_workers p)" using ws that by simp
  from assms(1) show ?thesis
  proof cases
    case work_done
    then show ?thesis
      using sum_list_update_mset [of i "wp_workers p" worker_tasks WorkerDone] workers_update [OF ws, of WorkerDone i] acc
      by (simp add: books_ok_def bag_defs)
  next
    case (work_take t ts)
    then show ?thesis
      using sum_list_update_mset [of i "wp_workers p" worker_tasks "Working t"] workers_update [OF ws, of "Working t" i] acc
      by (simp add: books_ok_def bag_defs pool_ops ac_simps)
  next
    case (work_ask t r c)
    have "worker_ok (Answered t r)" using assms(2) work_ask(4) by (cases r) (auto simp: generous_def)
    with work_ask show ?thesis
      using workers_update [OF ws, of "Answered t r" i] acc by (simp add: books_ok_def bag_defs worker_bag)
  next
    case (work_finish t r e svc)
    note h = held_task [of i p t] and a = answer_task_adds [OF work_finish(4)]
    have "inv (elsewhere (p\<lparr>wp_workers := (wp_workers p)[i := Idle]\<rparr>) + mset (chan_buf (taskCh p))) (os_db svc)"
      using answer_inv [OF work_finish(4), of "elsewhere (p\<lparr>wp_workers := (wp_workers p)[i := Idle]\<rparr>) + mset (chan_buf (taskCh p))"]
        acc at work_finish(2,3) h by simp
    then show ?thesis
      unfolding books_ok_def work_finish(1) open_tasks elsewhere_frame
      using a workers_update [OF ws, of Idle i] by simp
  next
    case (work_again t r e m svc)
    note h = held_task [of i p t] and a = answer_task_adds [OF work_again(4)]
    have k: "inv (bag_open (bag_of p)) (os_db svc) \<and> worker_ok (Sending t m)"
      using answer_inv [OF work_again(4), of "elsewhere (p\<lparr>wp_workers := (wp_workers p)[i := Idle]\<rparr>) + mset (chan_buf (taskCh p))"]
        acc at work_again(2,3) h by simp
    have "bag_open (bag_of q) = bag_open (bag_of p)" unfolding work_again(1) using a work_again(2,3) by (simp add: bag_defs worker_bag)
    with k show ?thesis
      unfolding books_ok_def using workers_update [OF ws, of "Sending t m" i] by (simp add: work_again(1))
  next
    case (work_send t m u svc)
    let ?M = "elsewhere (p\<lparr>wp_workers := (wp_workers p)[i := Idle]\<rparr>) + mset (chan_buf (taskCh p))"
    have h: "bag_open (bag_of p) = add_mset t ?M" using held_task [of i p t] work_send(2,3) by simp
    have m: "inv (add_mset m ?M) (os_db (wp_service p))" "inv ?M (os_db (wp_service p))"
      using acc at work_send(2,3) inv_same_order [of t ?M _ m] inv_fewer [of ?M "{#t#}"] unfolding h by simp_all
    have "os_db svc = os_db (wp_service p) \<and>
        (chan_buf (os_reports svc) = chan_buf (taskCh p) \<or> chan_buf (os_reports svc) = chan_buf (taskCh p) @ [m])"
      using work_send(4) by (auto simp: sendOrderToProcessor_def try_send_def split: if_splits)
    then have "inv (elsewhere (p\<lparr>wp_workers := (wp_workers p)[i := Idle]\<rparr>) + mset (chan_buf (os_reports svc))) (os_db svc)"
      using m by auto
    then show ?thesis
      unfolding books_ok_def work_send(1) open_tasks elsewhere_frame using workers_update [OF ws, of Idle i] by simp
  next
    case work_panic
    then show ?thesis using acc ws by (simp add: books_ok_def bag_defs)
  qed
qed

lemma books_step:
  assumes "pool_step NewSQLStorage client ps p q" "server_ok p" "generous client" "books_ok p"
  shows "books_ok q"
  using assms(1)
proof cases
  case reader
  from reader(2) have "os_db (wp_service q) = os_db (wp_service p)" "wp_workers q = wp_workers p" by (cases; simp add: pool_ops)+
  with assms(4) run_step_bag [OF reader(2)] show ?thesis by (simp add: books_ok_def)
next
  case dispatcher
  from dispatcher(2) have "os_db (wp_service q) = os_db (wp_service p)" by cases (simp_all add: pool_ops)
  moreover have "wp_workers q = wp_workers p \<or> (\<exists>i w. wp_workers q = (wp_workers p)[i := w] \<and> worker_ok w)"
    using dispatch_workers [OF dispatcher(2)] by (metis worker_ok.simps(4))
  ultimately show ?thesis
    using dispatch_step_bag [OF dispatcher(2)] assms(2)
    by (intro books_same [OF assms(4)]) (simp_all add: server_ok_def sql.sound_def)
next
  case (worker i)
  show ?thesis by (rule books_worker [OF worker(2) assms(3,4)])
next
  case outer
  from outer(2) show ?thesis
  proof cases
    case (store c i r svc)
    have "requests.sound (elsewhere p) (wp_service p)"
      using assms(2,4) by (simp add: books_ok_def requests.sound_def sql.sound_def server_ok_def open_tasks)
    then have "requests.sound (elsewhere p) svc"
      using store(2) requests.Store_sound [of _ i "wp_service p" r svc] Store_without_claims [of NewSQLStorage i "wp_service p" r svc]
      by (cases c) auto
    then show ?thesis using assms(4) unfolding books_ok_def open_tasks store(1) by (simp add: requests.sound_def elsewhere_def)
  qed (use assms(4) in \<open>simp_all add: books_ok_def bag_defs pool_ops\<close>)
qed

lemma books_request:
  assumes "e_db e = NewSQLStorage" "e_hash e = hp" "serve e m path r (wp_service p) = Some (res, resp, svc)"
    and "server_ok p" "books_ok p"
  shows "books_ok (p\<lparr>wp_service := svc, wp_sent := wp_sent p @ new_tasks (wp_service p) svc\<rparr>)"
proof -
  have "requests.sound (elsewhere p) (wp_service p)"
    using assms(4,5) by (simp add: books_ok_def requests.sound_def sql.sound_def server_ok_def open_tasks)
  from requests.serve_sound [OF assms(1,2) this assms(3)] assms(5)
  show ?thesis by (simp add: books_ok_def open_tasks requests.sound_def elsewhere_def)
qed

end

lemma NewRouter_pool_service:
  assumes "NewRouter_pool (Inr ps) uuid_err n w b s c d = Inr (Some (Returns p))"
  shows "wp_service p = \<lparr>os_db = s, os_client = c, os_reports = make_chan n, os_pause = make_chan 1\<rparr>"
    "bag_open (bag_of p) = mset (wp_pendingTasks p)" "wp_workers p = replicate w Idle" "wp_crashed p = None"
  using assms idle_workers [of w]
  by (auto simp: NewRouter_pool_def NewQueueProcessor_def RestoreQueue_def Let_def bag_defs make_chan_def
      split: if_splits prod.splits sum.splits option.splits)

lemma server_ok_start:
  "NewRouter_pool (Inr ps) uuid_err n w b s c d = Inr (Some (Returns p)) \<Longrightarrow> healthy s \<Longrightarrow> server_ok p"
  using NewRouter_pool_service(1) by (fastforce simp: server_ok_def sql.sound_def link_open_def make_chan_def)

interpretation alive: step_invariant "server_step e client ps" "\<lambda>p. e_db e = NewSQLStorage \<longrightarrow> server_ok p"
  for e :: "(server, 'z) env" and client :: "string \<Rightarrow> 'c \<Rightarrow> (go_error + accrual_response) \<times> 'c" and ps :: "'d PersistStorageInterface"
  by unfold_locales (auto elim!: server_step.cases dest: server_ok_step request_ok)

sublocale task_books \<subseteq> honest: step_invariant "server_step e client ps"
  "\<lambda>p. e_db e = NewSQLStorage \<and> e_hash e = hp \<and> generous client \<longrightarrow> server_ok p \<and> books_ok p"
  for e :: "(server, 'z) env" and client :: "string \<Rightarrow> 'c \<Rightarrow> (go_error + accrual_response) \<times> 'c" and ps :: "'d PersistStorageInterface"
  by unfold_locales (auto elim!: server_step.cases dest: server_ok_step books_step request_ok books_request)

context task_books
begin

lemma run_keeps:
  assumes "NewRouter_pool (Inr ps) uuid_err n w b s c d = Inr (Some (Returns p))" "inv (mset (wp_pendingTasks p)) s"
    and "e_db e = NewSQLStorage" "e_hash e = hp" "generous client" "(server_step e client ps)\<^sup>*\<^sup>* p q"
  shows "inv (tasks_of q + mset (wp_drained q)) (os_db (wp_service q))"
proof -
  note start = NewRouter_pool_service [OF assms(1)]
  have "books_ok p" using start assms(2) by (simp add: books_ok_def)
  with honest.run_kept [OF assms(6)] server_ok_start [OF assms(1) inv_healthy [OF assms(2)]] assms(3-5)
  have "books_ok q" by simp
  then show ?thesis by (simp add: books_ok_def bag_of_def)
qed

end

text \<open>C1. The books of the whole server. It starts on a database whose books balance, with restored tasks, if
any, for distinct stored orders that are not processed yet. Then whatever requests it is sent, however
its goroutines interleave, whatever fails or is retried, and whatever the accrual service answers as long
as it takes no points away: keys stay unique, no balance is negative, and every user's balance plus
withdrawals is what processed orders earned. No order is credited twice, as no two open tasks, those a
dump took included, are for the same order and each is for an order of its user that is not processed.\<close>
theorem books_of_the_server:
  assumes "NewRouter_pool (Inr ps) uuid_err n w b s c d = Inr (Some (Returns p))"
    and "healthy s" "ledger (tables s)" "\<forall>t\<in>set (wp_pendingTasks p). tracked s t" "distinct (map ord_ID (wp_pendingTasks p))"
    and "e_db e = NewSQLStorage" "generous client" "(server_step e client ps)\<^sup>*\<^sup>* p q"
  shows "keys_ok (tables (os_db (wp_service q))) \<and> balances_ok (tables (os_db (wp_service q))) \<and>
    (\<forall>uid. balance_of uid (tables (os_db (wp_service q))) + withdrawn_sum uid (tables (os_db (wp_service q))) =
       credited uid (tables (os_db (wp_service q)))) \<and>
    (\<forall>t\<in>#tasks_of q + mset (wp_drained q). tracked (os_db (wp_service q)) t) \<and>
    (\<forall>i. count (image_mset ord_ID (tasks_of q + mset (wp_drained q))) i \<le> 1)"
proof -
  have "count (mset (map ord_ID (wp_pendingTasks p))) i \<le> 1" for i using assms(5) by (simp add: distinct_count_atmost_1)
  then have "accounts (mset (wp_pendingTasks p)) s" using assms(2-4) by (simp add: accounts_def)
  from ledger_books.run_keeps [OF assms(1) this assms(6) refl assms(7,8)]
  show ?thesis by (simp add: accounts_def ledger_def books_balance_def)
qed

text \<open>After a stop the next server starts under the same conditions: what it restores is what the dispatcher
collected, and that is some of the open tasks and of those it took from the work channel.\<close>

interpretation dumping: step_invariant "server_step e client ps" dump_sound
  for e :: "('s, 'z) env" and client :: "string \<Rightarrow> 'c \<Rightarrow> (go_error + accrual_response) \<times> 'c" and ps :: "'d PersistStorageInterface"
proof
  fix p q assume "server_step e client ps p q" "dump_sound p"
  then show "dump_sound q"
    by (cases rule: server_step.cases) (auto intro: pool_dump.kept dump_sound_frame [where ts = "[]"])
qed

lemma left_over_open:
  assumes "dump_sound q"
  shows "mset (left_over q) \<subseteq># tasks_of q + mset (wp_drained q)"
proof (cases "\<exists>ts. wp_dispatcher q = Dumping ts")
  case True
  with assms obtain old new where "wp_pendingTasks q = old @ new" "left_over q = old @ wp_drained q"
    by (auto simp: dump_sound_def left_over_def)
  then have "tasks_of q + mset (wp_drained q) = mset (left_over q) + (mset new + mset (reader_tasks (wp_reader q)) +
      mset (chan_buf (taskCh q)) + mset (dispatcher_tasks (wp_dispatcher q)) + mset (chan_buf (wp_workerCh q)) +
      sum_list (map worker_tasks (wp_workers q)))"
    by (simp add: tasks_of_def ac_simps)
  then show ?thesis by (metis mset_subset_eq_add_left)
qed (auto simp: left_over_def split: dispatcher.splits)

lemma next_start:
  assumes "dump_sound q" "\<forall>t\<in>#tasks_of q + mset (wp_drained q). tracked s t"
    and "\<forall>i. count (image_mset ord_ID (tasks_of q + mset (wp_drained q))) i \<le> 1"
  shows "\<forall>t\<in>set (map (avro_image format parse) (left_over q)). tracked s t" "distinct (map ord_ID (map (avro_image format parse) (left_over q)))"
proof -
  note o = left_over_open [OF assms(1)]
  have i: "ord_ID (avro_image format parse t) = ord_ID t" "tracked s (avro_image format parse t) = tracked s t" for t
    by (simp_all add: avro_image_def tracked_def)
  show "\<forall>t\<in>set (map (avro_image format parse) (left_over q)). tracked s t"
    using assms(2) mset_subset_eqD [OF o] by (auto simp: i)
  have "count (mset (map ord_ID (left_over q))) x \<le> count (image_mset ord_ID (tasks_of q + mset (wp_drained q))) x" for x
    using image_mset_subseteq_mono [OF o, of ord_ID] by (simp add: subseteq_mset_def)
  then have "\<forall>x. count (mset (map ord_ID (left_over q))) x \<le> 1" using assms(3) le_trans by blast
  then have "distinct (map ord_ID (left_over q))"
    by (metis One_nat_def count_greater_eq_one_iff distinct_count_atmost_1 le_antisym linorder_not_less less_one set_mset_mset count_eq_zero_iff)
  then show "distinct (map ord_ID (map (avro_image format parse) (left_over q)))" by (simp add: comp_def i)
qed

text \<open>C3. However the server has run so far, whatever requests it got and whatever the accrual service and the
database answered: until its context ends the next request, well-formed or not, does not make its
handler panic, and at any time a request leaves a database that satisfies all its constraints and a link
channel within its capacity.\<close>
theorem no_request_breaks_the_server:
  assumes "NewRouter_pool (Inr ps) uuid_err n w b s c d = Inr (Some (Returns p))" "healthy s" "e_db e = NewSQLStorage"
    and "(server_step e client ps)\<^sup>*\<^sup>* p q" "serve e m path r (wp_service q) = Some (res, resp, t)"
  shows "(wp_parent q \<or> res = Returns ()) \<and> healthy (os_db t) \<and> keys_ok (tables (os_db t)) \<and> balances_ok (tables (os_db t)) \<and>
    length (chan_buf (os_reports t)) \<le> chan_cap (os_reports t)"
proof -
  have q: "server_ok q" using alive.run_kept [OF assms(4)] server_ok_start [OF assms(1,2)] assms(3) by blast
  then have "sql.sound (wp_service q)" by (simp add: server_ok_def)
  from sql.serve_sound [OF assms(3) refl this assms(5)] q show ?thesis
    by (auto simp: server_ok_def sql.sound_def healthy_def)
qed

section \<open>Witnesses\<close>

text \<open>A server that starts with one stored order and its restored task, the stages of its way through the
pool, and the points in the end.\<close>

abbreviation the_task :: task where "the_task \<equiv> new_order ''79927398713'' demo_claims"

abbreviation paying :: "string \<Rightarrow> unit \<Rightarrow> (go_error + accrual_response) \<times> unit" where
  "paying \<equiv> fixed_client (Inr (demo_answer ''PROCESSED'' ''729.98''))"

definition demo_stage :: "task list \<Rightarrow> bool \<Rightarrow> dispatcher \<Rightarrow> task list \<Rightarrow> worker \<Rightarrow> server \<Rightarrow> task list \<Rightarrow> (server, unit, order list) pool" where
  "demo_stage pending token dsp ch w s fin = \<lparr>wp_workers = [w], wp_workerCh = (make_chan 1)\<lparr>chan_buf := ch\<rparr>, wp_pendingTasks = pending,
     wp_hasTasks = token, wp_reader = Reading, wp_dispatcher = dsp, wp_service = demo_orders s, wp_dumper = [],
     wp_cancelled = False, wp_parent = False, wp_crashed = None, wp_sent = [the_task], wp_finished = fin, wp_drained = []\<rparr>"

lemma demo_stage_starts:
  "NewRouter_pool (Inr slot) None 2 1 1 s () [the_task] = Inr (Some (Returns (demo_stage [the_task] True Waiting [] Idle s [])))"
  by (simp add: NewRouter_pool_def NewQueueProcessor_def RestoreQueue_def slot_def demo_stage_def make_chan_def demo_orders_def)

lemma demo_paid:
  "answer_task NewSQLStorage the_task (Inr (demo_answer ''PROCESSED'' ''729.98'')) (demo_orders (demo_tables 0 NEW)) =
    (Returns (Finished None), demo_orders (demo_tables 72998 PROCESSED))"
  by (simp add: answer_task_def fixed_client_def demo_answer_def new_order_def demo_claims_def demo_orders_def
      demo_tables_def record_answer_def take_answer_def SetStatus_def SetAccrual_def demo_conver validStatuses_def
      NewSQLStorage_def run_defs demo_defs zero_sless_iff in_int64_def)

abbreviation demo_life :: "(server, 'z) env \<Rightarrow> (string \<Rightarrow> unit \<Rightarrow> (go_error + accrual_response) \<times> unit) \<Rightarrow>
    (server, unit, order list) pool \<Rightarrow> (server, unit, order list) pool \<Rightarrow> bool" where
  "demo_life e client \<equiv> (server_step e client slot)\<^sup>*\<^sup>*"

lemma demo_dispatch: "dispatch_step slot p q \<Longrightarrow> wp_crashed p = None \<Longrightarrow> demo_life e client q r \<Longrightarrow> demo_life e client p r"
  by (rule converse_rtranclp_into_rtranclp, rule server_step.pool, rule dispatcher)

lemma demo_work:
  "e_db e = NewSQLStorage \<Longrightarrow> worker_step NewSQLStorage client 0 p q \<Longrightarrow> wp_crashed p = None \<Longrightarrow>
   demo_life e client q r \<Longrightarrow> demo_life e client p r"
  by (rule converse_rtranclp_into_rtranclp, rule server_step.pool, rule worker) simp_all

lemma demo_run_taken:
  assumes "e_db e = NewSQLStorage"
  shows "demo_life e client (demo_stage [the_task] True Waiting [] Idle s []) (demo_stage [] False Popping [] (Working the_task) s [])"
proof -
  have "dispatch_step slot (demo_stage [the_task] True Waiting [] Idle s []) (demo_stage [the_task] False Popping [] Idle s [])"
    using wait_tasks [of "demo_stage [the_task] True Waiting [] Idle s []" slot] by (simp add: demo_stage_def)
  moreover have "dispatch_step slot (demo_stage [the_task] False Popping [] Idle s []) (demo_stage [] False (Offering the_task) [] Idle s [])"
    using pop_last [of "demo_stage [the_task] False Popping [] Idle s []" slot] by (simp add: demo_stage_def)
  moreover have "dispatch_step slot (demo_stage [] False (Offering the_task) [] Idle s []) (demo_stage [] False Popping [the_task] Idle s [])"
    using offer [of "demo_stage [] False (Offering the_task) [] Idle s []" the_task slot]
    by (simp add: demo_stage_def make_chan_def set_workerCh_def)
  moreover have "worker_step NewSQLStorage client 0 (demo_stage [] False Popping [the_task] Idle s []) (demo_stage [] False Popping [] (Working the_task) s [])"
    using work_take [of 0 "demo_stage [] False Popping [the_task] Idle s []" the_task "[]" NewSQLStorage client]
    by (simp add: demo_stage_def make_chan_def set_workerCh_def)
  ultimately show ?thesis
    by (elim demo_dispatch demo_work [OF assms]) (simp_all add: demo_stage_def)
qed

lemma demo_run_paid:
  assumes "e_db e = NewSQLStorage"
  shows "demo_life e paying (demo_stage [the_task] True Waiting [] Idle (demo_tables 0 NEW) [])
     (demo_stage [] False Popping [] Idle (demo_tables 72998 PROCESSED) [the_task])"
proof (rule rtranclp_trans [OF demo_run_taken [OF assms]])
  let ?a = "Inr (demo_answer ''PROCESSED'' ''729.98'')"
  let ?p = "demo_stage [] False Popping [] (Working the_task) (demo_tables 0 NEW) []"
  let ?q = "demo_stage [] False Popping [] (Answered the_task ?a) (demo_tables 0 NEW) []"
  have "worker_step NewSQLStorage paying 0 ?p ?q"
    using work_ask [of 0 ?p the_task paying] by (simp add: demo_stage_def demo_orders_def fixed_client_def)
  moreover have "worker_step NewSQLStorage paying 0 ?q (demo_stage [] False Popping [] Idle (demo_tables 72998 PROCESSED) [the_task])"
    using work_finish [of 0 ?q the_task ?a NewSQLStorage None "demo_orders (demo_tables 72998 PROCESSED)" paying] demo_paid
    by (simp add: demo_stage_def)
  ultimately show "demo_life e paying ?p (demo_stage [] False Popping [] Idle (demo_tables 72998 PROCESSED) [the_task])"
    by (elim demo_work [OF assms]) (simp_all add: demo_stage_def)
qed

lemma demo_env_db: "e_db demo_env = NewSQLStorage"
  by (simp add: demo_env_def)

lemma demo_generous: "generous paying"
  by (auto simp: generous_def fixed_client_def demo_answer_def demo_conver)

lemma demo_tables_start:
  "healthy (demo_tables 0 NEW)" "ledger (tables (demo_tables 0 NEW))" "tracked (demo_tables 0 NEW) the_task"
proof -
  show l: "ledger (tables (demo_tables 0 NEW))"
    by (simp add: demo_tables_def ledger_def keys_ok_def balances_ok_def books_balance_def balance_of_def credited_def withdrawn_sum_def)
  show "healthy (demo_tables 0 NEW)"
    using l healthy_demo [of "tables (demo_tables 0 NEW)" 1] by (simp add: ledger_def demo_tables_def)
  show "tracked (demo_tables 0 NEW) the_task"
    by (simp add: tracked_def updatable_def demo_tables_def new_order_def zero_order_def demo_claims_def demo_server_def)
qed

theorem books_of_the_server_witness:
  "\<exists>q. demo_life demo_env paying (demo_stage [the_task] True Waiting [] Idle (demo_tables 0 NEW) []) q \<and>
     balance_of ''u'' (tables (os_db (wp_service q))) = 72998 \<and> credited ''u'' (tables (os_db (wp_service q))) = 72998"
proof -
  let ?q = "demo_stage [] False Popping [] Idle (demo_tables 72998 PROCESSED) [the_task]"
  have "\<forall>uid. balance_of uid (tables (os_db (wp_service ?q))) + withdrawn_sum uid (tables (os_db (wp_service ?q))) =
      credited uid (tables (os_db (wp_service ?q)))"
    using books_of_the_server [OF demo_stage_starts demo_tables_start(1,2) _ _ _ demo_generous demo_run_paid [OF demo_env_db]] demo_tables_start(3)
    by (simp add: demo_stage_def demo_env_def)
  then have "balance_of ''u'' (tables (os_db (wp_service ?q))) = credited ''u'' (tables (os_db (wp_service ?q)))"
    by (simp add: demo_stage_def demo_orders_def demo_tables_def withdrawn_sum_def)
  moreover have "balance_of ''u'' (tables (os_db (wp_service ?q))) = 72998"
    by (simp add: demo_stage_def demo_orders_def demo_tables_def balance_of_def)
  ultimately show ?thesis using demo_run_paid [OF demo_env_db] by (intro exI [of _ ?q]) simp
qed

theorem no_request_breaks_the_server_witness:
  "\<exists>resp t. serve demo_env ''POST'' ''/api/user/login'' (demo_request [] ''garbage'' ''bad'')
      (demo_orders (demo_tables 72998 PROCESSED)) = Some (Returns (), resp, t) \<and> healthy (os_db t)"
proof -
  let ?q = "demo_stage [] False Popping [] Idle (demo_tables 72998 PROCESSED) [the_task]"
  let ?o = "demo_orders (demo_tables 72998 PROCESSED)" and ?r = "demo_request [] ''garbage'' ''bad''"
  have "\<exists>h. route demo_env LW ''POST'' ''/api/user/login'' = Some h" by (simp add: route_def Let_def)
  then obtain res resp t where s: "serve demo_env ''POST'' ''/api/user/login'' ?r ?o = Some (res, resp, t)"
    using serve_some by (elim exE) blast
  have "?o = wp_service ?q" "\<not> wp_parent ?q" "e_db demo_env = NewSQLStorage" by (simp_all add: demo_stage_def demo_env_def)
  with no_request_breaks_the_server [OF demo_stage_starts demo_tables_start(1) _ demo_run_paid [OF demo_env_db], of "''POST''" "''/api/user/login''" ?r res resp t] s
  have "res = Returns () \<and> healthy (os_db t)" by simp
  with s show ?thesis by simp
qed

end
