(* ===== verification/Interleaving.thy ===== *)
theory Interleaving
  imports Accounts
begin

text \<open>
  Requests at the same time: between two repository calls of a request, others may change the database.
  Each call is a transaction of its own, so a concurrent run of a service is the same service over a
  storage that lets somebody else act before every call.
\<close>

section \<open>A storage that is shared\<close>

text \<open>What the others do, call by call; when the list is used up they rest.\<close>

type_synonym 's shared = "'s \<times> ('s \<Rightarrow> 's) list"

definition meanwhile :: "('s \<Rightarrow> 's) list \<Rightarrow> 's \<Rightarrow> 's" where
  "meanwhile fs s = (case fs of [] \<Rightarrow> s | f # _ \<Rightarrow> f s)"

definition after_others :: "('s \<Rightarrow> 'a \<times> 's) \<Rightarrow> 's shared \<Rightarrow> 'a \<times> 's shared" where
  "after_others f = (\<lambda>(s, fs). case f (meanwhile fs s) of (r, t) \<Rightarrow> (r, t, tl fs))"

definition shared_storage :: "'s SQLStorageInterface \<Rightarrow> 's shared SQLStorageInterface" where
  "shared_storage st = \<lparr>st_AddUser = (\<lambda>u. after_others (st_AddUser st u)), st_GetUser = (\<lambda>l. after_others (st_GetUser st l)),
     st_GetUserByID = (\<lambda>i. after_others (st_GetUserByID st i)), st_AddOrder = (\<lambda>m. after_others (st_AddOrder st m)),
     st_GetOrder = (\<lambda>i j. after_others (st_GetOrder st i j)), st_ListOrders = (\<lambda>i. after_others (st_ListOrders st i)),
     st_UpdateOrder = (\<lambda>m. after_others (st_UpdateOrder st m)), st_AddWithdrawn = (\<lambda>w. after_others (st_AddWithdrawn st w)),
     st_GetWithdrawn = (\<lambda>i. after_others (st_GetWithdrawn st i)), st_ListWithdrawals = (\<lambda>i. after_others (st_ListWithdrawals st i)),
     st_Ping = after_others (st_Ping st)\<rparr>"

lemma shared_simps [simp]:
  "st_AddUser (shared_storage st) u = after_others (st_AddUser st u)"
  "st_GetUser (shared_storage st) l = after_others (st_GetUser st l)"
  "st_GetUserByID (shared_storage st) i = after_others (st_GetUserByID st i)"
  "st_AddOrder (shared_storage st) m = after_others (st_AddOrder st m)"
  "st_GetOrder (shared_storage st) i j = after_others (st_GetOrder st i j)"
  "st_ListOrders (shared_storage st) i = after_others (st_ListOrders st i)"
  "st_UpdateOrder (shared_storage st) m = after_others (st_UpdateOrder st m)"
  "st_AddWithdrawn (shared_storage st) w = after_others (st_AddWithdrawn st w)"
  "st_GetWithdrawn (shared_storage st) i = after_others (st_GetWithdrawn st i)"
  "st_ListWithdrawals (shared_storage st) i = after_others (st_ListWithdrawals st i)"
  by (simp_all add: shared_storage_def)

lemma after_others_eq: "after_others f (s, fs) = (r, t) \<longleftrightarrow> (\<exists>t'. f (meanwhile fs s) = (r, t') \<and> t = (t', tl fs))"
  by (auto simp: after_others_def split: prod.splits)

section \<open>What everybody keeps\<close>

text \<open>If the others keep what requests rely on, requests keep it among them.\<close>

definition among :: "(task list \<Rightarrow> 's \<Rightarrow> bool) \<Rightarrow> task list \<Rightarrow> 's shared \<Rightarrow> bool" where
  "among fit T x \<longleftrightarrow> fit T (fst x) \<and> (\<forall>f\<in>set (snd x). \<forall>T s. fit T s \<longrightarrow> fit T (f s))"

lemma among_call:
  fixes f :: "'s \<Rightarrow> 'a \<times> 's"
  assumes "among fit T x" "after_others f x = (r, t)" "\<And>s t. fit T s \<Longrightarrow> f s = (r, t) \<Longrightarrow> fit T' t"
  shows "among fit T' t"
proof -
  have "fit T (meanwhile (snd x) (fst x))" using assms(1) by (cases "snd x") (auto simp: among_def meanwhile_def)
  moreover have "set (tl fs) \<subseteq> set fs" for fs :: "('s \<Rightarrow> 's) list" by (cases fs) auto
  ultimately show ?thesis using assms by (cases x) (fastforce simp: among_def after_others_eq)
qed

context request_storage
begin

lemma shared: "request_storage (shared_storage st) (among fit) hp"
  by unfold_locales (unfold shared_simps, (erule among_call, assumption,
      (erule (1) fit_users fit_withdrawals fit_orders | erule (2) fit_register fit_withdraw fit_failed fit_new))+,
    auto simp: among_def dest: fit_fewer)

end

section \<open>One call, one moment\<close>

text \<open>A service that makes at most one call takes effect at one moment: what it answers and leaves is what it
would have done alone, on the database as it found it.\<close>

definition alone :: "('s shared, 'c) OrderService \<Rightarrow> 's \<Rightarrow> ('s, 'c) OrderService" where
  "alone o' s = \<lparr>os_db = s, os_client = os_client o', os_reports = os_reports o', os_pause = os_pause o'\<rparr>"

lemma alone_simps [simp]:
  "os_db (alone o' s) = s" "os_client (alone o' s) = os_client o'" "os_reports (alone o' s) = os_reports o'" "os_pause (alone o' s) = os_pause o'"
  "alone (o'\<lparr>os_db := x\<rparr>) s = alone o' s" "(alone o' s)\<lparr>os_db := s'\<rparr> = alone o' s'"
  "alone (o'\<lparr>os_client := c\<rparr>) s = (alone o' s)\<lparr>os_client := c\<rparr>" "alone (o'\<lparr>os_reports := ch\<rparr>) s = (alone o' s)\<lparr>os_reports := ch\<rparr>"
  "alone (o'\<lparr>os_pause := ds\<rparr>) s = (alone o' s)\<lparr>os_pause := ds\<rparr>"
  by (simp_all add: alone_def)

lemma send_alone: "sendOrderToProcessor m (alone o' s) = (case sendOrderToProcessor m o' of (r, t) \<Rightarrow> (r, alone t s))"
  by (simp add: sendOrderToProcessor_def split: outcome.split)

lemma send_then_alone: "send_then x m (alone o' s) = (case send_then x m o' of (r, t) \<Rightarrow> (r, alone t s))"
  by (simp add: send_then_def send_alone split: prod.split outcome.split)

lemma services_alone:
  "\<exists>s'\<in>{s, meanwhile fs s}. CommonService_Login cmp st u s' = apsnd fst (CommonService_Login cmp (shared_storage st) u (s, fs))"
  "\<exists>s'\<in>{s, meanwhile fs s}. CommonService_Register hp st u s' = apsnd fst (CommonService_Register hp (shared_storage st) u (s, fs))"
  "\<exists>s'\<in>{s, meanwhile fs s}. OrderService_List st cl s' = apsnd fst (OrderService_List (shared_storage st) cl (s, fs))"
  "\<exists>s'\<in>{s, meanwhile fs s}. Withdraw st cl wd s' = apsnd fst (Withdraw (shared_storage st) cl wd (s, fs))"
  "\<exists>s'\<in>{s, meanwhile fs s}. BalanceService_ListWithdrawals st cl s' = apsnd fst (BalanceService_ListWithdrawals (shared_storage st) cl (s, fs))"
  by (auto simp: CommonService_Login_def CommonService_Register_def OrderService_List_def Withdraw_def BalanceService_ListWithdrawals_def
      after_others_def split: option.split prod.split sum.split)

definition together :: "'a \<times> ('s shared, 'c) OrderService \<Rightarrow> 'a \<times> ('s, 'c) OrderService" where
  "together x = (fst x, alone (snd x) (fst (os_db (snd x))))"

lemma together_pair [simp]: "together (r, t) = (r, alone t (fst (os_db t)))"
  by (simp add: together_def)

lemma send_then_db_same: "os_db (snd (send_then x m o')) = os_db o'"
  by (simp add: send_then_def sendOrderToProcessor_def split: prod.split outcome.split)

lemma send_together: "os_db o' = (s, fs) \<Longrightarrow> send_then x m (alone o' s) = together (send_then x m o')"
  using send_then_db_same [of x m o'] by (simp add: together_def send_then_alone split: prod.split)

lemma busy_together: "os_db o' = (s, fs) \<Longrightarrow> busy err m (alone o' s) = together (busy err m o')"
  by (auto simp: busy_def send_together [of "o'\<lparr>os_pause := _\<rparr>" s fs, simplified] split: option.split outcome.split)

lemma record_answer_together:
  assumes "os_db o' = (s, fs)"
  shows "\<exists>s'\<in>{s, meanwhile fs s}. record_answer st resp m (alone o' s') = together (record_answer (shared_storage st) resp m o')"
proof (cases "take_answer resp m")
  case (Panics p)
  then show ?thesis using assms by (simp add: record_answer_def together_def)
next
  case (Returns y)
  obtain e m1 where y: "y = (e, m1)" by fastforce
  show ?thesis
  proof (cases e)
    case (Some err)
    then show ?thesis using assms Returns y by (simp add: record_answer_def together_def)
  next
    case None
    obtain e2 m2 t where u: "st_UpdateOrder st m1 (meanwhile fs s) = ((e2, m2), t)" by (metis prod.collapse)
    then show ?thesis
      using assms Returns y None send_together [of "o'\<lparr>os_db := (t, tl fs)\<rparr>" t "tl fs" None m2]
      by (intro bexI [of _ "meanwhile fs s"]) (auto simp: record_answer_def after_others_def split: option.split)
  qed
qed

lemma task_together:
  assumes "os_db o' = (s, fs)"
  shows "\<exists>s'\<in>{s, meanwhile fs s}. ProcessAccrualTask st client x (alone o' s') =
    together (ProcessAccrualTask (shared_storage st) client x o')"
proof -
  obtain a c where a: "client (ord_ID x) (os_client o') = (a, c)" by fastforce
  let ?o = "o'\<lparr>os_client := c\<rparr>"
  have db: "os_db ?o = (s, fs)" using assms by simp
  show ?thesis
  proof (cases a)
    case (Inl err)
    then show ?thesis
      using a busy_together [OF db, of err x] by (intro bexI [of _ s]) (auto simp: ProcessAccrualTask_def Let_def db assms)
  next
    case (Inr resp)
    show ?thesis
    proof (cases "ar_Status resp = OrderInProcessStatus \<and> ord_Status x = ar_Status resp")
      case True
      then show ?thesis
        using a Inr send_together [OF db, of None x] by (intro bexI [of _ s]) (auto simp: ProcessAccrualTask_def)
    next
      case False
      then have "ProcessAccrualTask st client x (alone o' z) = record_answer st resp x ((alone o' z)\<lparr>os_client := c\<rparr>)" for z
        using a Inr by (auto simp: ProcessAccrualTask_def Let_def)
      moreover have "ProcessAccrualTask (shared_storage st) client x o' = record_answer (shared_storage st) resp x ?o"
        using False a Inr by (auto simp: ProcessAccrualTask_def Let_def)
      ultimately show ?thesis using record_answer_together [OF db, of st resp x] by simp
    qed
  qed
qed

text \<open>C11. Login, registration, both lists, a withdrawal and the processing of a task take effect at one moment.
Whatever the others do to the database before each repository call, with any storage: the answer and
the database left behind are those of the service run alone, on the database as it was at the start or
as the others had left it at the time of the call.\<close>
theorem services_take_effect_at_once:
  fixes st :: "'s SQLStorageInterface" and o' :: "('s shared, 'c) OrderService"
  shows "(\<exists>s'\<in>{s, meanwhile fs s}. CommonService_Login cmp st u s' = apsnd fst (CommonService_Login cmp (shared_storage st) u (s, fs))) \<and>
    (\<exists>s'\<in>{s, meanwhile fs s}. CommonService_Register hp st u s' = apsnd fst (CommonService_Register hp (shared_storage st) u (s, fs))) \<and>
    (\<exists>s'\<in>{s, meanwhile fs s}. OrderService_List st cl s' = apsnd fst (OrderService_List (shared_storage st) cl (s, fs))) \<and>
    (\<exists>s'\<in>{s, meanwhile fs s}. Withdraw st cl wd s' = apsnd fst (Withdraw (shared_storage st) cl wd (s, fs))) \<and>
    (\<exists>s'\<in>{s, meanwhile fs s}. BalanceService_ListWithdrawals st cl s' = apsnd fst (BalanceService_ListWithdrawals (shared_storage st) cl (s, fs))) \<and>
    (\<exists>s'\<in>{s, meanwhile fs s}. ProcessAccrualTask st client x (alone o' s') =
       together (ProcessAccrualTask (shared_storage st) client x (o'\<lparr>os_db := (s, fs)\<rparr>)))"
  using services_alone task_together [of "o'\<lparr>os_db := (s, fs)\<rparr>" s fs] by (auto simp del: bex_simps)

section \<open>Two calls\<close>

text \<open>What any repository call may do to the orders of others: it removes none and gives none away.\<close>

definition polite :: "(server \<Rightarrow> server) \<Rightarrow> bool" where
  "polite f \<longleftrightarrow> (\<forall>s. healthy s \<longrightarrow> healthy (f s) \<and> uuid_in (f s) = uuid_in s \<and>
     (\<forall>i u. order_owner s i = Some u \<longrightarrow> order_owner (f s) i = Some u))"

lemma order_owner_added: "order_owner s i = Some u \<Longrightarrow> orders (tables t) = orders (tables s) @ rs \<Longrightarrow> order_owner t i = Some u"
  by (simp add: order_owner_def map_add_def)

lemma order_updated_owner:
  assumes "order_updated m s t" "order_owner s i = Some u"
  shows "order_owner t i = Some u"
  using assms(1)
proof (rule order_updated_row)
  fix uid st
  assume t: "orders (tables t) = orders (order_upserted (ord_ID m) uid st (sint (ord_Accrual m)) (now s) (tables s))"
  show ?thesis
  proof (cases "\<exists>r\<in>set (orders (tables s)). or_id r = ord_ID m")
    case True
    then have "map (\<lambda>r. (or_id r, or_user r)) (orders (tables t)) = map (\<lambda>r. (or_id r, or_user r)) (orders (tables s))"
      unfolding t by (auto simp: order_upserted_def)
    then show ?thesis using assms(2) by (simp add: order_owner_def)
  next
    case False
    then show ?thesis using order_owner_added [OF assms(2), of t] t by (simp add: order_upserted_def)
  qed
qed

lemma polite_perform: "polite (perform c)"
proof -
  have o: "order_owner s i = Some u \<Longrightarrow> order_owner (perform c s) i = Some u" if "healthy s" for s i u
  proof (cases c)
    case (CallAddUser x)
    obtain e x' t where a: "AddUser x s = ((e, x'), t)" by (metis prod.collapse)
    have "orders (tables t) = orders (tables s)"
      using AddUser_spec(1) [OF a] by (auto simp: all_or_nothing_def user_added_def split: option.splits)
    then show "order_owner s i = Some u \<Longrightarrow> order_owner (perform c s) i = Some u" using CallAddUser a by (simp add: order_owner_def)
  next
    case (CallAddOrder m)
    obtain e m' t where a: "AddOrder m s = ((e, m'), t)" by (metis prod.collapse)
    show "order_owner s i = Some u \<Longrightarrow> order_owner (perform c s) i = Some u"
      using AddOrder_spec(1) [OF a] order_owner_added [of s i u t] CallAddOrder a
      by (auto simp: all_or_nothing_def order_added_def order_owner_def split: option.splits)
  next
    case (CallUpdateOrder m)
    obtain e m' t where a: "UpdateOrder m s = ((e, m'), t)" by (metis prod.collapse)
    show "order_owner s i = Some u \<Longrightarrow> order_owner (perform c s) i = Some u"
      using UpdateOrder_spec(1) [OF a] order_updated_owner [of m s t i u] CallUpdateOrder a
      by (auto simp: all_or_nothing_def order_owner_def split: option.splits)
  next
    case (CallAddWithdrawn w)
    obtain e w' t where a: "AddWithdrawn w s = ((e, w'), t)" by (metis prod.collapse)
    have "withdrawal_added w s w' t \<Longrightarrow> orders (tables t) = orders (tables s)"
      using withdrawal_added_books [of w s w' t] that by (auto simp: healthy_def)
    then have "orders (tables t) = orders (tables s)"
      using AddWithdrawn_spec(1) [OF a] by (auto simp: all_or_nothing_def split: option.splits)
    then show "order_owner s i = Some u \<Longrightarrow> order_owner (perform c s) i = Some u" using CallAddWithdrawn a by (simp add: order_owner_def)
  qed
  have k: "healthy (snd (f s)) \<and> uuid_in (snd (f s)) = uuid_in s" if "keeps healthy uuid_in f" "healthy s" for f :: "server \<Rightarrow> 'a \<times> server" and s
    using that by (simp add: keeps_def)
  show ?thesis
    unfolding polite_def using o
    by (cases c) (auto dest: keeps_writes [THEN keepsD] simp: keeps_writes [unfolded keeps_def])
qed

lemma polite_meanwhile: "\<forall>f\<in>set fs. polite f \<Longrightarrow> polite (meanwhile fs) \<and> (\<forall>f\<in>set (tl fs). polite f)"
  by (cases fs) (auto simp: meanwhile_def polite_def)

lemma politeD:
  assumes "polite f" "healthy s"
  shows "healthy (f s)" "uuid_in (f s) = uuid_in s" "order_owner s i = Some u \<Longrightarrow> order_owner (f s) i = Some u"
  using assms by (auto simp: polite_def)

text \<open>Looking a known number up, later.\<close>

lemma known_order:
  assumes "GetOrder i j (f s) = (g, s')" "polite f" "healthy s" "order_owner s i \<noteq> None"
  shows "order_owner s' i \<noteq> None \<and> (\<forall>m. g = Inr m \<longrightarrow> order_owner s' i = uuid_in s j) \<and>
    (g = Inl (OrderErr ErrOrderNotFound) \<longrightarrow> order_owner s' i \<noteq> uuid_in s j) \<and>
    (\<forall>e. g = Inl e \<longrightarrow> e = OrderErr ErrOrderNotFound \<or> (\<exists>d. e = DriverErr d))"
proof -
  note p = politeD [OF assms(2,3)]
  have g: "st_GetOrder NewSQLStorage i j (f s) = (g, s')" using assms(1) by (simp add: NewSQLStorage_def)
  have o: "order_owner (f s) i \<noteq> None" using assms(4) p(3) by fastforce
  show ?thesis
  proof (cases g)
    case (Inl x)
    then show ?thesis using sql_orders.GetOrder_err [OF p(1)] g o p(2) by fastforce
  next
    case (Inr y)
    then show ?thesis using sql_orders.GetOrder_ok [OF p(1)] g o p(2) by fastforce
  qed
qed

text \<open>C12. \<open>POST /api/user/orders\<close> answers rightly beside other requests and workers, which may do anything to
the database between its two repository calls but take a stored order away or give it to somebody else,
which no repository call does: at the end a stored order belongs to the user, and one that is refused
as known belongs to the user, or to somebody else, as the answer says.\<close>
theorem Store_beside_others:
  assumes "OrderService_Store (shared_storage NewSQLStorage) (Some c) i o' = (Returns r, t)"
    and "os_db o' = (s, fs)" "healthy s" "\<forall>f\<in>set fs. polite f"
  shows "(r = None \<longrightarrow> order_owner (meanwhile fs s) i = None \<and> uuid_in s (cl_UserID c) \<noteq> None \<and>
      order_owner (fst (os_db t)) i = uuid_in s (cl_UserID c)) \<and>
    (r = Some (OrderErr ErrOrderExists) \<longrightarrow>
      uuid_in s (cl_UserID c) \<noteq> None \<and> order_owner (fst (os_db t)) i = uuid_in s (cl_UserID c)) \<and>
    (r = Some (OrderErr ErrOrderBelongsToOtherUser) \<longrightarrow>
      order_owner (fst (os_db t)) i \<noteq> None \<and> order_owner (fst (os_db t)) i \<noteq> uuid_in s (cl_UserID c))"
proof (cases "IsValidLuhn i \<and> Order_Validate (new_order i c) = None")
  case False
  moreover have "e \<noteq> OrderErr ErrOrderExists \<and> e \<noteq> OrderErr ErrOrderBelongsToOtherUser"
    if "Order_Validate (new_order i c) = Some e" for e
    using that by (auto simp: Order_Validate_def split: if_splits)
  ultimately show ?thesis
    using assms(1) by (auto simp: OrderService_Store_def NewOrder_def new_order_def [symmetric] split: if_splits option.splits)
next
  case True
  let ?s1 = "meanwhile fs s" and ?j = "cl_UserID c"
  note p = politeD [OF conjunct1 [OF polite_meanwhile [OF assms(4)]] assms(3)]
  obtain e m s2 where a: "AddOrder (new_order i c) ?s1 = ((e, m), s2)" by (metis prod.collapse)
  then have a': "st_AddOrder NewSQLStorage (new_order i c) ?s1 = ((e, m), s2)" by (simp add: NewSQLStorage_def)
  show ?thesis
  proof (cases e)
    case None
    have "r = None \<and> fst (os_db t) = s2"
      using assms(1,2) True a' None
      by (auto simp: OrderService_Store_def NewOrder_def new_order_def [symmetric] sendOrderToProcessor_def after_others_def
          split: option.splits prod.splits outcome.splits)
    with sql_orders.AddOrder_ok [OF p(1) a' [unfolded None]] p(2) show ?thesis by simp
  next
    case (Some x)
    note ae = sql_orders.AddOrder_err [OF p(1) a' [unfolded Some]]
    show ?thesis
    proof (cases "x = OrderErr ErrOrderExists")
      case False
      then show ?thesis
        using ae assms(1,2) True a' Some
        by (auto simp: OrderService_Store_def NewOrder_def new_order_def [symmetric] after_others_def)
    next
      case known: True
      have s2: "healthy s2" "uuid_in s2 = uuid_in s" "order_owner s2 i \<noteq> None"
        using ae known healthy_writes(2) [OF p(1) a] later_now [OF AddOrder_spec(2) [OF a]] p(2) by auto
      obtain g s3 where g: "GetOrder i ?j (meanwhile (tl fs) s2) = (g, s3)" by fastforce
      have q: "polite (meanwhile (tl fs))" using polite_meanwhile assms(4) by blast
      note k = known_order [where f = "meanwhile (tl fs)", OF g q s2(1,3)]
      have "fst (os_db t) = s3 \<and> r = Some (case g of Inl y \<Rightarrow> if errors_Is y (OrderErr ErrOrderNotFound)
          then OrderErr ErrOrderBelongsToOtherUser else y | Inr _ \<Rightarrow> OrderErr ErrOrderExists)"
        using assms(1,2) True a' Some known ae g
        by (auto simp: OrderService_Store_def NewOrder_def new_order_def [symmetric] after_others_def NewSQLStorage_def
            split: sum.splits if_splits)
      with k s2(2) show ?thesis by (cases g) fastforce+
    qed
  qed
qed

text \<open>C40. \<open>GET /api/user/balance\<close> reads twice, in two transactions, so what it shows is not always a state of
the books: the balance is that of the first call, the withdrawn sum that of the second, whatever
the others did between.\<close>
theorem GetBalanceInfo_reads_twice:
  assumes "healthy s" "polite f" "polite g"
    and "GetBalanceInfo (shared_storage NewSQLStorage) (Some c) (s, [f, g]) = (Returns (Inr b), t)"
  shows "\<exists>uid s1. uuid_in s (cl_UserID c) = Some uid \<and> later (f s) s1 \<and> tables s1 = tables (f s) \<and>
    sint (bal_Balance b) = points_of (f s) uid \<and> sint (bal_Withdrawn b) = spent_by (g s1) uid"
proof -
  note p = politeD [OF assms(2,1)]
  obtain x s1 where x: "GetUserByID (cl_UserID c) (f s) = (x, s1)" by fastforce
  then have x': "st_GetUserByID NewSQLStorage (cl_UserID c) (f s) = (x, s1)" by (simp add: NewSQLStorage_def)
  have s1: "healthy s1" "uuid_in s1 = uuid_in s" "later (f s) s1" "tables s1 = tables (f s)"
    using GetUserByID_spec(1,2) [OF x] healthy_later [of "f s" s1] later_now [of "f s" s1] p by auto
  note q = politeD [OF assms(3) s1(1)]
  obtain y s2 where y: "st_GetWithdrawn NewSQLStorage (cl_UserID c) (g s1) = (y, s2)" by fastforce
  obtain u where u: "x = Inr u" "(\<exists>wd. y = Inr wd \<and> b = NewBalanceItem (user_Balance u) (wd_Sum wd)) \<or>
      (\<exists>e. y = Inl e \<and> errors_Is e ErrWithdrawnNotFound \<and> b = NewBalanceItem (user_Balance u) 0)"
    using assms(4) x' y by (auto simp: GetBalanceInfo_def after_others_def meanwhile_def split: sum.splits if_splits)
  obtain uid where uid: "uuid_in s (cl_UserID c) = Some uid" "sint (user_Balance u) = points_of (f s) uid"
    using sql_balances.GetUserByID_ok [OF p(1) x' [unfolded u(1)]] p(2) by auto
  from u(2) have "bal_Balance b = user_Balance u \<and> sint (bal_Withdrawn b) = spent_by (g s1) uid"
  proof (elim disjE exE conjE)
    fix wd assume "y = Inr wd" "b = NewBalanceItem (user_Balance u) (wd_Sum wd)"
    then show ?thesis
      using sql_balances.GetWithdrawn_ok [OF q(1)] y q(2) s1(2) uid(1) by (fastforce simp: NewBalanceItem_def)
  next
    fix e assume "y = Inl e" "errors_Is e ErrWithdrawnNotFound" "b = NewBalanceItem (user_Balance u) 0"
    then show ?thesis
      using sql_balances.GetWithdrawn_none [OF q(1)] y q(2) s1(2) uid(1) by (fastforce simp: NewBalanceItem_def)
  qed
  with uid s1(3,4) show ?thesis by auto
qed

section \<open>Whole requests beside others\<close>

lemma accounts_none: "accounts {#} s \<longleftrightarrow> healthy s \<and> ledger (tables s)"
  by (simp add: accounts_def)

interpretation solvent: request_storage NewSQLStorage "\<lambda>T. accounts {#}" hp for hp :: "string \<Rightarrow> go_error + string"
  by unfold_locales (simp_all add: NewSQLStorage_def,
    (assumption | erule (1) accounts_AddUser accounts_AddWithdrawn ledger_books.inv_reads accounts_AddOrder(1))+)

interpretation beside: request_storage "shared_storage NewSQLStorage" "among (\<lambda>T. accounts {#})" hp for hp :: "string \<Rightarrow> go_error + string"
  by (rule solvent.shared)

text \<open>A repository call of somebody else, as far as it is admissible: it does not process an order twice.\<close>

definition others_do :: "call \<Rightarrow> server \<Rightarrow> server" where
  "others_do c s = (if admissible c s then perform c s else s)"

lemma others_do_accounts: "accounts {#} s \<Longrightarrow> accounts {#} (others_do c s)"
  using polite_perform [of c] perform_ledger [of s c] by (auto simp: accounts_none others_do_def polite_def)

text \<open>C13. A request of any kind, well-formed or not, beside any admissible calls of others before each of its
own: its handler does not panic while the link channel is open, and at the end keys are unique, balances
not negative, and every user's balance plus withdrawals is what processed orders earned.\<close>
theorem requests_beside_others:
  assumes "e_db e = shared_storage NewSQLStorage" "os_db o' = (s, map others_do calls)" "healthy s" "ledger (tables s)"
    and "\<not> chan_closed (os_pause o')" "\<not> chan_closed (os_reports o')" "length (chan_buf (os_reports o')) \<le> chan_cap (os_reports o')"
    and "serve e m path r o' = Some (res, resp, t)"
  shows "res = Returns () \<and> healthy (fst (os_db t)) \<and> ledger (tables (fst (os_db t)))"
proof -
  have "beside.sound o'"
    using assms(2-5,7) others_do_accounts by (auto simp: beside.sound_def among_def accounts_none)
  from beside.serve_sound [OF assms(1) refl this assms(8)] assms(6) show ?thesis
    by (simp add: beside.sound_def among_def accounts_none link_open_def)
qed

section \<open>Witnesses\<close>

text \<open>Anna hands in a number twice at once.\<close>

lemma the_task_stored: "perform (CallAddOrder the_task) (perform (CallAddUser demo_user) demo_server) = demo_tables 0 NEW"
  unfolding demo_registered demo_tables_def by (simp add: run_defs demo_defs new_order_def demo_claims_def zero_order_def)

lemma the_task_again:
  "AddOrder the_task (demo_tables 0 NEW) = ((Some (OrderErr ErrOrderExists), the_task), demo_tables 0 NEW)"
  "\<exists>m. GetOrder ''79927398713'' ''u'' (demo_tables 0 NEW) = (Inr m, demo_tables 0 NEW)"
  by (simp_all add: demo_tables_def run_defs demo_defs new_order_def demo_claims_def unique_violation_def retriable_codes
      GetOrder_def QuerySelectOrder_def first_row_def scan_order_def)

definition shared_orders :: "server \<Rightarrow> (server \<Rightarrow> server) list \<Rightarrow> (server shared, unit) OrderService" where
  "shared_orders s fs = \<lparr>os_db = (s, fs), os_client = (), os_reports = make_chan 2, os_pause = make_chan 1\<rparr>"

theorem Store_beside_others_witness:
  "\<exists>t. OrderService_Store (shared_storage NewSQLStorage) (Some demo_claims) ''79927398713''
      (shared_orders (perform (CallAddUser demo_user) demo_server) [perform (CallAddOrder the_task)]) =
      (Returns (Some (OrderErr ErrOrderExists)), t) \<and> order_owner (fst (os_db t)) ''79927398713'' = Some ''u''"
proof -
  let ?s = "perform (CallAddUser demo_user) demo_server"
  let ?o = "shared_orders ?s [perform (CallAddOrder the_task)]"
  have luhn: "IsValidLuhn ''79927398713''" by code_simp
  have m: "meanwhile [perform (CallAddOrder the_task)] ?s = demo_tables 0 NEW"
    using the_task_stored by (simp add: meanwhile_def del: perform.simps)
  have new: "NewOrder ''79927398713'' (cl_UserID demo_claims) OrderNewStatus = Inr the_task" "Order_Validate the_task = None"
    using luhn by (simp_all add: NewOrder_def new_order_def Order_Validate_def validStatuses_def demo_claims_def zero_order_def)
  have u: "cl_UserID demo_claims = ''u''" by (simp add: demo_claims_def)
  have "\<exists>t. OrderService_Store (shared_storage NewSQLStorage) (Some demo_claims) ''79927398713'' ?o =
      (Returns (Some (OrderErr ErrOrderExists)), t)"
    using the_task_again(2)
    by (auto simp: OrderService_Store_def luhn new [unfolded u] after_others_def shared_orders_def m meanwhile_def [of "[]"] NewSQLStorage_def
        the_task_again(1) u simp del: perform.simps)
  then obtain t where t: "OrderService_Store (shared_storage NewSQLStorage) (Some demo_claims) ''79927398713'' ?o =
      (Returns (Some (OrderErr ErrOrderExists)), t)" by blast
  have "uuid_in ?s (cl_UserID demo_claims) = Some ''u''"
    unfolding demo_registered by (simp add: demo_claims_def demo_server_def)
  with Store_beside_others [OF t _ healthy_demo_registered] polite_perform have "order_owner (fst (os_db t)) ''79927398713'' = Some ''u''"
    by (auto simp: shared_orders_def simp del: perform.simps)
  with t show ?thesis by blast
qed

text \<open>A withdrawal between the two reads: 500 points were earned, 200 are spent, and the document shows 500 and 200.\<close>

theorem GetBalanceInfo_reads_twice_witness:
  "\<exists>t s1. GetBalanceInfo (shared_storage NewSQLStorage) (Some demo_claims)
      (demo_credited 500, [\<lambda>s. s, perform (CallAddWithdrawn (demo_withdrawal 200))]) = (Returns (Inr (NewBalanceItem 500 200)), t) \<and>
    tables s1 = tables (demo_credited 500) \<and> points_of (demo_credited 500) ''u'' = 500 \<and>
    spent_by (perform (CallAddWithdrawn (demo_withdrawal 200)) s1) ''u'' = 200"
proof -
  let ?g = "perform (CallAddWithdrawn (demo_withdrawal 200))"
  have "\<exists>t. GetBalanceInfo (shared_storage NewSQLStorage) (Some demo_claims) (demo_credited 500, [\<lambda>s. s, ?g]) =
      (Returns (Inr (NewBalanceItem 500 200)), t)"
    unfolding demo_credited_500
    by (simp add: GetBalanceInfo_def GetUserByID_def GetWithdrawn_def select_user_def first_row_def in_int64_def after_others_def meanwhile_def
      QuerySelectUserByID_def QuerySelectWithdrawn_def scan_user_def demo_claims_def NewSQLStorage_def run_defs
      demo_defs retriable_codes withdrawn_sum_def)
  then obtain t where b: "GetBalanceInfo (shared_storage NewSQLStorage) (Some demo_claims) (demo_credited 500, [\<lambda>s. s, ?g]) =
      (Returns (Inr (NewBalanceItem 500 200)), t)" by blast
  have "polite (\<lambda>s. s)" by (simp add: polite_def)
  from GetBalanceInfo_reads_twice [OF healthy_demo_credited this polite_perform b]
  obtain s1 where "tables s1 = tables (demo_credited 500)" "points_of (demo_credited 500) ''u'' = 500" "spent_by (?g s1) ''u'' = 200"
    by (auto simp: demo_credited_500 demo_claims_def demo_server_def NewBalanceItem_def simp del: perform.simps)
  with b show ?thesis by blast
qed

text \<open>A malformed login while somebody registers.\<close>

definition shared_env :: "(server shared, unit) env" where
  "shared_env = \<lparr>e_parse_time = (\<lambda>s. None), e_time_text = (\<lambda>t. Some ''T''), e_http_date = (\<lambda>t. ''D''),
     e_compare = (\<lambda>h p. h = ''hash'' \<and> p = ''password''), e_hash = Inr, e_SignedString = (\<lambda>c. Inr (cl_UserID c)),
     e_ParseWithClaims = (\<lambda>s f. if s = ''good'' then Inr (True, demo_claims) else Inl ErrToken),
     e_EncryptionKey = ''key'', e_gzip = demo_gzip, e_gzip_NewReader = Some, e_CompressionThreshold = 10,
     e_db = shared_storage NewSQLStorage\<rparr>"

theorem requests_beside_others_witness:
  "\<exists>resp t. serve shared_env ''POST'' ''/api/user/login'' (demo_request [] ''garbage'' ''bad'')
      (shared_orders demo_server [others_do (CallAddUser demo_user)]) = Some (Returns (), resp, t) \<and> ledger (tables (fst (os_db t)))"
proof -
  let ?r = "demo_request [] ''garbage'' ''bad''" and ?o = "shared_orders demo_server [others_do (CallAddUser demo_user)]"
  have "\<exists>h. route shared_env LW ''POST'' ''/api/user/login'' = Some h" by (simp add: route_def Let_def)
  then obtain res resp t where s: "serve shared_env ''POST'' ''/api/user/login'' ?r ?o = Some (res, resp, t)"
    using serve_some by (elim exE) blast
  have "ledger (tables demo_server)" by (simp add: demo_server_def ledger_empty)
  with requests_beside_others [of shared_env ?o demo_server "[CallAddUser demo_user]", OF _ _ healthy_demo_empty _ _ _ _ s]
  have "res = Returns () \<and> ledger (tables (fst (os_db t)))"
    by (simp add: shared_env_def shared_orders_def make_chan_def)
  with s show ?thesis by simp
qed

end
