(* ===== verification/StoredData.thy ===== *)
theory StoredData
  imports Accounts
begin

text \<open>
  What is stored, whatever the server has been through: rows that meet the limits of the schema and the
  checks of the models and services. Passwords are kept as hashes only, order numbers pass the checksum.
  It is one more instance of the laws that carry the accounts.
\<close>

section \<open>Well-formed rows\<close>

definition hashed :: "(string \<Rightarrow> go_error + string) \<Rightarrow> string \<Rightarrow> bool" where
  "hashed hp h \<longleftrightarrow> (\<exists>p. MinPasswordLength \<le> length p \<and> hp p = Inr h)"

definition user_row_ok :: "(string \<Rightarrow> go_error + string) \<Rightarrow> user_row \<Rightarrow> bool" where
  "user_row_ok hp r \<longleftrightarrow> MinLoginLength \<le> length (ur_login r) \<and> char_count (ur_login r) \<le> 32 \<and>
     char_count (ur_hash r) \<le> 128 \<and> hashed hp (ur_hash r) \<and> in_int64 (ur_balance r)"

definition order_row_ok :: "order_row \<Rightarrow> bool" where
  "order_row_ok r \<longleftrightarrow> or_id r \<noteq> [] \<and> IsValidLuhn (or_id r) \<and> 0 \<le> or_accrual r \<and> in_int64 (or_accrual r)"

definition wd_row_ok :: "wd_row \<Rightarrow> bool" where
  "wd_row_ok r \<longleftrightarrow> IsValidLuhn (wr_order r) \<and> in_int64 (wr_withdrawn r)"

definition rows_ok :: "(string \<Rightarrow> go_error + string) \<Rightarrow> db \<Rightarrow> bool" where
  "rows_ok hp d \<longleftrightarrow> (\<forall>r\<in>set (users d). user_row_ok hp r) \<and> (\<forall>r\<in>set (orders d). order_row_ok r) \<and>
     (\<forall>r\<in>set (withdrawals d). wd_row_ok r)"

text \<open>Open tasks carry the number of an order that was accepted.\<close>

definition task_ok :: "task \<Rightarrow> bool" where
  "task_ok t \<longleftrightarrow> ord_ID t \<noteq> [] \<and> IsValidLuhn (ord_ID t) \<and> 0 \<le> sint (ord_Accrual t)"

lemmas row_defs = user_row_ok_def order_row_ok_def wd_row_ok_def rows_ok_def

section \<open>Every effect keeps rows well-formed\<close>

lemma all_or_nothing_rows:
  assumes "all_or_nothing effect s err t" "rows_ok hp (tables s)" "effect s t \<Longrightarrow> rows_ok hp (tables t)"
  shows "rows_ok hp (tables t)"
  using assms by (auto simp: all_or_nothing_def split: option.splits)

lemma user_added_rows: "user_added u s u' t \<Longrightarrow> registered hp u \<Longrightarrow> rows_ok hp (tables s) \<Longrightarrow> rows_ok hp (tables t)"
  by (auto simp: user_added_def registered_def User_Validate_def row_defs hashed_def in_int64_def not_less split: if_splits)

lemma orderly_task: "orderly m \<Longrightarrow> task_ok m"
  by (auto simp: orderly_def Order_Validate_def task_ok_def word_sless_alt split: if_splits)

lemma order_added_rows: "order_added m s t \<Longrightarrow> orderly m \<Longrightarrow> rows_ok hp (tables s) \<Longrightarrow> rows_ok hp (tables t)"
  using orderly_task [of m] by (auto simp: order_added_def task_ok_def row_defs in_int64_def)

lemma balance_moved_rows: "balance_moved uid d a b \<Longrightarrow> rows_ok hp a \<Longrightarrow> rows_ok hp b"
  by (auto simp: balance_moved_def row_defs)

lemma order_updated_rows: "order_updated m s t \<Longrightarrow> task_ok m \<Longrightarrow> rows_ok hp (tables s) \<Longrightarrow> rows_ok hp (tables t)"
proof -
  assume m: "task_ok m" and s: "rows_ok hp (tables s)" and "order_updated m s t"
  then obtain uid st where o: "let a = order_upserted (ord_ID m) uid st (sint (ord_Accrual m)) (now s) (tables s)
      in if st = PROCESSED \<and> 0 < sint (ord_Accrual m) then balance_moved uid (sint (ord_Accrual m)) a (tables t) else tables t = a"
    unfolding order_updated_def by blast
  have "rows_ok hp (order_upserted (ord_ID m) uid st (sint (ord_Accrual m)) (now s) (tables s))"
    using m s by (auto simp: order_upserted_def task_ok_def row_defs)
  with o balance_moved_rows show ?thesis by (auto simp: Let_def split: if_splits)
qed

lemma withdrawal_added_rows:
  "withdrawal_added w s w' t \<Longrightarrow> IsValidLuhn (wd_OrderID w) \<Longrightarrow> rows_ok hp (tables s) \<Longrightarrow> rows_ok hp (tables t)"
  unfolding withdrawal_added_def by (elim exE conjE, erule balance_moved_rows) (simp add: row_defs)

lemma rows_writes:
  "rows_ok hp (tables s) \<Longrightarrow> registered hp u \<Longrightarrow> AddUser u s = ((err, u'), t) \<Longrightarrow> rows_ok hp (tables t)"
  "rows_ok hp (tables s) \<Longrightarrow> orderly m \<Longrightarrow> AddOrder m s = ((err, m'), t) \<Longrightarrow> rows_ok hp (tables t)"
  "rows_ok hp (tables s) \<Longrightarrow> task_ok m \<Longrightarrow> UpdateOrder m s = ((err, m'), t) \<Longrightarrow> rows_ok hp (tables t)"
  "rows_ok hp (tables s) \<Longrightarrow> IsValidLuhn (wd_OrderID w) \<Longrightarrow> AddWithdrawn w s = ((err, w'), t) \<Longrightarrow> rows_ok hp (tables t)"
  by (blast intro: all_or_nothing_rows [OF AddUser_spec(1)] user_added_rows,
      blast intro: all_or_nothing_rows [OF AddOrder_spec(1)] order_added_rows,
      blast intro: all_or_nothing_rows [OF UpdateOrder_spec(1)] order_updated_rows,
      blast intro: all_or_nothing_rows [OF AddWithdrawn_spec(1)] withdrawal_added_rows)

section \<open>The server\<close>

definition store_ok :: "(string \<Rightarrow> go_error + string) \<Rightarrow> task multiset \<Rightarrow> server \<Rightarrow> bool" where
  "store_ok hp M s \<longleftrightarrow> healthy s \<and> rows_ok hp (tables s) \<and> (\<forall>t\<in>#M. task_ok t)"

interpretation stored: task_books "store_ok hp" hp for hp :: "string \<Rightarrow> go_error + string"
proof unfold_locales
  fix M s t and x m m' :: order and err u x1 w x2 i e and c :: claims
  show "store_ok hp M s \<Longrightarrow> registered hp u \<Longrightarrow> AddUser u s = (x1, t) \<Longrightarrow> store_ok hp M t"
    using healthy_writes(1) rows_writes(1) by (cases x1) (auto simp: store_ok_def)
  show "store_ok hp M s \<Longrightarrow> IsValidLuhn (wd_OrderID w) \<Longrightarrow> AddWithdrawn w s = (x2, t) \<Longrightarrow> store_ok hp M t"
    using healthy_writes(4) rows_writes(4) by (cases x2) (auto simp: store_ok_def)
  have add: "store_ok hp M t" if "orderly m" "AddOrder m s = ((err, m'), t)" "store_ok hp M s" for err m
    using healthy_writes(2) rows_writes(2) that by (auto simp: store_ok_def)
  show "store_ok hp M s \<Longrightarrow> orderly m \<Longrightarrow> AddOrder m s = ((Some e, m'), t) \<Longrightarrow> store_ok hp M t"
    using add by blast
  show "store_ok hp M s \<Longrightarrow> orderly (new_order i c) \<Longrightarrow> AddOrder (new_order i c) s = ((None, m'), t) \<Longrightarrow> store_ok hp (add_mset m' M) t"
    using add AddOrder_spec(3) [of "new_order i c" s None m' t] orderly_task by (simp add: store_ok_def)
  show "store_ok hp (add_mset x M) s \<Longrightarrow> UpdateOrder m s = ((err, m'), t) \<Longrightarrow> ord_ID m = ord_ID x \<Longrightarrow>
      ord_UserID m = ord_UserID x \<Longrightarrow> 0 \<le> sint (ord_Accrual m) \<Longrightarrow>
      store_ok hp M t \<and> (err = None \<longrightarrow> ord_Status m \<noteq> OrderProcessedStatus \<longrightarrow> store_ok hp (add_mset m M) t)"
    using healthy_writes(3) [of s m err m' t] rows_writes(3) [of hp s m err m' t] by (simp add: store_ok_def task_ok_def)
  show "store_ok hp M s \<Longrightarrow> later s t \<Longrightarrow> tables t = tables s \<Longrightarrow> store_ok hp M t"
    using healthy_later [of s t] by (simp add: store_ok_def)
qed (simp_all add: store_ok_def task_ok_def)

text \<open>C4. What is stored is well-formed in every state the server reaches, whatever requests it gets, whatever
fails and however its goroutines interleave, as long as the accrual service takes no points away:
logins and hashes within the limits of the code and the schema, no hash that is not what the hash
function gave for a password of at least eight bytes, order numbers and the numbers of withdrawals that pass
the checksum, and amounts that are 64-bit integers, those of orders not negative.\<close>
theorem stored_rows_well_formed:
  assumes "NewRouter_pool (Inr ps) uuid_err n w b s c d = Inr (Some (Returns p))" "healthy s" "rows_ok (e_hash e) (tables s)"
    and "\<forall>t\<in>set (wp_pendingTasks p). task_ok t" "e_db e = NewSQLStorage" "generous client" "(server_step e client ps)\<^sup>*\<^sup>* p q"
  shows "(\<forall>r\<in>set (users (tables (os_db (wp_service q)))). 4 \<le> length (ur_login r) \<and> char_count (ur_login r) \<le> 32 \<and>
      char_count (ur_hash r) \<le> 128 \<and> (\<exists>x. 8 \<le> length x \<and> e_hash e x = Inr (ur_hash r)) \<and> in_int64 (ur_balance r)) \<and>
    (\<forall>r\<in>set (orders (tables (os_db (wp_service q)))). or_id r \<noteq> [] \<and> IsValidLuhn (or_id r) \<and> 0 \<le> or_accrual r \<and> in_int64 (or_accrual r)) \<and>
    (\<forall>r\<in>set (withdrawals (tables (os_db (wp_service q)))). IsValidLuhn (wr_order r) \<and> in_int64 (wr_withdrawn r)) \<and>
    (\<forall>t\<in>#tasks_of q + mset (wp_drained q). IsValidLuhn (ord_ID t) \<and> 0 \<le> sint (ord_Accrual t))"
proof -
  have "store_ok (e_hash e) (mset (wp_pendingTasks p)) s" using assms(2-4) by (simp add: store_ok_def)
  from stored.run_keeps [OF assms(1) this assms(5) refl assms(6,7)]
  show ?thesis by (auto simp: store_ok_def row_defs hashed_def task_ok_def MinLoginLength_def MinPasswordLength_def)
qed

theorem stored_rows_well_formed_witness:
  "\<exists>q. demo_life (demo_env\<lparr>e_hash := \<lambda>p. Inr ''hash''\<rparr>) paying (demo_stage [the_task] True Waiting [] Idle (demo_tables 0 NEW) []) q \<and>
     (\<forall>r\<in>set (orders (tables (os_db (wp_service q)))). IsValidLuhn (or_id r)) \<and>
     map or_accrual (orders (tables (os_db (wp_service q)))) = [72998]"
proof -
  let ?e = "demo_env\<lparr>e_hash := \<lambda>p. Inr ''hash''\<rparr>"
  let ?q = "demo_stage [] False Popping [] Idle (demo_tables 72998 PROCESSED) [the_task]"
  have "hashed (e_hash ?e) ''hash''" by (simp add: hashed_def) (metis length_replicate order_refl)
  moreover have l: "IsValidLuhn ''79927398713''" by code_simp
  ultimately have "rows_ok (e_hash ?e) (tables (demo_tables 0 NEW))" "\<forall>t\<in>set [the_task]. task_ok t"
    by (simp_all add: row_defs demo_tables_def demo_server_def char_count_def MinLoginLength_def in_int64_def task_ok_def
        new_order_def zero_order_def)
  then have "\<forall>r\<in>set (orders (tables (os_db (wp_service ?q)))). IsValidLuhn (or_id r)"
    using stored_rows_well_formed [OF demo_stage_starts demo_tables_start(1) _ _ _ demo_generous demo_run_paid, of ?e]
    by (simp add: demo_env_db demo_stage_def)
  moreover have "map or_accrual (orders (tables (os_db (wp_service ?q)))) = [72998]"
    by (simp add: demo_stage_def demo_orders_def demo_tables_def)
  ultimately show ?thesis using demo_run_paid [of ?e] demo_env_db by (intro exI [of _ ?q]) simp
qed

section \<open>What the checksum does not see\<close>

lemma AddOrder_no_faults:
  assumes "faults s = []" "uuid_in s (ord_UserID m) = Some uid" "status_in (ord_Status m) = Some st"
    and "char_count (ord_ID m) \<le> 256" "\<forall>r\<in>set (orders (tables s)). or_id r \<noteq> ord_ID m"
  shows "AddOrder m s = ((None, m), s\<lparr>tables := (tables s)\<lparr>orders := orders (tables s) @
    [\<lparr>or_id = ord_ID m, or_user = uid, or_status = st, or_accrual = 0, or_uploaded = now s, or_updated = now s\<rparr>]\<rparr>\<rparr>)"
    (is "_ = ((None, m), ?t)")
proof -
  have "m\<lparr>ord_ID := ord_ID m\<rparr> = m" by simp
  then have "addOrderTx m s = (None, m, ?t)"
    using assms by (simp add: addOrderTx_def run_stmt_def pop_fault_none QueryInsertOrder_def)
  from withTxRetry_no_faults [where action = addOrderTx, OF assms(1) this] assms(1) show ?thesis by (simp add: AddOrder_def)
qed

lemma Store_no_faults:
  assumes "faults (os_db o') = []" "uuid_in (os_db o') (cl_UserID c) = Some uid" "cl_UserID c \<noteq> []"
    and "IsValidLuhn i" "i \<noteq> []" "char_count i \<le> 256" "\<forall>r\<in>set (orders (tables (os_db o'))). or_id r \<noteq> i" "link_open o'"
  shows "\<exists>t. OrderService_Store NewSQLStorage (Some c) i o' = (Returns None, t) \<and> link_open t \<and> faults (os_db t) = [] \<and>
    uuid_in (os_db t) = uuid_in (os_db o') \<and>
    (\<exists>r. or_id r = i \<and> or_user r = uid \<and> orders (tables (os_db t)) = orders (tables (os_db o')) @ [r])"
proof -
  have v: "Order_Validate (new_order i c) = None" "status_in (ord_Status (new_order i c)) = Some NEW"
    "ord_ID (new_order i c) = i" "ord_UserID (new_order i c) = cl_UserID c"
    using assms(3,5) by (simp_all add: Order_Validate_def new_order_def zero_order_def validStatuses_def status_in_def status_defs)
  note a = AddOrder_no_faults [of "os_db o'" "new_order i c" uid NEW, unfolded v, OF assms(1,2) refl assms(6,7)]
  show ?thesis
    using assms(1,4,8) v(1) a
    by (auto simp: OrderService_Store_def NewOrder_def new_order_def [symmetric] NewSQLStorage_def sendOrderToProcessor_def
        try_send_def link_open_def)
qed

lemma IsValidLuhn_clean: "IsValidLuhn i \<longleftrightarrow> IsValidLuhn (luhn_clean i)"
  by (simp add: IsValidLuhn_def luhn_clean_idem)

text \<open>C22. The checksum drops blanks and hyphens, the rest of the program does not: the same number written
in two ways is two orders. Both texts are accepted, one after the other, by a server that works, and both
are stored for the user, each with a task of its own.\<close>
theorem one_number_two_orders:
  assumes "faults (os_db o') = []" "uuid_in (os_db o') (cl_UserID c) = Some uid" "cl_UserID c \<noteq> []"
    and "IsValidLuhn i" "luhn_clean j = luhn_clean i" "j \<noteq> i" "i \<noteq> []" "j \<noteq> []" "char_count i \<le> 256" "char_count j \<le> 256"
    and "\<forall>r\<in>set (orders (tables (os_db o'))). or_id r \<noteq> i \<and> or_id r \<noteq> j" "link_open o'"
  shows "\<exists>t u. OrderService_Store NewSQLStorage (Some c) i o' = (Returns None, t) \<and>
    OrderService_Store NewSQLStorage (Some c) j t = (Returns None, u) \<and>
    order_owner (os_db u) i = Some uid \<and> order_owner (os_db u) j = Some uid"
proof -
  have j: "IsValidLuhn j" using assms(4,5) IsValidLuhn_clean by metis
  obtain t r where t: "OrderService_Store NewSQLStorage (Some c) i o' = (Returns None, t)" "link_open t" "faults (os_db t) = []"
    "uuid_in (os_db t) = uuid_in (os_db o')" "or_id r = i" "or_user r = uid" "orders (tables (os_db t)) = orders (tables (os_db o')) @ [r]"
    using Store_no_faults [OF assms(1-4,7,9) _ assms(12)] assms(11) by blast
  then obtain u q where u: "OrderService_Store NewSQLStorage (Some c) j t = (Returns None, u)"
    "or_id q = j" "or_user q = uid" "orders (tables (os_db u)) = orders (tables (os_db t)) @ [q]"
    using Store_no_faults [of t c uid j] assms(2,3,6,8,10,11) j by fastforce
  have "map_of (map (\<lambda>r. (or_id r, or_user r)) (orders (tables (os_db o')))) k = None" if "k = i \<or> k = j" for k
    using assms(11) that by (auto simp: map_of_eq_None_iff)
  then have "order_owner (os_db u) i = Some uid" "order_owner (os_db u) j = Some uid"
    using t(5-7) u(2-4) assms(6) by (simp_all add: order_owner_def map_add_def)
  with t(1) u(1) show ?thesis by blast
qed

theorem one_number_two_orders_witness:
  "\<exists>t u. OrderService_Store NewSQLStorage (Some demo_claims) ''79927398713'' (demo_orders demo_server) = (Returns None, t) \<and>
     OrderService_Store NewSQLStorage (Some demo_claims) ''7992-7398713'' t = (Returns None, u) \<and>
     order_owner (os_db u) ''79927398713'' = Some ''u'' \<and> order_owner (os_db u) ''7992-7398713'' = Some ''u''"
proof (rule one_number_two_orders)
  show "IsValidLuhn ''79927398713''" "luhn_clean ''7992-7398713'' = luhn_clean ''79927398713''" by code_simp+
qed (simp_all add: demo_orders_def demo_server_def demo_claims_def empty_db_def char_count_def link_open_def make_chan_def)

end
