(* ===== verification/Gateway.thy ===== *)
theory Gateway
  imports StoredData
begin

text \<open>
  The router with the middleware of \<open>GetBaseRouter\<close> around every route: a request identifier, the recovery
  from panics, the logger, the time limit. Three of them are chi's and are arguments; what they are
  documented to do is stated as hypotheses. Shown here: every request is answered, whatever happens in
  its handler, and what is proved of the routes is what a client gets.
\<close>

section \<open>GetBaseRouter\<close>

definition GetBaseRouter ::
  "((http_writer, 's) handler \<Rightarrow> (http_writer, 's) handler) \<Rightarrow> ((http_writer, 's) handler \<Rightarrow> (http_writer, 's) handler) \<Rightarrow>
   ((http_writer loggingResponseWriter, 's) handler \<Rightarrow> (http_writer loggingResponseWriter, 's) handler) \<Rightarrow>
   (http_writer loggingResponseWriter, 's) handler \<Rightarrow> (http_writer, 's) handler" where
  "GetBaseRouter RequestID Recoverer Timeout next = RequestID (Recoverer (\<lambda>r ws. fst (Logger HttpWriter (Timeout next) r ws)))"

definition ServeHTTP ::
  "((http_writer, ('s, 'c) OrderService) handler \<Rightarrow> (http_writer, ('s, 'c) OrderService) handler) \<Rightarrow>
   ((http_writer, ('s, 'c) OrderService) handler \<Rightarrow> (http_writer, ('s, 'c) OrderService) handler) \<Rightarrow>
   ((http_writer loggingResponseWriter, ('s, 'c) OrderService) handler \<Rightarrow> (http_writer loggingResponseWriter, ('s, 'c) OrderService) handler) \<Rightarrow>
   ('s, 'z) env \<Rightarrow> string \<Rightarrow> string \<Rightarrow> go_request \<Rightarrow> ('s, 'c) OrderService \<Rightarrow>
   (unit outcome \<times> response \<times> ('s, 'c) OrderService) option" where
  "ServeHTTP RequestID Recoverer Timeout e meth path r o' =
     (case route e LW meth path of None \<Rightarrow> None
      | Some h \<Rightarrow> (case GetBaseRouter RequestID Recoverer Timeout h (r\<lparr>req_Claims := None\<rparr>) (new_http_writer, o') of
          (res, w, o') \<Rightarrow> Some (res, server.seen w, o')))"

text \<open>
  What chi promises. \<open>RequestID\<close> adds a value to the context that no handler reads. \<open>Recoverer\<close> turns a panic
  into the status 500. \<open>Timeout\<close> sets 504 when the time is up by the end of the handler, however that ends;
  a status that is set when one was sent already has no effect, which is the writer's matter.
\<close>

definition identifies :: "(('w, 's) handler \<Rightarrow> ('w, 's) handler) \<Rightarrow> bool" where
  "identifies RequestID \<longleftrightarrow> (\<forall>h r x. RequestID h r x = h r x)"

definition recovers :: "((http_writer, 's) handler \<Rightarrow> (http_writer, 's) handler) \<Rightarrow> bool" where
  "recovers Recoverer \<longleftrightarrow> (\<forall>h r w s. Recoverer h r (w, s) =
     (case h r (w, s) of (Returns u, w, s) \<Rightarrow> (Returns (), w, s)
      | (Panics p, w, s) \<Rightarrow> (Returns (), rw_WriteHeader HttpWriter 500 w, s)))"

definition limits :: "bool \<Rightarrow> ((http_writer loggingResponseWriter, 's) handler \<Rightarrow> (http_writer loggingResponseWriter, 's) handler) \<Rightarrow> bool" where
  "limits late Timeout \<longleftrightarrow> (\<forall>h r l s. Timeout h r (l, s) =
     (case h r (l, s) of (res, l, s) \<Rightarrow> (res, if late then rw_WriteHeader LW 504 l else l, s)))"

section \<open>A handler that panics has sent nothing\<close>

definition quiet :: "bool \<Rightarrow> ('w, 's) handler \<Rightarrow> bool" where
  "quiet auth h \<longleftrightarrow> (\<forall>r w s p w' s'. req_Logger r \<longrightarrow> (auth \<longrightarrow> req_Claims r \<noteq> None) \<longrightarrow> h r (w, s) = (Panics p, w', s') \<longrightarrow> w' = w)"

lemma quietI:
  "(\<And>r w s p w' s'. req_Logger r \<Longrightarrow> (auth \<Longrightarrow> \<exists>c. req_Claims r = Some c) \<Longrightarrow> h r (w, s) = (Panics p, w', s') \<Longrightarrow> w' = w) \<Longrightarrow>
   quiet auth h"
  unfolding quiet_def by blast

lemma quietD:
  "quiet auth h \<Longrightarrow> h r (w, s) = (Panics p, w', s') \<Longrightarrow> req_Logger r \<Longrightarrow> (auth \<Longrightarrow> req_Claims r \<noteq> None) \<Longrightarrow> w' = w"
  unfolding quiet_def by blast

text \<open>Most handlers never panic at all, whatever the database does.\<close>

lemma no_panic_quiet: "safe auth always always h \<Longrightarrow> quiet auth h"
  by (rule quietI) (auto dest: safeD)

lemma any_storage: "request_storage st (\<lambda>T s. True) hp"
  by unfold_locales simp_all

lemma safe_everything: "safe a always always (on_db h)" if "safe a (\<lambda>s. True) always h"
  using that unfolding safe_def on_db_def by (auto split: prod.splits)

lemma quiet_protected: "quiet True h \<Longrightarrow> quiet False (protected e rw h)"
  by (rule quietI) (auto simp: protected_def JWTAuth_def split: sum.splits if_splits dest!: quietD)

lemma quiet_AddOrder: "quiet a (handle_AddOrder rw ors)"
  by (rule quietI) (auto simp: handle_AddOrder_def safe_simps split: if_splits sum.splits prod.splits outcome.splits option.splits)

lemma safe_list: "safe True always always (handle_ListOrders rw tt (NewOrderService db))"
  by (rule safeI) (auto simp: handle_ListOrders_def NewOrderService_def OrderService_List_def safe_simps
      split: if_splits sum.splits prod.splits outcome.splits option.splits)

lemmas safe_others = request_storage.safe_balance [OF any_storage] request_storage.safe_withdraw [OF any_storage]
  request_storage.safe_withdrawals [OF any_storage] request_storage.safe_login [OF any_storage]
  request_storage.safe_register [OF any_storage]

lemma quiet_route: "route e rw m p = Some h \<Longrightarrow> quiet False h"
  unfolding route_def Let_def
  by (auto split: if_splits intro!: quiet_protected [OF quiet_AddOrder] no_panic_quiet safe_protected safe_compressed
      safe_everything safe_list safe_others)

section \<open>Every request is answered\<close>

lemma recovered_status:
  "rsp_Status (server.seen (http_WriteHeader 500 (http_WriteHeader 504 new_http_writer))) = 504"
  "rsp_Status (server.seen (http_WriteHeader 500 new_http_writer)) = 500"
  by (simp_all add: server.seen_def http_sent_def http_WriteHeader_def new_http_writer_def declared_length_def Header_Get_def)

text \<open>C6. With chi's middleware around the routes as \<open>GetBaseRouter\<close> puts it, a request to any of them is answered and no
panic gets out. What it does to the state is what the route does; if the handler returned in time, the client
gets the route's response; if it panicked, the status is 500, or 504 when the time is up as well.\<close>
theorem every_request_answered:
  fixes o' :: "('s, 'c) OrderService"
  assumes "serve e meth path r o' = Some (res, resp, t)" "identifies RequestID" "recovers Recoverer" "limits late Timeout"
  shows "\<exists>resp'. ServeHTTP RequestID Recoverer Timeout e meth path r o' = Some (Returns (), resp', t) \<and>
    (res = Returns () \<longrightarrow> \<not> late \<longrightarrow> resp' = resp) \<and>
    (res \<noteq> Returns () \<longrightarrow> rsp_Status resp' = (if late then 504 else 500))"
proof -
  from assms(1) obtain h :: "(_, ('s, 'c) OrderService) handler" where h: "route e LW meth path = Some h"
    by (auto simp: serve_def split: option.splits)
  let ?r = "r\<lparr>req_Claims := None, req_Logger := True\<rparr>"
  obtain x l s where x: "h ?r (new_logged, o') = (x, l, s)" by (metis prod.collapse)
  with assms(1) have s: "res = x" "resp = logged.seen l" "t = s" by (simp_all add: serve_route [OF h])
  have lw: "lw_ResponseWriter (rw_WriteHeader LW c k) = http_WriteHeader c (lw_ResponseWriter k)" for c k
    by (simp add: LoggingWriter_def HttpWriter_def)
  have hw: "rw_WriteHeader HttpWriter = http_WriteHeader" by (simp add: HttpWriter_def)
  let ?l = "if late then rw_WriteHeader LW 504 l else l"
  have "Timeout h ?r (new_logged, o') = (x, ?l, s)" using assms(4) x by (simp add: limits_def)
  then have f: "fst (Logger HttpWriter (Timeout h) (r\<lparr>req_Claims := None\<rparr>) (new_http_writer, o')) =
      (case x of Returns _ \<Rightarrow> (Returns (), lw_ResponseWriter ?l, s) | Panics p \<Rightarrow> (Panics p, lw_ResponseWriter ?l, s))"
    by (simp add: Logger_def new_logged_def split: outcome.split)
  have g: "ServeHTTP RequestID Recoverer Timeout e meth path r o' = Some (Returns (),
      server.seen (case x of Returns _ \<Rightarrow> lw_ResponseWriter ?l | Panics p \<Rightarrow> http_WriteHeader 500 (lw_ResponseWriter ?l)), t)"
    using assms(2,3) f s(3) hw
    by (simp add: ServeHTTP_def h GetBaseRouter_def identifies_def recovers_def split: outcome.split)
  have "l = new_logged" if "x = Panics p" for p
    using quietD [OF quiet_route [OF h] x [unfolded that]] by simp
  then show ?thesis
    unfolding g using s(1,2) recovered_status
    by (cases x) (auto simp: logged_seen lw new_logged_def)
qed

section \<open>Witness\<close>

text \<open>An order is handed in after the shutdown has closed the link channel: it is stored, its handler panics, and
the client is told 500.\<close>

definition chi_Recoverer :: "(http_writer, 's) handler \<Rightarrow> (http_writer, 's) handler" where
  "chi_Recoverer h r ws = (case h r ws of (Returns u, w, s) \<Rightarrow> (Returns (), w, s)
     | (Panics p, w, s) \<Rightarrow> (Returns (), rw_WriteHeader HttpWriter 500 w, s))"

definition demo_closed :: "server \<Rightarrow> (server, unit) OrderService" where
  "demo_closed s = (demo_orders s)\<lparr>os_reports := (make_chan 2)\<lparr>chan_closed := True\<rparr>\<rparr>"

lemma demo_store_closed:
  "\<exists>t. OrderService_Store NewSQLStorage (Some demo_claims) ''79927398713'' (demo_closed demo_server) = (Panics SendOnClosedChannel, t) \<and>
     order_owner (os_db t) ''79927398713'' = Some ''u''"
proof -
  have "IsValidLuhn ''79927398713''" by code_simp
  then show ?thesis
    by (simp add: OrderService_Store_def NewOrder_def NewSQLStorage_def Order_Validate_def validStatuses_def demo_claims_def demo_closed_def
        demo_orders_def sendOrderToProcessor_def try_send_def make_chan_def run_defs demo_defs order_owner_def)
qed

lemma demo_serve_closed:
  "\<exists>resp t. serve demo_env ''POST'' ''/api/user/orders'' (demo_request TextPlainContentType ''79927398713'' ''good'') (demo_closed demo_server)
     = Some (Panics SendOnClosedChannel, resp, t) \<and> order_owner (os_db t) ''79927398713'' = Some ''u''"
proof -
  obtain t where t: "OrderService_Store NewSQLStorage (Some demo_claims) ''79927398713'' (demo_closed demo_server) = (Panics SendOnClosedChannel, t)"
    "order_owner (os_db t) ''79927398713'' = Some ''u''"
    using demo_store_closed by blast
  let ?r = "demo_request TextPlainContentType ''79927398713'' ''good''"
  have h: "route demo_env LW ''POST'' ''/api/user/orders'' = Some (protected demo_env LW (handle_AddOrder LW (NewOrderService NewSQLStorage)))"
    by (simp add: route_def Let_def demo_env_def)
  have r: "Header_Get ContentType (req_Header ?r) = TextPlainContentType" "req_Body ?r = Inr ''79927398713''"
    by (simp_all add: demo_request_def Header_Get_def)
  have "serve demo_env ''POST'' ''/api/user/orders'' ?r (demo_closed demo_server) = Some (Panics SendOnClosedChannel, logged.seen new_logged, t)"
    unfolding serve_route [OF h] protected_with_token [OF demo_token(1)]
    by (simp add: handle_AddOrder_def with_logger_def NewOrderService_def GetClaims_def r t(1))
  with t(2) show ?thesis by blast
qed

theorem every_request_answered_witness:
  "\<exists>resp t. ServeHTTP id chi_Recoverer id demo_env ''POST'' ''/api/user/orders'' (demo_request TextPlainContentType ''79927398713'' ''good'')
      (demo_closed demo_server) = Some (Returns (), resp, t) \<and> rsp_Status resp = 500 \<and> order_owner (os_db t) ''79927398713'' = Some ''u''"
proof -
  obtain resp t where s: "serve demo_env ''POST'' ''/api/user/orders'' (demo_request TextPlainContentType ''79927398713'' ''good'')
      (demo_closed demo_server) = Some (Panics SendOnClosedChannel, resp, t)" "order_owner (os_db t) ''79927398713'' = Some ''u''"
    using demo_serve_closed by blast
  have "identifies id" "recovers chi_Recoverer" "limits False id"
    by (auto simp: identifies_def recovers_def limits_def chi_Recoverer_def split: prod.split)
  from every_request_answered [OF s(1) this] s(2) show ?thesis by auto
qed

end
