(* ===== verification/Crashes.thy ===== *)
theory Crashes
  imports Accounts
begin

text \<open>
  What can end the program while it runs. A handler that panics is caught by the HTTP server, a goroutine
  of the pool that panics is not. There are two ways: a pause that is not positive, which only the accrual
  service can ask for, and a send into the link channel after the shutdown has closed it.
\<close>

section \<open>What the goroutines rely on\<close>

definition pause_asked :: "(string \<Rightarrow> 'c \<Rightarrow> (go_error + accrual_response) \<times> 'c) \<Rightarrow> go_int \<Rightarrow> bool" where
  "pause_asked client d \<longleftrightarrow> (\<exists>i c err c'. client i c = (Inl err, c') \<and> as_AccrualError err = Some d)"

fun answer_ok :: "(string \<Rightarrow> 'c \<Rightarrow> (go_error + accrual_response) \<times> 'c) \<Rightarrow> worker \<Rightarrow> bool" where
  "answer_ok client (Answered t (Inl err)) \<longleftrightarrow> (\<forall>d. as_AccrualError err = Some d \<longrightarrow> pause_asked client d)"
| "answer_ok client (Answered t (Inr resp)) \<longleftrightarrow> sliceable resp"
| "answer_ok client _ \<longleftrightarrow> True"

definition crash_cause :: "(string \<Rightarrow> 'c \<Rightarrow> (go_error + accrual_response) \<times> 'c) \<Rightarrow> bool \<Rightarrow> go_panic \<Rightarrow> bool" where
  "crash_cause client shutdown x \<longleftrightarrow> x = SendOnClosedChannel \<and> shutdown \<or>
     x = NonPositiveTicker \<and> (\<exists>d. pause_asked client d \<and> \<not> 0 <s d)"

definition calm :: "(string \<Rightarrow> 'c \<Rightarrow> (go_error + accrual_response) \<times> 'c) \<Rightarrow> (server, 'c, 'd) pool \<Rightarrow> bool" where
  "calm client p \<longleftrightarrow> server_ok p \<and> (\<forall>d\<in>set (chan_buf (pauseCh p)). pause_asked client d) \<and>
     (\<forall>w\<in>set (wp_workers p). answer_ok client w) \<and> (\<forall>x. wp_crashed p = Some x \<longrightarrow> crash_cause client (wp_parent p) x)"

section \<open>Workers\<close>

lemma answer_pauses:
  assumes "answer_task db t r o' = (Returns y, svc)"
  shows "os_pause svc = os_pause o' \<or>
    (\<exists>err d. r = Inl err \<and> as_AccrualError err = Some d \<and> chan_buf (os_pause svc) = chan_buf (os_pause o') @ [d])"
  using assms
  by (auto simp: answer_task_def try_send_def split: sum.splits option.splits if_splits outcome.splits prod.splits)

lemma calm_worker:
  assumes "worker_step NewSQLStorage client i p q" "calm client p" "server_ok q"
    and "\<And>i c resp c'. client i c = (Inr resp, c') \<Longrightarrow> sliceable resp"
  shows "calm client q"
proof -
  have ws: "\<forall>w\<in>set (wp_workers p). answer_ok client w" using assms(2) by (simp add: calm_def)
  note new = workers_update [OF ws]
  from assms(1) show ?thesis
  proof cases
    case (work_ask t r c)
    have "answer_ok client (Answered t r)"
      using assms(4) work_ask(4) by (cases r) (auto simp: pause_asked_def)
    with assms(2,3) new [of "Answered t r" i] show ?thesis by (simp add: work_ask(1) calm_def)
  next
    case (work_finish t r e svc)
    have "answer_ok client (Answered t r)" using ws work_finish(2,3) by (metis nth_mem)
    then have "\<forall>d\<in>set (chan_buf (os_pause svc)). pause_asked client d"
      using answer_pauses [OF work_finish(4)] assms(2) by (auto simp: calm_def)
    with assms(2,3) new [of Idle i] show ?thesis by (simp add: work_finish(1) calm_def)
  next
    case (work_again t r e m svc)
    have "answer_ok client (Answered t r)" using ws work_again(2,3) by (metis nth_mem)
    then have "\<forall>d\<in>set (chan_buf (os_pause svc)). pause_asked client d"
      using answer_pauses [OF work_again(4)] assms(2) by (auto simp: calm_def)
    with assms(2,3) new [of "Sending t m" i] show ?thesis by (simp add: work_again(1) calm_def)
  next
    case (work_panic t r x svc m)
    have "\<not> chan_closed (pauseCh p)" "link_open (wp_service p) \<or> wp_parent p"
      using assms(2) by (simp_all add: calm_def server_ok_def sql.sound_def)
    moreover have "answer_ok client (wp_workers p ! i)" using ws work_panic(2) by simp
    ultimately have "crash_cause client (wp_parent p) x"
      using work_panic(3) answer_returns [of NewSQLStorage t r "wp_service p" x svc] sent_back(1) [of m "wp_service p" x svc]
      by (auto simp: crash_cause_def link_open_def)
    with assms(2,3) show ?thesis by (simp add: work_panic(1) calm_def)
  next
    case work_done
    with assms(2,3) new [of WorkerDone i] show ?thesis by (simp add: calm_def)
  next
    case (work_take t ts)
    with assms(2,3) new [of "Working t" i] show ?thesis by (simp add: calm_def pool_ops)
  next
    case (work_send t m u svc)
    with assms(2,3) new [of Idle i] sent_back(2) [OF work_send(4)] show ?thesis by (simp add: calm_def)
  qed
qed

section \<open>The other goroutines and the requests\<close>

lemma calm_dispatch:
  assumes "dispatch_step ps p q" "calm client p" "server_ok q"
  shows "calm client q"
  using assms
  by cases (auto simp: calm_def pool_ops crash_cause_def split: if_splits dest!: set_update_subset_insert [THEN subsetD])

text \<open>No request touches the channel of pauses.\<close>

lemma Store_pause: "OrderService_Store db c i o' = (r, t) \<Longrightarrow> os_pause t = os_pause o'"
  by (auto simp: OrderService_Store_def split: option.splits prod.splits sum.splits if_splits outcome.splits
      dest!: sendOrderToProcessor_adds)

definition pauses_kept :: "go_int chan \<Rightarrow> ('s, 'c) OrderService \<Rightarrow> bool" where
  "pauses_kept ch o' \<longleftrightarrow> os_pause o' = ch"

abbreviation never :: "'s \<Rightarrow> bool" where "never \<equiv> \<lambda>_. False"

lemma pauses_on_db: "safe a (pauses_kept ch) never (on_db h)"
  by (auto simp: safe_def on_db_def pauses_kept_def split: prod.splits)

lemma pauses_AddOrder: "safe True (pauses_kept ch) never (handle_AddOrder rw (NewOrderService db))"
  by (rule safeI) (auto simp: handle_AddOrder_def NewOrderService_def safe_simps pauses_kept_def
      split: if_splits sum.splits prod.splits outcome.splits option.splits dest!: Store_pause)

lemma pauses_ListOrders: "safe True (pauses_kept ch) never (handle_ListOrders rw tt (NewOrderService db))"
  by (rule safeI) (auto simp: handle_ListOrders_def NewOrderService_def OrderService_List_def safe_simps pauses_kept_def
      split: if_splits sum.splits prod.splits outcome.splits option.splits)

lemma pauses_route: "route e rw m p = Some h \<Longrightarrow> safe False (pauses_kept ch) never h"
  unfolding route_def Let_def
  by (auto split: if_splits intro!: safe_protected safe_compressed pauses_on_db pauses_AddOrder pauses_ListOrders)

lemma serve_pauses:
  fixes o' :: "('s, 'c) OrderService"
  assumes "serve e m p r o' = Some (res, resp, t)"
  shows "os_pause t = os_pause o'"
proof -
  from assms obtain h :: "(_, ('s, 'c) OrderService) handler" where h: "route e LW m p = Some h" by (auto simp: serve_def split: option.splits)
  obtain res' l t' where "h (r\<lparr>req_Claims := None, req_Logger := True\<rparr>) (new_logged, o') = (res', l, t')"
    by (metis prod.collapse)
  with assms safeD [OF pauses_route [OF h, of "os_pause o'"] this] show ?thesis
    by (auto simp: serve_route [OF h] pauses_kept_def)
qed

section \<open>The two ways to end\<close>

lemma calm_step:
  assumes "server_step e client ps p q" "e_db e = NewSQLStorage" "calm client p"
    and "\<And>i c resp c'. client i c = (Inr resp, c') \<Longrightarrow> sliceable resp"
  shows "calm client q"
  using assms(1)
proof cases
  case pool
  then have s: "pool_step NewSQLStorage client ps p q" using assms(2) by simp
  then have ok: "server_ok q" using server_ok_step assms(3) by (auto simp: calm_def)
  from s show ?thesis
  proof cases
    case reader
    from reader(2) assms(3) ok show ?thesis by cases (simp_all add: calm_def pool_ops)
  next
    case dispatcher
    from calm_dispatch [OF dispatcher(2) assms(3) ok] show ?thesis .
  next
    case (worker i)
    from calm_worker [OF worker(2) assms(3) ok assms(4)] show ?thesis .
  next
    case outer
    from outer(2) show ?thesis
    proof cases
      case (store c i r svc)
      with assms(3) ok Store_pause [OF store(2)] show ?thesis by (simp add: calm_def)
    qed (use outer(1) assms(3) ok in \<open>simp_all add: calm_def pool_ops\<close>)
  qed
next
  case (request m path r res resp svc)
  with assms(3) request_ok [OF assms(2) request(3)] serve_pauses [OF request(3)] show ?thesis by (simp add: calm_def)
qed

lemma pause_from_429:
  assumes "GetOrderAccrual check_url Do wait url rid i c = (Inl err, c')" "as_AccrualError err = Some d"
  shows "\<exists>resp req. rs_StatusCode resp = 429 \<and> busy_delay resp = d \<and> client_do Do wait req c = (Inr resp, c')"
proof -
  obtain req resp where r: "client_do Do wait req c = (Inr resp, c')" "answer_of resp = Inl err"
    using assms by (auto simp: GetOrderAccrual_def split: sum.splits prod.splits)
  have "parseAccrualResponse resp = Inl err \<Longrightarrow> as_AccrualError err = None"
    by (auto simp: parseAccrualResponse_def split: sum.splits)
  with r assms(2) show ?thesis by (auto simp: answer_of_def NewErrServiceIsBusy_def split: if_splits)
qed

text \<open>C5. What can end the running program, with the client as it is: a worker's send into the link channel once
a shutdown has begun and closed it, or a pause that is not positive, which the accrual service asked for
with an answer 429. Nothing a user sends can, nor any other answer or failure.\<close>
theorem only_two_crashes:
  fixes p :: "(server, 'c, 'd) pool"
  assumes "NewRouter_pool (Inr ps) uuid_err n w b s c d = Inr (Some (Returns p))" "healthy s" "e_db e = NewSQLStorage"
    and "(server_step e (GetOrderAccrual check_url Do wait url rid) ps)\<^sup>*\<^sup>* p q" "wp_crashed q = Some x"
  shows "x = SendOnClosedChannel \<and> wp_parent q \<or>
    x = NonPositiveTicker \<and> (\<exists>resp. rs_StatusCode resp = 429 \<and> \<not> 0 <s busy_delay resp \<and>
      (\<exists>req c c'. client_do Do wait req c = (Inr resp, c')))"
proof -
  let ?get = "GetOrderAccrual check_url Do wait url rid"
  note start = NewRouter_pool_service [OF assms(1)] server_ok_start [OF assms(1,2)]
  then have "calm ?get p" by (auto simp: calm_def make_chan_def)
  with assms(4) have "calm ?get q"
    by (induction rule: rtranclp_induct) (blast intro: calm_step [OF _ assms(3)] GetOrderAccrual_sliceable)+
  with assms(5) have "crash_cause ?get (wp_parent q) x" by (simp add: calm_def)
  then show ?thesis 
    unfolding crash_cause_def pause_asked_def by (metis pause_from_429)
qed

section \<open>Witness\<close>

text \<open>The accrual service answers 429 with a negative \<open>Retry-After\<close>, and the program ends.\<close>

abbreviation hostile :: "string \<Rightarrow> unit \<Rightarrow> (go_error + accrual_response) \<times> unit" where
  "hostile \<equiv> GetOrderAccrual (\<lambda>_. None) (\<lambda>rq c. (Inr (busy_response ''-5''), c)) (\<lambda>d c. (None, c)) ''http://accrual'' ''1''"

abbreviation minus_five :: go_int where "minus_five \<equiv> busy_delay (busy_response ''-5'')"

lemma minus_five: "\<not> 0 <s minus_five"
proof -
  have "atoi ''-5'' = Inr (- 5)" by (simp add: atoi_signed_def is_digit_def digit_val_def)
  then have "minus_five = - 5000000000" by (simp add: busy_delay_def busy_response_def time_Second_def del: atoi.simps)
  then show ?thesis by (simp add: zero_sless_iff)
qed

lemma hostile_answer: "hostile i c = (Inl (ServiceIsBusyError minus_five (ErrorString ''429 Too Many Requests'')), c)"
  by (simp add: GetOrderAccrual_def prepareRequest_def client_do_def client_RetryingAttempts_def numeral_3_eq_3 answer_of_def
      NewErrServiceIsBusy_def) (simp add: busy_response_def)

definition demo_busy :: "dispatcher \<Rightarrow> worker \<Rightarrow> go_int list \<Rightarrow> (server, unit, order list) pool" where
  "demo_busy dsp w ds = (demo_stage [] False dsp [] w (demo_tables 0 NEW) [])\<lparr>wp_service := (demo_orders (demo_tables 0 NEW))
     \<lparr>os_pause := (make_chan 1)\<lparr>chan_buf := ds\<rparr>\<rparr>\<rparr>"

lemma demo_run_busy:
  assumes "e_db e = NewSQLStorage"
  shows "demo_life e hostile (demo_stage [the_task] True Waiting [] Idle (demo_tables 0 NEW) [])
    (demo_busy Popping (Sending the_task the_task) [minus_five])"
proof (rule rtranclp_trans [OF demo_run_taken [OF assms]])
  let ?a = "Inl (ServiceIsBusyError minus_five (ErrorString ''429 Too Many Requests''))"
  let ?p = "demo_busy Popping (Working the_task) []" and ?q = "demo_busy Popping (Answered the_task ?a) []"
  let ?r = "demo_busy Popping (Sending the_task the_task) [minus_five]"
  have "worker_step NewSQLStorage hostile 0 ?p ?q"
    using work_ask [of 0 ?p the_task hostile, OF _ _ hostile_answer] by (simp add: demo_busy_def demo_stage_def demo_orders_def)
  moreover have "answer_task NewSQLStorage the_task ?a (wp_service ?q) = (Returns (SendBack (Some (projl ?a)) the_task), wp_service ?r)"
    by (simp add: answer_task_def demo_busy_def demo_orders_def try_send_def make_chan_def)
  then have "worker_step NewSQLStorage hostile 0 ?q ?r"
    using work_again [of 0 ?q the_task ?a NewSQLStorage "Some (projl ?a)" the_task "wp_service ?r" hostile]
    by (simp add: demo_busy_def demo_stage_def)
  moreover have "demo_stage [] False Popping [] (Working the_task) (demo_tables 0 NEW) [] = ?p"
    by (simp add: demo_busy_def demo_stage_def demo_orders_def make_chan_def)
  ultimately show "demo_life e hostile (demo_stage [] False Popping [] (Working the_task) (demo_tables 0 NEW) []) ?r"
    by (simp only:, elim demo_work [OF assms]) (simp_all add: demo_busy_def demo_stage_def)
qed

lemma demo_run_crash:
  assumes "e_db e = NewSQLStorage"
  shows "demo_life e hostile (demo_stage [the_task] True Waiting [] Idle (demo_tables 0 NEW) [])
    ((demo_busy Waiting (Sending the_task the_task) [])\<lparr>wp_crashed := Some NonPositiveTicker\<rparr>)"
proof (rule rtranclp_trans [OF demo_run_busy [OF assms]])
  let ?r = "demo_busy Popping (Sending the_task the_task) [minus_five]" and ?s = "demo_busy Waiting (Sending the_task the_task) [minus_five]"
  have "dispatch_step slot ?r ?s"
    using pop_none [of ?r slot] by (simp add: demo_busy_def demo_stage_def)
  moreover have "dispatch_step slot ?s ((demo_busy Waiting (Sending the_task the_task) [])\<lparr>wp_crashed := Some NonPositiveTicker\<rparr>)"
    using wait_pause [of ?s minus_five "[]" slot] minus_five
    by (simp add: demo_busy_def demo_stage_def demo_orders_def sleepForAWhile_def set_pauseCh_def make_chan_def)
  ultimately show "demo_life e hostile ?r ((demo_busy Waiting (Sending the_task the_task) [])\<lparr>wp_crashed := Some NonPositiveTicker\<rparr>)"
    by (elim demo_dispatch) (simp_all add: demo_busy_def demo_stage_def)
qed

text \<open>The other way: the same worker is about to send when the shutdown closes the link channel.\<close>

lemma shutdown_crash_reachable:
  assumes "e_db e = NewSQLStorage"
  shows "\<exists>q. demo_life e hostile (demo_stage [the_task] True Waiting [] Idle (demo_tables 0 NEW) []) q \<and>
    wp_crashed q = Some SendOnClosedChannel"
proof -
  let ?r = "demo_busy Popping (Sending the_task the_task) [minus_five]"
  let ?p = "?r\<lparr>wp_parent := True\<rparr>"
  let ?q = "?p\<lparr>wp_service := (wp_service ?p)\<lparr>os_reports := (taskCh ?p)\<lparr>chan_closed := True\<rparr>\<rparr>\<rparr>"
  let ?x = "?q\<lparr>wp_crashed := Some SendOnClosedChannel\<rparr>"
  have live: "wp_crashed ?r = None" "wp_crashed ?p = None" "wp_crashed ?q = None" by (simp_all add: demo_busy_def demo_stage_def)
  have "outer_step NewSQLStorage ?r ?p" "outer_step NewSQLStorage ?p ?q" by (rule parent, rule close_link, simp)
  moreover have "worker_step NewSQLStorage hostile 0 ?q ?x"
    by (rule work_panic [where t = the_task and m = the_task and svc = "wp_service ?q"])
      (simp_all add: demo_busy_def demo_stage_def sendOrderToProcessor_def try_send_def)
  ultimately have "pool_step NewSQLStorage hostile slot ?r ?p" "pool_step NewSQLStorage hostile slot ?p ?q" "pool_step NewSQLStorage hostile slot ?q ?x"
    using live by (blast intro: outer worker)+
  then have "server_step e hostile slot ?r ?p" "server_step e hostile slot ?p ?q" "server_step e hostile slot ?q ?x"
    by (simp_all only: server_step.pool assms)
  then have "demo_life e hostile ?r ?x" by (meson converse_rtranclp_into_rtranclp rtranclp.rtrancl_refl)
  then show ?thesis using rtranclp_trans [OF demo_run_busy [OF assms]] by (intro exI [of _ ?x]) simp
qed

theorem only_two_crashes_witness:
  "\<exists>q. demo_life demo_env hostile (demo_stage [the_task] True Waiting [] Idle (demo_tables 0 NEW) []) q \<and>
     wp_crashed q = Some NonPositiveTicker \<and> (\<exists>resp. rs_StatusCode resp = 429 \<and> \<not> 0 <s busy_delay resp)"
proof -
  let ?q = "(demo_busy Waiting (Sending the_task the_task) [])\<lparr>wp_crashed := Some NonPositiveTicker\<rparr>"
  have "\<exists>resp. rs_StatusCode resp = 429 \<and> \<not> 0 <s busy_delay resp"
    using only_two_crashes [OF demo_stage_starts demo_tables_start(1) demo_env_db demo_run_crash [OF demo_env_db], of NonPositiveTicker]
    by auto
  then show ?thesis using demo_run_crash [OF demo_env_db] by (intro exI [of _ ?q]) simp
qed

end
