(* ===== verification/Config.thy ===== *)
theory Config
  imports Errors
begin

text \<open>
  \<open>internal/config\<close>: the settings of the server from the defaults, the command line and the
  environment. The environment is a function, empty where a variable is not set, as \<open>os.Getenv\<close> has it;
  \<open>net.SplitHostPort\<close> and the parser of the \<open>flag\<close> package are those of the standard library.
\<close>

section \<open>Addresses\<close>

fun cut_first :: "char \<Rightarrow> string \<Rightarrow> (string \<times> string) option" where
  "cut_first c [] = None"
| "cut_first c (x # xs) = (if x = c then Some ([], xs) else map_option (apfst (Cons x)) (cut_first c xs))"

fun cut_last :: "char \<Rightarrow> string \<Rightarrow> (string \<times> string) option" where
  "cut_last c [] = None"
| "cut_last c (x # xs) = (case cut_last c xs of
     Some (a, b) \<Rightarrow> Some (x # a, b)
   | None \<Rightarrow> if x = c then Some ([], xs) else None)"

definition SplitHostPort :: "string \<Rightarrow> go_error + string \<times> string" where
  "SplitHostPort hostport =
     (case cut_last (CHR '':'') hostport of
        None \<Rightarrow> Inl (ErrorString ''missing port in address'')
      | Some (before, port) \<Rightarrow>
          if hd hostport = CHR ''[''
          then (case cut_first (CHR '']'') hostport of
                  None \<Rightarrow> Inl (ErrorString ''missing ']' in address'')
                | Some (inside, rest) \<Rightarrow>
                    if rest = [] then Inl (ErrorString ''missing port in address'')
                    else if rest = CHR '':'' # port
                    then (if CHR ''['' \<in> set (tl hostport) then Inl (ErrorString ''unexpected '[' in address'')
                          else if CHR '']'' \<in> set rest then Inl (ErrorString ''unexpected ']' in address'')
                          else Inr (tl inside, port))
                    else if hd rest = CHR '':'' then Inl (ErrorString ''too many colons in address'')
                    else Inl (ErrorString ''missing port in address''))
          else if CHR '':'' \<in> set before then Inl (ErrorString ''too many colons in address'')
          else if CHR ''['' \<in> set hostport then Inl (ErrorString ''unexpected '[' in address'')
          else if CHR '']'' \<in> set hostport then Inl (ErrorString ''unexpected ']' in address'')
          else Inr (before, port))"

fun num_error_text :: "num_error \<Rightarrow> go_error" where
  "num_error_text ErrSyntax = ErrorString ''invalid syntax''"
| "num_error_text ErrRange = ErrorString ''value out of range''"

definition ValidateAddr :: "string \<Rightarrow> go_error option" where
  "ValidateAddr addr =
     (if addr = [] then Some (ErrorString ''address cannot be empty'')
      else case SplitHostPort addr of
        Inl err \<Rightarrow> Some (Wrapf ''address must be in format host:port or :port: '' err)
      | Inr (_, portStr) \<Rightarrow>
          (case atoi portStr of
             Inl err \<Rightarrow> Some (Wrapf ''port must be numeric: '' (num_error_text err))
           | Inr port \<Rightarrow> if port <s 1 \<or> 65535 <s port then Some (ErrorString ''port must be between 1 and 65535'') else None))"

section \<open>Environment\<close>

definition IsProduction :: "(string \<Rightarrow> string) \<Rightarrow> bool" where
  "IsProduction env \<longleftrightarrow> env ''YP_ENV'' = ''prod''"

definition IsDevelopment :: "(string \<Rightarrow> string) \<Rightarrow> bool" where
  "IsDevelopment env \<longleftrightarrow> \<not> IsProduction env"

text \<open>\<open>GetEnvOrFallback\<close> at \<open>string\<close> and \<open>int\<close>; every type but these and \<open>float64\<close> gets the fallback.\<close>

definition GetEnvOrFallback :: "(string \<Rightarrow> string) \<Rightarrow> string \<Rightarrow> string \<Rightarrow> string" where
  "GetEnvOrFallback env key fallback = (let valStr = env key in if valStr = [] then fallback else valStr)"

definition GetEnvOrFallback_int :: "(string \<Rightarrow> string) \<Rightarrow> string \<Rightarrow> go_int \<Rightarrow> go_int" where
  "GetEnvOrFallback_int env key fallback =
     (let valStr = env key in if valStr = [] then fallback else case atoi valStr of Inl err \<Rightarrow> fallback | Inr n \<Rightarrow> n)"

section \<open>The settings\<close>

text \<open>Durations are counted in nanoseconds.\<close>

abbreviation seconds :: "go_int \<Rightarrow> go_int" where "seconds n \<equiv> n * 1000000000"

record GophermartConfig =
  ListenAddr :: string
  ProcessingTimeout :: go_int
  ReadTimeout :: go_int
  ReadHeaderTimeout :: go_int
  WriteTimeout :: go_int
  IdleTimeout :: go_int
  GracefullShutdownTimeout :: go_int
  PsqlDSN :: string
  EncryptionKey :: string
  AccrualAddress :: string
  QueueBufSize :: go_int
  QueueWorkers :: go_int
  AccrualClientTImeout :: go_int
  WorkerPoolChanBuffer :: go_int
  DumperStoragePath :: string
  CompressionThreshold :: go_int

definition DefaultListenAddr :: string where "DefaultListenAddr = '':9081''"
definition DefaultProcessingTimeout :: go_int where "DefaultProcessingTimeout = seconds 60"
definition DefaultReadTimeout :: go_int where "DefaultReadTimeout = seconds 5"
definition DefaultReadHeaderTimeout :: go_int where "DefaultReadHeaderTimeout = seconds 5"
definition DefaultWriteTimeout :: go_int where "DefaultWriteTimeout = seconds 10"
definition DefaultIdleTimeout :: go_int where "DefaultIdleTimeout = seconds 30"
definition DefaultGracefullShutdownTimeout :: go_int where "DefaultGracefullShutdownTimeout = seconds 5"
definition DefaultPsqlDSN :: string where "DefaultPsqlDSN = []"
definition DefaultAccrualAddress :: string where "DefaultAccrualAddress = []"
definition DefaultQueueWorkers :: go_int where "DefaultQueueWorkers = 4"
definition DefaultQueueBufSize :: go_int where "DefaultQueueBufSize = 100"
definition DefaultWorkerPoolChanBuffer :: go_int where "DefaultWorkerPoolChanBuffer = 32"
definition DefaultAccrualClientTImeout :: go_int where "DefaultAccrualClientTImeout = seconds 3"
definition DefaultDumperStoragePath :: string where "DefaultDumperStoragePath = ''/tmp/practicum-gophermart-storage.dumps''"
definition DefaultCompressionThreshold :: go_int where "DefaultCompressionThreshold = 1024"
definition DefaultServerEncryptionKey :: string where
  "DefaultServerEncryptionKey = ''c7f7b4036a3fb58734412433cb7a2ed8dec913c650ef8475f05f5b36422cc18d''"

definition GetDefaultGophermartConfig :: GophermartConfig where
  "GetDefaultGophermartConfig = \<lparr>ListenAddr = DefaultListenAddr, ProcessingTimeout = DefaultProcessingTimeout, ReadTimeout = DefaultReadTimeout,
     ReadHeaderTimeout = DefaultReadHeaderTimeout, WriteTimeout = DefaultWriteTimeout, IdleTimeout = DefaultIdleTimeout,
     GracefullShutdownTimeout = DefaultGracefullShutdownTimeout, PsqlDSN = DefaultPsqlDSN, EncryptionKey = DefaultServerEncryptionKey,
     AccrualAddress = DefaultAccrualAddress, QueueBufSize = DefaultQueueBufSize, QueueWorkers = DefaultQueueWorkers,
     AccrualClientTImeout = DefaultAccrualClientTImeout, WorkerPoolChanBuffer = DefaultWorkerPoolChanBuffer,
     DumperStoragePath = DefaultDumperStoragePath, CompressionThreshold = DefaultCompressionThreshold\<rparr>"

lemmas default_config = GetDefaultGophermartConfig_def DefaultListenAddr_def DefaultProcessingTimeout_def DefaultReadTimeout_def
  DefaultReadHeaderTimeout_def DefaultWriteTimeout_def DefaultIdleTimeout_def
  DefaultGracefullShutdownTimeout_def DefaultPsqlDSN_def DefaultAccrualAddress_def
  DefaultQueueWorkers_def DefaultQueueBufSize_def DefaultWorkerPoolChanBuffer_def
  DefaultAccrualClientTImeout_def DefaultDumperStoragePath_def DefaultCompressionThreshold_def

definition Config_Validate :: "GophermartConfig \<Rightarrow> go_error option" where
  "Config_Validate c = (case ValidateAddr (ListenAddr c) of
     Some err \<Rightarrow> Some err
   | None \<Rightarrow> if EncryptionKey c = [] then Some (ErrorString ''encryption key can't be an empty string'') else None)"

definition UpdateFromEnvironment :: "(string \<Rightarrow> string) \<Rightarrow> GophermartConfig \<Rightarrow> GophermartConfig" where
  "UpdateFromEnvironment env c =
     (let c = c\<lparr>ListenAddr := GetEnvOrFallback env ''RUN_ADDRESS'' (ListenAddr c)\<rparr>;
          c = c\<lparr>PsqlDSN := GetEnvOrFallback env ''DATABASE_URI'' (PsqlDSN c)\<rparr>;
          c = c\<lparr>AccrualAddress := GetEnvOrFallback env ''ACCRUAL_SYSTEM_ADDRESS'' (AccrualAddress c)\<rparr>;
          c = c\<lparr>EncryptionKey := GetEnvOrFallback env ''GOPHERMART_ENCRYPTION_KEY'' (EncryptionKey c)\<rparr>
      in c)"

section \<open>The command line\<close>

text \<open>\<open>StringVar\<close> binds three names to fields; \<open>None\<close> is an unknown name.\<close>

definition set_flag :: "string \<Rightarrow> string \<Rightarrow> GophermartConfig \<Rightarrow> GophermartConfig option" where
  "set_flag name v c =
     (if name = ''d'' then Some (c\<lparr>PsqlDSN := v\<rparr>)
      else if name = ''a'' then Some (c\<lparr>ListenAddr := v\<rparr>)
      else if name = ''r'' then Some (c\<lparr>AccrualAddress := v\<rparr>)
      else None)"

text \<open>
  \<open>FlagSet.Parse\<close> for flags that take a value: \<open>-n v\<close>, \<open>--n v\<close>, \<open>-n=v\<close>, \<open>--n=v\<close>; it stops at the first
  argument that is no flag and after \<open>--\<close>. What is behind the equals sign is found from the second
  character of the name on.
\<close>

definition flag_name :: "string \<Rightarrow> string" where
  "flag_name s = (if s ! 1 = CHR ''-'' then drop 2 s else drop 1 s)"

definition flag_split :: "string \<Rightarrow> string \<times> string option" where
  "flag_split name = (case cut_first (CHR ''='') (tl name) of
     None \<Rightarrow> (name, None) | Some (a, v) \<Rightarrow> (hd name # a, Some v))"

definition ErrHelp :: go_error where
  "ErrHelp = ErrorString ''flag: help requested''"

fun flag_Parse :: "string list \<Rightarrow> GophermartConfig \<Rightarrow> go_error + GophermartConfig" where
  "flag_Parse [] c = Inr c"
| "flag_Parse (s # args) c =
     (if length s < 2 \<or> hd s \<noteq> CHR ''-'' then Inr c
      else if s = ''--'' then Inr c
      else (let name = flag_name s
        in if name = [] \<or> hd name = CHR ''-'' \<or> hd name = CHR ''='' then Inl (Wrapf ''bad flag syntax: '' (ErrorString s))
           else (case flag_split name of
              (name, value) \<Rightarrow>
                (case set_flag name [] c of
                   None \<Rightarrow> if name = ''help'' \<or> name = ''h'' then Inl ErrHelp
                            else Inl (Wrapf ''flag provided but not defined: -'' (ErrorString name))
                 | Some _ \<Rightarrow>
                     (case (value, args) of
                        (Some v, args) \<Rightarrow> flag_Parse args (the (set_flag name v c))
                      | (None, v # args) \<Rightarrow> flag_Parse args (the (set_flag name v c))
                      | (None, []) \<Rightarrow> Inl (Wrapf ''flag needs an argument: -'' (ErrorString name)))))))"

definition UpdateFromCLIArgs :: "string list \<Rightarrow> GophermartConfig \<Rightarrow> go_error + GophermartConfig" where
  "UpdateFromCLIArgs args c = flag_Parse args c"

definition NewGophermartConfig :: "(string \<Rightarrow> string) \<Rightarrow> string list \<Rightarrow> go_error + GophermartConfig" where
  "NewGophermartConfig env args =
     (case UpdateFromCLIArgs args GetDefaultGophermartConfig of
        Inl err \<Rightarrow> Inl err
      | Inr cfg \<Rightarrow>
          (let cfg = UpdateFromEnvironment env cfg
           in case Config_Validate cfg of Some err \<Rightarrow> Inl err | None \<Rightarrow> Inr cfg))"

section \<open>What a valid configuration is\<close>

lemma cut_last_spec: "cut_last c s = Some (a, b) \<Longrightarrow> s = a @ c # b \<and> c \<notin> set b"
proof (induction s arbitrary: a)
  case (Cons x xs)
  then show ?case
  proof (cases "cut_last c xs")
    case None
    moreover have "cut_last c ys = None \<Longrightarrow> c \<notin> set ys" for ys by (induction ys) (auto split: option.splits if_splits)
    ultimately show ?thesis using Cons.prems by (auto split: if_splits)
  qed (use Cons in auto)
qed simp

lemma SplitHostPort_port: "SplitHostPort s = Inr (h, p) \<Longrightarrow> \<exists>before. s = before @ CHR '':'' # p \<and> CHR '':'' \<notin> set p"
  by (auto simp: SplitHostPort_def split: option.splits if_splits dest!: cut_last_spec)

lemma ValidateAddr_port:
  assumes "ValidateAddr addr = None"
  shows "\<exists>before portStr port. addr = before @ CHR '':'' # portStr \<and> atoi portStr = Inr port \<and> 1 \<le> sint port \<and> sint port \<le> 65535"
proof -
  obtain h portStr port where p: "SplitHostPort addr = Inr (h, portStr)" "atoi portStr = Inr port" "\<not> (port <s 1 \<or> 65535 <s port)"
    using assms by (auto simp: ValidateAddr_def split: if_splits sum.splits)
  from SplitHostPort_port [OF p(1)] obtain before where "addr = before @ CHR '':'' # portStr" by blast
  moreover have "1 \<le> sint port" "sint port \<le> 65535" using p(3) by (auto simp: word_sless_alt)
  ultimately show ?thesis using p(2) by blast
qed

section \<open>Precedence\<close>

text \<open>A command line that gives values to flags, and the value that counts.\<close>

fun cli :: "(string \<times> string) list \<Rightarrow> string list" where
  "cli [] = []"
| "cli ((n, v) # ps) = (CHR ''-'' # n) # v # cli ps"

definition last_value :: "(string \<times> string) list \<Rightarrow> string \<Rightarrow> string \<Rightarrow> string" where
  "last_value ps n d = foldl (\<lambda>d (m, v). if m = n then v else d) d ps"

lemma last_value_simps [simp]:
  "last_value [] n d = d" "last_value ((m, v) # ps) n d = last_value ps n (if m = n then v else d)"
  by (simp_all add: last_value_def)

lemma flag_Parse_cli:
  "\<forall>(n, v)\<in>set ps. n \<in> {''a'', ''d'', ''r''} \<Longrightarrow>
   flag_Parse (cli ps) c = Inr (c\<lparr>ListenAddr := last_value ps ''a'' (ListenAddr c),
     PsqlDSN := last_value ps ''d'' (PsqlDSN c), AccrualAddress := last_value ps ''r'' (AccrualAddress c)\<rparr>)"
  by (induction ps arbitrary: c rule: cli.induct) (auto simp: flag_name_def flag_split_def set_flag_def)

text \<open>C38. Where the settings come from: the environment, unless the variable is empty, then the last flag
on the command line, then the default. The key for the tokens comes from the environment or is the
one in the source, and is never empty; the address the server listens at ends in a port number
between 1 and 65535.\<close>
theorem NewGophermartConfig_precedence:
  assumes "\<forall>(n, v)\<in>set ps. n \<in> {''a'', ''d'', ''r''}" "NewGophermartConfig env (cli ps) = Inr cfg"
  shows "ListenAddr cfg = GetEnvOrFallback env ''RUN_ADDRESS'' (last_value ps ''a'' '':9081'') \<and>
    PsqlDSN cfg = GetEnvOrFallback env ''DATABASE_URI'' (last_value ps ''d'' []) \<and>
    AccrualAddress cfg = GetEnvOrFallback env ''ACCRUAL_SYSTEM_ADDRESS'' (last_value ps ''r'' []) \<and>
    EncryptionKey cfg = GetEnvOrFallback env ''GOPHERMART_ENCRYPTION_KEY'' DefaultServerEncryptionKey \<and>
    EncryptionKey cfg \<noteq> [] \<and>
    (\<exists>before portStr port. ListenAddr cfg = before @ CHR '':'' # portStr \<and> atoi portStr = Inr port \<and>
       1 \<le> sint port \<and> sint port \<le> 65535)"
proof -
  have v: "Config_Validate cfg = None"
    and c: "cfg = UpdateFromEnvironment env (GetDefaultGophermartConfig\<lparr>ListenAddr := last_value ps ''a'' '':9081'',
      PsqlDSN := last_value ps ''d'' [], AccrualAddress := last_value ps ''r'' []\<rparr>)"
    using assms(2) flag_Parse_cli [OF assms(1)]
    by (auto simp: NewGophermartConfig_def UpdateFromCLIArgs_def default_config Let_def split: option.splits)
  have k: "ValidateAddr (ListenAddr cfg) = None" "EncryptionKey cfg \<noteq> []"
    using v by (auto simp: Config_Validate_def split: option.splits if_splits)
  show ?thesis
    using ValidateAddr_port [OF k(1)] k(2) unfolding c
    by (simp add: UpdateFromEnvironment_def default_config Let_def)
qed

theorem NewGophermartConfig_precedence_witness:
  "\<exists>cfg. NewGophermartConfig (\<lambda>k. if k = ''RUN_ADDRESS'' then ''[::1]:7070'' else []) (cli [(''a'', '':8085''), (''d'', ''dsn'')])
      = Inr cfg \<and> ListenAddr cfg = ''[::1]:7070'' \<and> PsqlDSN cfg = ''dsn'' \<and> AccrualAddress cfg = [] \<and>
      EncryptionKey cfg = DefaultServerEncryptionKey"
proof -
  let ?env = "\<lambda>k. if k = ''RUN_ADDRESS'' then ''[::1]:7070'' else []"
  let ?ps = "[(''a'', '':8085''), (''d'', ''dsn'')]"
  have a: "atoi ''7070'' = Inr 7070" by (simp add: atoi_signed_def is_digit_def digit_val_def)
  have p: "\<forall>(n, v)\<in>set ?ps. n \<in> {''a'', ''d'', ''r''}" by simp
  have sp: "SplitHostPort ''[::1]:7070'' = Inr (''::1'', ''7070'')" by code_simp
  have "ValidateAddr ''[::1]:7070'' = None" by (simp add: ValidateAddr_def sp a word_sless_alt del: atoi.simps)
  then have "Config_Validate c = None" if "ListenAddr c = ''[::1]:7070''" "EncryptionKey c = DefaultServerEncryptionKey" for c
    using that by (simp add: Config_Validate_def DefaultServerEncryptionKey_def)
  then have "\<exists>cfg. NewGophermartConfig ?env (cli ?ps) = Inr cfg"
    unfolding NewGophermartConfig_def UpdateFromCLIArgs_def flag_Parse_cli [OF p]
    by (simp add: UpdateFromEnvironment_def default_config Let_def GetEnvOrFallback_def)
  then obtain cfg where c: "NewGophermartConfig ?env (cli ?ps) = Inr cfg" by blast
  show ?thesis
    using NewGophermartConfig_precedence [OF p c] c by (intro exI [of _ cfg]) (simp add: GetEnvOrFallback_def del: cli.simps)
qed

end
