(* ===== verification/Startup.thy ===== *)
theory Startup
  imports Config
begin

text \<open>
  \<open>internal/gophermart/gophermart.go\<close>, \<open>pg_migrator.go\<close> and \<open>cmd/gophermart/main.go\<close>: how the server
  gets its database before it serves. The database handle answers pings and waits from scripts and
  counts what was done with it; executing a script and reading files are arguments.
\<close>

section \<open>Connecting\<close>

text \<open>
  The answers to the pings to come (after them the server is up), whether the context ends during the
  waits to come (after them it does not), pings made, waits made, and \<open>Close\<close>.
\<close>

record psql =
  pg_pings :: "go_error option list"
  pg_cancels :: "bool list"
  pg_pinged :: nat
  pg_waited :: "go_int list"
  pg_closed :: bool

definition maxConnectionRetries :: nat where
  "maxConnectionRetries = 3"

definition waitIntervalBetweenConnections :: go_int where
  "waitIntervalBetweenConnections = seconds 3"

definition PingContext :: "psql \<Rightarrow> go_error option \<times> psql" where
  "PingContext db = (case pg_pings db of
     [] \<Rightarrow> (None, db\<lparr>pg_pinged := Suc (pg_pinged db)\<rparr>)
   | e # es \<Rightarrow> (e, db\<lparr>pg_pings := es, pg_pinged := Suc (pg_pinged db)\<rparr>))"

text \<open>The \<open>select\<close> between the context and \<open>time.After\<close>: whether the context came first.\<close>

definition wait_or_done :: "go_int \<Rightarrow> psql \<Rightarrow> bool \<times> psql" where
  "wait_or_done d db = (case pg_cancels db of
     [] \<Rightarrow> (False, db\<lparr>pg_waited := pg_waited db @ [d]\<rparr>)
   | c # cs \<Rightarrow> (c, db\<lparr>pg_cancels := cs, pg_waited := pg_waited db @ (if c then [] else [d])\<rparr>))"

definition db_Close :: "psql \<Rightarrow> psql" where
  "db_Close db = db\<lparr>pg_closed := True\<rparr>"

text \<open>The loop with the rounds left and \<open>attempt\<close>: an early return, or \<open>lastErr\<close> behind the loop.\<close>

fun connect_loop :: "nat \<Rightarrow> nat \<Rightarrow> go_error option \<Rightarrow> psql \<Rightarrow> (go_error + go_error option) \<times> psql" where
  "connect_loop 0 attempt lastErr db = (Inr lastErr, db)"
| "connect_loop (Suc n) attempt lastErr db =
     (case PingContext db of
        (None, db) \<Rightarrow> (Inr None, db)
      | (Some err, db) \<Rightarrow>
          if attempt < maxConnectionRetries
          then (case wait_or_done waitIntervalBetweenConnections db of
                  (True, db) \<Rightarrow> (Inl (DriverErr (CtxError Canceled)), db_Close db)
                | (False, db) \<Rightarrow> connect_loop n (Suc attempt) (Some err) db)
          else connect_loop n (Suc attempt) (Some err) db)"

definition PsqlConnect :: "go_error option \<Rightarrow> psql \<Rightarrow> (go_error + unit) \<times> psql" where
  "PsqlConnect open_err db =
     (case open_err of
        Some err \<Rightarrow> (Inl (Wrapf ''parsing DSN: '' err), db)
      | None \<Rightarrow>
          (case connect_loop maxConnectionRetries 0 None db of
             (Inl err, db) \<Rightarrow> (Inl err, db)
           | (Inr (Some lastErr), db) \<Rightarrow> (Inl (Wrapf ''db connection failed after 3 retries: '' lastErr), db_Close db)
           | (Inr None, db) \<Rightarrow> (Inr (), db)))"

section \<open>Migrations\<close>

text \<open>A file that is not there is skipped; the first other error ends the work.\<close>

fun apply_files :: "(string \<Rightarrow> os_error + string) \<Rightarrow> (string \<Rightarrow> 's \<Rightarrow> go_error option \<times> 's) \<Rightarrow> string list \<Rightarrow> 's \<Rightarrow>
    go_error option \<times> 's" where
  "apply_files ReadFile exec [] s = (None, s)"
| "apply_files ReadFile exec (f # fs) s =
     (case ReadFile f of
        Inl err \<Rightarrow> if err = NotExist then apply_files ReadFile exec fs s else (Some (OsErr err), s)
      | Inr content \<Rightarrow>
          (case exec content s of (Some err, s) \<Rightarrow> (Some err, s) | (None, s) \<Rightarrow> apply_files ReadFile exec fs s))"

definition Apply :: "os_error option \<Rightarrow> (string \<Rightarrow> os_error + string) \<Rightarrow> (string \<Rightarrow> 's \<Rightarrow> go_error option \<times> 's) \<Rightarrow>
    string list \<Rightarrow> 's \<Rightarrow> go_error option \<times> 's" where
  "Apply open_root ReadFile exec fs s = (case open_root of
     Some err \<Rightarrow> (Some (OsErr err), s) | None \<Rightarrow> apply_files ReadFile exec fs s)"

text \<open>\<open>databaseWorks\<close> of \<open>main\<close>.\<close>

definition databaseWorks :: "GophermartConfig \<Rightarrow> go_error option \<Rightarrow> os_error option \<Rightarrow> (string \<Rightarrow> os_error + string) \<Rightarrow>
    (string \<Rightarrow> 's \<Rightarrow> go_error option \<times> 's) \<Rightarrow> psql \<Rightarrow> 's \<Rightarrow> (go_error + unit) \<times> psql \<times> 's" where
  "databaseWorks cfg open_err open_root ReadFile exec db s =
     (if PsqlDSN cfg = [] then (Inl (ErrorString ''database_dsn is empty''), db, s)
      else case PsqlConnect open_err db of
        (Inl err, db) \<Rightarrow> (Inl err, db, s)
      | (Inr _, db) \<Rightarrow>
          (case Apply open_root ReadFile exec [''migrations/000001_init_project.up.sql''] s of
             (Some err, s) \<Rightarrow> (Inl err, db, s)
           | (None, s) \<Rightarrow> (Inr (), db, s)))"

section \<open>The program\<close>

text \<open>
  \<open>waitServer\<close>: the server stopped with an error, or a signal came and \<open>Shutdown\<close> did its work; then
  \<open>runHTTPServer\<close> and \<open>run\<close>, and what \<open>main\<close> prints and exits with.
\<close>

datatype server_event = ServerError go_error | Signal

definition ErrServerClosed :: go_error where
  "ErrServerClosed = ErrorString ''http: Server closed''"

definition waitServer :: "server_event \<Rightarrow> go_error option \<Rightarrow> go_error option" where
  "waitServer ev shutdown_err =
     (case ev of
        ServerError err \<Rightarrow> Some (Wrapf ''server startup error: '' err)
      | Signal \<Rightarrow> map_option (Wrapf ''server shutdown error: '') shutdown_err)"

definition runHTTPServer :: "(go_error + unit) \<Rightarrow> go_error option \<Rightarrow> server_event \<Rightarrow> go_error option \<Rightarrow> go_error option" where
  "runHTTPServer database router_err ev shutdown_err =
     (case database of Inl err \<Rightarrow> Some err
      | Inr _ \<Rightarrow> (case router_err of Some err \<Rightarrow> Some err | None \<Rightarrow> waitServer ev shutdown_err))"

text \<open>
  \<open>run\<close> reads the flags into \<open>flag.CommandLine\<close>, which ends the process itself on an error: with status 0 when
  help was asked for, with 2 otherwise. So \<open>run\<close> may not return.
\<close>

datatype ending = OsExit nat | Ended "go_error option"

definition CommandLine_exit :: "string list \<Rightarrow> nat option" where
  "CommandLine_exit args = (case UpdateFromCLIArgs args GetDefaultGophermartConfig of
     Inl err \<Rightarrow> Some (if err = ErrHelp then 0 else 2) | Inr _ \<Rightarrow> None)"

definition run :: "go_error option \<Rightarrow> (string \<Rightarrow> string) \<Rightarrow> string list \<Rightarrow> (GophermartConfig \<Rightarrow> go_error option) \<Rightarrow> ending" where
  "run logger_err env args serve_with =
     (case logger_err of Some err \<Rightarrow> Ended (Some (Wrapf ''failed to init logger: '' err))
      | None \<Rightarrow>
          (case CommandLine_exit args of Some code \<Rightarrow> OsExit code
           | None \<Rightarrow>
               (case NewGophermartConfig env args of
                  Inl err \<Rightarrow> Ended (Some (Wrapf ''failed to load config: '' err))
                | Inr cfg \<Rightarrow> Ended (serve_with cfg))))"

definition main :: "ending \<Rightarrow> bool \<times> nat" where
  "main r = (case r of OsExit code \<Rightarrow> (False, code) | Ended None \<Rightarrow> (False, 0)
     | Ended (Some err) \<Rightarrow> (\<not> errors_Is err ErrServerClosed, 1))"

text \<open>The program exits with 0 only when it was asked for help, or after a signal and a clean shutdown of a
server that had its database.\<close>

lemma main_exits_0:
  assumes "snd (main (run logger_err env args (\<lambda>cfg. runHTTPServer (fst (databaseWorks cfg open_err open_root ReadFile exec db s))
      router_err ev shutdown_err))) = 0"
  shows "UpdateFromCLIArgs args GetDefaultGophermartConfig = Inl ErrHelp \<or>
    (\<exists>cfg db'. NewGophermartConfig env args = Inr cfg \<and> PsqlDSN cfg \<noteq> [] \<and> PsqlConnect open_err db = (Inr (), db') \<and>
      fst (Apply open_root ReadFile exec [''migrations/000001_init_project.up.sql''] s) = None \<and>
      router_err = None \<and> ev = Signal \<and> shutdown_err = None)"
  using assms
  by (auto simp: main_def run_def CommandLine_exit_def runHTTPServer_def databaseWorks_def waitServer_def
      split: option.splits sum.splits prod.splits if_splits server_event.splits)

section \<open>What connecting does\<close>

text \<open>How many pings fail at the start.\<close>

definition failing :: "go_error option list \<Rightarrow> nat" where
  "failing es = length (takeWhile (\<lambda>e. e \<noteq> None) es)"

lemma connect_loop_run:
  assumes "pg_cancels db = []" "attempt + n \<le> maxConnectionRetries"
  shows "\<exists>r db'. connect_loop n attempt lastErr db = (Inr r, db') \<and>
    pg_pinged db' = pg_pinged db + min n (Suc (failing (pg_pings db))) \<and>
    pg_waited db' = pg_waited db @ replicate (min n (failing (pg_pings db))) waitIntervalBetweenConnections \<and>
    pg_closed db' = pg_closed db \<and>
    (if failing (pg_pings db) < n then r = None else if n = 0 then r = lastErr else r = pg_pings db ! (n - 1) \<and> r \<noteq> None)"
  using assms
proof (induction n arbitrary: attempt lastErr db)
  case (Suc n)
  show ?case
  proof (cases "pg_pings db")
    case Nil
    then show ?thesis by (simp add: PingContext_def failing_def)
  next
    case (Cons e es)
    show ?thesis
    proof (cases e)
      case None
      with Cons show ?thesis by (simp add: PingContext_def failing_def)
    next
      case (Some err)
      let ?db = "db\<lparr>pg_pings := es, pg_pinged := Suc (pg_pinged db), pg_waited := pg_waited db @ [waitIntervalBetweenConnections]\<rparr>"
      have "connect_loop (Suc n) attempt lastErr db = connect_loop n (Suc attempt) (Some err) ?db"
        using Suc.prems Cons Some by (simp add: PingContext_def wait_or_done_def)
      moreover have "failing (pg_pings db) = Suc (failing es)" using Cons Some by (simp add: failing_def)
      ultimately show ?thesis
        using Suc.IH [of ?db "Suc attempt" "Some err"] Suc.prems Cons Some by (auto simp: nth_Cons')
    qed
  qed
qed simp

text \<open>C39. The server connects if and only if the database answers one of the first three pings; it then
stops pinging at once. Between pings it waits three seconds, and once more after the third failure
before it gives up, with the handle closed. So starting up takes at most three pings and nine
seconds of waiting.\<close>
theorem PsqlConnect_bounded:
  assumes "pg_cancels db = []" "pg_pinged db = 0" "pg_waited db = []" "\<not> pg_closed db"
  shows "\<exists>r db'. PsqlConnect None db = (r, db') \<and> pg_pinged db' = min 3 (Suc (failing (pg_pings db))) \<and>
    pg_waited db' = replicate (min 3 (failing (pg_pings db))) (seconds 3) \<and>
    (r = Inr () \<longleftrightarrow> failing (pg_pings db) < 3) \<and> (pg_closed db' \<longleftrightarrow> \<not> failing (pg_pings db) < 3)"
proof -
  obtain r db' where l: "connect_loop maxConnectionRetries 0 None db = (Inr r, db')"
    "pg_pinged db' = min 3 (Suc (failing (pg_pings db)))"
    "pg_waited db' = replicate (min 3 (failing (pg_pings db))) waitIntervalBetweenConnections" "\<not> pg_closed db'"
    "r = None \<longleftrightarrow> failing (pg_pings db) < 3"
    using connect_loop_run [OF assms(1), of 0 maxConnectionRetries None] assms(2-4)
    by (auto simp: maxConnectionRetries_def split: if_splits)
  then show ?thesis
    by (cases r) (auto simp: PsqlConnect_def waitIntervalBetweenConnections_def db_Close_def)
qed

theorem PsqlConnect_bounded_witness:
  "\<exists>r db'. PsqlConnect None \<lparr>pg_pings = [Some ErrNoRows, None], pg_cancels = [], pg_pinged = 0, pg_waited = [], pg_closed = False\<rparr>
     = (r, db') \<and> pg_pinged db' = 2 \<and> pg_waited db' = [seconds 3] \<and> r = Inr () \<and> \<not> pg_closed db'"
  using PsqlConnect_bounded [of "\<lparr>pg_pings = [Some ErrNoRows, None], pg_cancels = [], pg_pinged = 0, pg_waited = [], pg_closed = False\<rparr>"]
  by (auto simp: failing_def)

end
