(* ===== verification/Spec2Isabelle.thy ===== *)
theory Spec2Isabelle
  imports Interleaving Gateway Crashes Startup
begin

text \<open>
  Gophermart, a loyalty shop: users register and log in, hand in order numbers, collect points that an
  external accrual service grants for them, and spend the points. The Go program under \<open>src/\<close> is an
  HTTP server over PostgreSQL with a pool of workers that asks the accrual service about the orders.

  \<^bold>\<open>Parts and theories.\<close>

  \<^item> Basics. \<open>Prelude\<close>: the 64-bit \<open>int\<close> as a word, a call that may panic (\<open>outcome\<close>), buffered channels and
    the non-blocking send. \<open>GoStd\<close>: \<open>strconv\<close>, \<open>strings\<close>. \<open>Json\<close>, \<open>JsonText\<close>: \<open>encoding/json\<close>, values and text.
    \<open>Float64\<close>: rounding to the nearest double. \<open>Machines\<close>: invariants and simulations of step relations.
  \<^item> \<open>internal/services/alg\<close>: \<open>Luhn\<close>.
  \<^item> \<open>internal/models\<close>: \<open>Money\<close> (amounts and their texts), \<open>Models\<close> (structs, validation), \<open>JsonModels\<close> (documents).
  \<^item> Errors, \<open>internal/services/db/pgerrors\<close>: \<open>Errors\<close>, \<open>PgErrors\<close>.
  \<^item> \<open>internal/repositories/postgresql\<close>: \<open>Database\<close> has the tables of the migration and one function for each
    SQL text; \<open>Storage\<close> the repository methods with the retry loops \<open>withRetry\<close> and \<open>withTxRetry\<close>;
    \<open>Transactions\<close> what the loops guarantee for any action; \<open>Repository\<close> what each method does to the tables;
    \<open>Ledger\<close> the books over any history of calls; \<open>Contracts\<close> the interface as locales, interpreted
    by the repository.
  \<^item> \<open>internal/services\<close>: \<open>Services\<close>. \<open>internal/clients\<close>: \<open>AccrualClient\<close>; together \<open>AccrualTasks\<close>.
  \<^item> \<open>internal/middleware\<close>, \<open>internal/handlers\<close>: \<open>Http\<close> (writer of the server, contracts of a writer as
    locales), \<open>Middleware\<close>, \<open>Handlers\<close>, \<open>Endpoints\<close> (what a client sees, for every writer that keeps the
    contract), \<open>Server\<close> (the routes of \<open>NewRouter\<close>), \<open>Gateway\<close> (the middleware around them), \<open>Tokens\<close> and \<open>Documents\<close> (endpoints from the request to
    the reply).
  \<^item> \<open>internal/processors\<close>: \<open>WorkerPool\<close> (goroutines as steps), \<open>PoolInvariants\<close>, \<open>PoolRuns\<close> (the pool as
    \<open>NewRouter\<close> sets it up). \<open>internal/repositories/file\<close>: \<open>FileStorage\<close>, the dump of its queue.
  \<^item> The parts together: \<open>Journey\<close> follows one order, \<open>Sessions\<close> has what every request keeps, \<open>Accounts\<close> the
    whole server, requests and goroutines interleaved, \<open>StoredData\<close> the form of what it stores, \<open>Crashes\<close>
    what can end it, \<open>Interleaving\<close> requests whose repository calls alternate with those of others.
  \<^item> \<open>internal/config\<close>, \<open>internal/gophermart\<close>, \<open>cmd/gophermart\<close>: \<open>Config\<close>, \<open>Startup\<close>.

  \<^bold>\<open>How code and model correspond.\<close> A struct is a record, an error a value of \<open>go_error\<close>, a pair of
  result and error a sum; a panic is an \<open>outcome\<close>. A method that changes its receiver or an argument
  returns it. The database server is the state \<open>server\<close>: tables, the values its generators will give, and
  a script of failures that decides how each statement, commit and connection fares; every theorem that
  does not say otherwise holds for every script. A handler maps a request, a writer and the
  application state to an outcome and the new ones. The pool is a state with one program counter for
  each goroutine; a step moves one goroutine from one blocking point or lock to the next, and a worker
  asks, answers and sends in steps of their own.

  \<^bold>\<open>What is shown.\<close>

  \<^item> The order number check is the textbook Luhn sum and finds every wrong digit and every swap but 09/90.
  \<^item> Amounts: which texts are read back exactly, where the parser truncates or panics, and that amounts up
    to 2^50 kopecks survive the way through JSON and \<open>float64\<close>.
  \<^item> The books: over any history of calls and failures keys stay unique, balances non-negative, and balance
    plus withdrawals is what processed orders earned.
  \<^item> Each endpoint: which status means what for the database, what the documents say, who gets a token, that
    nothing but registration and login works without one, and that compression is invisible.
  \<^item> Accrual tasks: retries, pauses, which answers queue an order again, what is credited.
  \<^item> The pool: it refines a bag of tasks, no wake-up is lost, it never blocks beside work, it can always be
    stopped, and a dump, made step by step beside the reader and the workers, hands the queue to the next server.
  \<^item> \<open>Journey\<close>: an order from the request that hands it in to the points in the balance document.
  \<^item> \<open>Accounts\<close>: in every state the server reaches the books balance and no order is credited twice, no
    request makes a handler panic, and what a stopped server dumps is fit for the next start. What the
    proofs need of the repository calls is the locale \<open>task_books\<close>; the accounts are one instance of it.
  \<^item> \<open>StoredData\<close>, the other instance: in every such state the rows meet the limits of the schema and the checks of
    the code, passwords are hashes, order numbers pass the checksum; a number written in two ways is two orders.
  \<^item> \<open>Crashes\<close>: of the panics in the model only two can end the running program, and both are reachable.
  \<^item> \<open>Gateway\<close>: every request is answered, after a panic with 500, and its effect is that of its route.
  \<^item> \<open>Interleaving\<close>: services with one repository call take effect at one moment; an order number is
    classified rightly beside others; the balance document is made of two reads and may fit no state.
  \<^item> Start: precedence and validity of the settings, bounded attempts to connect.

  \<^bold>\<open>Bounds.\<close> No definition has fuel. The retry loops recurse on the attempts that are left (three, as
  in the code), JSON nesting is limited to 10000 as in \<open>encoding/json\<close>; a shutdown of a pool with \<open>n\<close>
  workers can be over in \<open>8 + 4 * n\<close> steps and one more for each task in the work channel.

  \<^bold>\<open>Arguments of the model.\<close> bcrypt, the token library, the HTTP client and its timer, gzip, the middleware of
  chi, the Avro library, the texts of times. What is needed of them is a named hypothesis of the theorem
  concerned, with an instance in its witness.

  \<^bold>\<open>Not modelled.\<close> Log lines; statements of different transactions do not interleave in the model of the
  database, each repository call is a transaction that runs alone; in \<open>Accounts\<close> a
  request is one step, its calls alternate with those of others in \<open>Interleaving\<close>; the HTTP server itself, of which \<open>Startup\<close> has only how \<open>main\<close> ends; the accrual service
  itself, of which \<open>src/\<close> has binaries only; generated mocks and tests. How the database refuses texts with a NUL or
  invalid UTF-8 and cuts trailing blanks; the race of \<open>dumpQueue\<close>, which reads the stack without its lock; a
  non-blocking send into a channel without a buffer (the channels of the program have one); how long a pause lasts.
\<close>

end
